(* ===== verification/Sftp_Prelude.thy ===== *)
theory Sftp_Prelude
  imports Main "HOL-Library.Word"
begin

text \<open>
  The prelude of the development: the machine types of the Go program, the parts of Go and of
  its standard library that several components use (slices and their bounds, the conversions
  between \<^verbatim>\<open>string\<close> and \<^verbatim>\<open>[]byte\<close>, \<^verbatim>\<open>encoding/binary\<close>'s big-endian integers,
  \<^verbatim>\<open>strings.Split\<close>, \<^verbatim>\<open>Join\<close> and \<^verbatim>\<open>Contains\<close>), and the generic lemmas on them.

  A Go \<^verbatim>\<open>[]byte\<close> is a list of 8-bit words. A Go \<^verbatim>\<open>string\<close> is a sequence of bytes too; it is
  written as Isabelle's \<open>string\<close>, whose characters are exactly the 256 byte values, so that
  literals read as they do in the source. \<^verbatim>\<open>int\<close> is 64 bits wide on every platform the
  repository builds for.
\<close>

unbundle bit_operations_syntax

type_synonym byte = "8 word"
type_synonym bytes = "byte list"
type_synonym u16 = "16 word"
type_synonym u32 = "32 word"
type_synonym u64 = "64 word"
type_synonym i64 = "64 word"

named_theorems go_simps \<open>Evaluation rules for the parts of Go and its library the model uses\<close>
named_theorems wire_step \<open>Rules that step a decoder over an encoded value\<close>

subsection \<open>Slices\<close>

text \<open>
  \<open>slice i j xs\<close> is Go's \<^verbatim>\<open>xs[i:j]\<close>. Out of range it panics at run time, which is
  \<open>None\<close> here; \<open>index xs i\<close> is \<^verbatim>\<open>xs[i]\<close>.
\<close>

definition slice :: "nat \<Rightarrow> nat \<Rightarrow> 'a list \<Rightarrow> 'a list option" where
  "slice i j xs = (if i \<le> j \<and> j \<le> length xs then Some (take (j - i) (drop i xs)) else None)"

definition index :: "'a list \<Rightarrow> nat \<Rightarrow> 'a option" where
  "index xs i = (if i < length xs then Some (xs ! i) else None)"

text \<open>\<open>overlay src dst\<close> is \<^verbatim>\<open>dst\<close> after \<^verbatim>\<open>copy(dst, src)\<close>.\<close>

definition overlay :: "'a list \<Rightarrow> 'a list \<Rightarrow> 'a list" where
  "overlay src dst = take (length dst) src @ drop (length src) dst"

lemma slice_in_range: "i \<le> j \<Longrightarrow> j \<le> length xs \<Longrightarrow> slice i j xs = Some (take (j - i) (drop i xs))"
  by (simp add: slice_def)

lemma slice_append [simp]: "slice (length pre) (length pre + length ys) (pre @ ys @ zs) = Some ys"
  by (simp add: slice_def)

lemma slice_to_end [simp]: "slice (length pre) (length pre + length zs) (pre @ zs) = Some zs"
  by (simp add: slice_def)

lemma slice_SomeD: "slice i j xs = Some ys \<Longrightarrow> i \<le> j \<and> j \<le> length xs \<and> length ys = j - i"
  by (auto simp: slice_def split: if_splits)

lemma index_append [simp]: "index (pre @ y # zs) (length pre) = Some y"
  by (simp add: index_def)

lemma length_overlay [simp]: "length (overlay src dst) = length dst"
  by (simp add: overlay_def)

lemma nth_overlay:
  "i < length dst \<Longrightarrow> overlay src dst ! i = (if i < length src then src ! i else dst ! i)"
  by (auto simp: overlay_def nth_append)

subsection \<open>Big-endian integers\<close>

text \<open>
  \<open>be_bytes k v\<close> is what \<^verbatim>\<open>binary.BigEndian\<close> appends for a \<open>k\<close>-byte integer, most
  significant byte first; \<open>be_val\<close> reads it back.
\<close>

primrec be_bytes :: "nat \<Rightarrow> 'a::len word \<Rightarrow> bytes" where
  "be_bytes 0 v = []"
| "be_bytes (Suc k) v = be_bytes k (drop_bit 8 v) @ [ucast v]"

definition be_val :: "bytes \<Rightarrow> 'a::len word" where
  "be_val bs = foldl (\<lambda>acc b. push_bit 8 acc OR ucast b) 0 bs"

lemma be_val_Nil [simp]: "be_val [] = 0"
  by (simp add: be_val_def)

lemma be_val_snoc: "be_val (bs @ [b]) = push_bit 8 (be_val bs) OR ucast b"
  by (simp add: be_val_def)

lemma length_be_bytes [simp]: "length (be_bytes k v) = k"
  by (induction k arbitrary: v) auto

lemma byte_bit_less: "bit (b :: byte) n \<Longrightarrow> n < 8"
  using bit_imp_le_length [of b n] by simp

lemma be_val_be_bytes: "be_val (be_bytes k v) = take_bit (8 * k) v"
proof (induction k arbitrary: v)
  case 0
  show ?case by simp
next
  case (Suc k)
  have "push_bit 8 (take_bit (8 * k) (drop_bit 8 v)) OR ucast (ucast v :: byte)
      = take_bit (8 * Suc k) v"
    by (rule bit_word_eqI) (auto simp: bit_simps)
  then show ?case by (simp add: be_val_snoc Suc)
qed

lemma bit_be_val_less: "bit (be_val bs :: 'a::len word) n \<Longrightarrow> n < 8 * length bs"
proof (induction bs arbitrary: n rule: rev_induct)
  case (snoc b bs)
  from snoc.prems have "8 \<le> n \<and> bit (be_val bs :: 'a word) (n - 8) \<or> bit b n"
    by (auto simp: be_val_snoc bit_simps)
  then show ?case using snoc.IH [of "n - 8"] byte_bit_less [of b n] by auto
qed simp

lemma be_bytes_be_val:
  "8 * length bs \<le> LENGTH('a::len) \<Longrightarrow> be_bytes (length bs) (be_val bs :: 'a word) = bs"
proof (induction bs rule: rev_induct)
  case (snoc b bs)
  have high: "drop_bit 8 (be_val (bs @ [b])) = (be_val bs :: 'a word)"
    using snoc.prems bit_be_val_less [of bs, where 'a = 'a] byte_bit_less [of b]
    by (intro bit_word_eqI) (fastforce simp: be_val_snoc bit_simps)
  have low: "ucast (be_val (bs @ [b]) :: 'a word) = b"
    using snoc.prems by (auto intro!: bit_word_eqI simp: be_val_snoc bit_simps)
  show ?case using snoc high low by simp
qed simp

lemma be32_val [simp]: "be_val (be_bytes 4 (v :: u32)) = v"
  by (simp add: be_val_be_bytes take_bit_word_eq_self)

lemma be64_val [simp]: "be_val (be_bytes 8 (v :: u64)) = v"
  by (simp add: be_val_be_bytes take_bit_word_eq_self)

lemma be32_bytes: "length bs = 4 \<Longrightarrow> be_bytes 4 (be_val bs :: u32) = bs"
  using be_bytes_be_val [of bs, where 'a = 32] by simp

lemma be64_bytes: "length bs = 8 \<Longrightarrow> be_bytes 8 (be_val bs :: u64) = bs"
  using be_bytes_be_val [of bs, where 'a = 64] by simp

lemma unat_be32_of_nat: "n < 2 ^ 32 \<Longrightarrow> unat (word_of_nat n :: u32) = n"
  by (simp add: unat_of_nat take_bit_nat_eq_self)

subsection \<open>Strings and bytes\<close>

definition byte_of_char :: "char \<Rightarrow> byte" where
  "byte_of_char c = word_of_nat (of_char c)"

definition char_of_byte :: "byte \<Rightarrow> char" where
  "char_of_byte b = char_of (unat b)"

text \<open>The conversions \<^verbatim>\<open>[]byte(s)\<close> and \<^verbatim>\<open>string(b)\<close>.\<close>

definition bytes_of :: "string \<Rightarrow> bytes" where
  "bytes_of s = map byte_of_char s"

definition string_of :: "bytes \<Rightarrow> string" where
  "string_of b = map char_of_byte b"

lemma char_of_byte_of_char [simp]: "char_of_byte (byte_of_char c) = c"
  by (simp add: char_of_byte_def byte_of_char_def unat_of_nat)

lemma byte_of_char_of_byte [simp]: "byte_of_char (char_of_byte b) = b"
  using unsigned_less [of b, where 'a = nat] by (simp add: char_of_byte_def byte_of_char_def)

lemma string_of_bytes_of [simp]: "string_of (bytes_of s) = s"
  by (simp add: string_of_def bytes_of_def o_def)

lemma bytes_of_string_of [simp]: "bytes_of (string_of b) = b"
  by (simp add: string_of_def bytes_of_def o_def)

lemma length_bytes_of [simp]: "length (bytes_of s) = length s"
  by (simp add: bytes_of_def)

lemma length_string_of [simp]: "length (string_of b) = length b"
  by (simp add: string_of_def)

lemma bytes_of_append [simp]: "bytes_of (s @ t) = bytes_of s @ bytes_of t"
  by (simp add: bytes_of_def)

subsection \<open>The strings package\<close>

text \<open>
  \<open>split_at c s\<close> is \<^verbatim>\<open>strings.Split(s, c)\<close> for a one-byte separator: it never returns an
  empty list. \<open>join_with c xs\<close> is \<^verbatim>\<open>strings.Join(xs, c)\<close>.
\<close>

fun split_at :: "char \<Rightarrow> string \<Rightarrow> string list" where
  "split_at c [] = [[]]"
| "split_at c (x # xs) =
     (if x = c then [] # split_at c xs
      else (case split_at c xs of [] \<Rightarrow> [[x]] | y # ys \<Rightarrow> (x # y) # ys))"

fun join_with :: "char \<Rightarrow> string list \<Rightarrow> string" where
  "join_with c [] = []"
| "join_with c [x] = x"
| "join_with c (x # y # ys) = x @ c # join_with c (y # ys)"

lemma split_at_nonempty [simp]: "split_at c s \<noteq> []"
  by (induction s) (auto split: list.splits)

lemma split_at_no_sep: "x \<in> set (split_at c s) \<Longrightarrow> c \<notin> set x"
proof (induction s arbitrary: x)
  case (Cons a s)
  then show ?case
    by (cases "split_at c s") (auto split: if_splits)
qed simp

lemma split_at_chars: "x \<in> set (split_at c s) \<Longrightarrow> set x \<subseteq> set s"
proof (induction s arbitrary: x)
  case (Cons a s)
  then show ?case
    by (cases "split_at c s") (fastforce split: if_splits)+
qed simp

lemma split_at_single: "c \<notin> set x \<Longrightarrow> split_at c x = [x]"
  by (induction x) auto

lemma split_at_append_sep:
  "split_at c (x @ c # s) = split_at c x @ split_at c s"
proof (induction x)
  case (Cons a x)
  then show ?case
    by (cases "split_at c x") (auto split: list.splits)
qed simp

lemma split_at_join:
  "xs \<noteq> [] \<Longrightarrow> (\<forall>x \<in> set xs. c \<notin> set x) \<Longrightarrow> split_at c (join_with c xs) = xs"
  by (induction c xs rule: join_with.induct)
    (auto simp: split_at_append_sep split_at_single)

lemma join_split_at: "join_with c (split_at c s) = s"
proof (induction s)
  case (Cons a s)
  then show ?case
    by (cases "split_at c s"; cases "tl (split_at c s)") (auto simp: neq_Nil_conv)
qed simp

lemma length_join_with: "length (join_with c xs) = sum_list (map length xs) + (length xs - 1)"
  by (induction c xs rule: join_with.induct) auto

lemma join_with_append:
  "xs \<noteq> [] \<Longrightarrow> ys \<noteq> [] \<Longrightarrow> join_with c (xs @ ys) = join_with c xs @ c # join_with c ys"
proof (induction c xs rule: join_with.induct)
  case (2 c x)
  then show ?case by (cases ys) auto
qed auto

lemma set_join_with: "set (join_with c xs) \<subseteq> insert c (\<Union> (set ` set xs))"
  by (induction c xs rule: join_with.induct) auto

text \<open>\<open>contains s frag\<close> is \<^verbatim>\<open>strings.Contains(s, frag)\<close>.\<close>

fun starts_with :: "string \<Rightarrow> string \<Rightarrow> bool" where
  "starts_with s [] = True"
| "starts_with [] (y # ys) = False"
| "starts_with (x # xs) (y # ys) = (x = y \<and> starts_with xs ys)"

fun contains :: "string \<Rightarrow> string \<Rightarrow> bool" where
  "contains [] frag = starts_with [] frag"
| "contains (x # xs) frag = (starts_with (x # xs) frag \<or> contains xs frag)"

lemma starts_with_iff: "starts_with s frag \<longleftrightarrow> (\<exists>r. s = frag @ r)"
  by (induction s frag rule: starts_with.induct) auto

lemma contains_iff: "contains s frag \<longleftrightarrow> (\<exists>l r. s = l @ frag @ r)"
proof (induction s)
  case Nil
  then show ?case by (simp add: starts_with_iff)
next
  case (Cons x xs)
  show ?case
  proof
    assume "contains (x # xs) frag"
    then show "\<exists>l r. x # xs = l @ frag @ r"
      using Cons starts_with_iff [of "x # xs" frag]
      by (metis append_Cons append_Nil contains.simps(2))
  next
    assume "\<exists>l r. x # xs = l @ frag @ r"
    then obtain l r where lr: "x # xs = l @ frag @ r" by blast
    show "contains (x # xs) frag"
    proof (cases l)
      case Nil
      with lr have "starts_with (x # xs) frag" by (simp add: starts_with_iff)
      then show ?thesis by simp
    next
      case (Cons a l')
      with lr have "xs = l' @ frag @ r" by simp
      then show ?thesis using Cons.IH \<open>contains xs frag = (\<exists>l r. xs = l @ frag @ r)\<close> by auto
    qed
  qed
qed

end
