(* ===== verification/Wire_Const.thy ===== *)
theory Wire_Const
  imports Sftp_Prelude
begin

text \<open>
  The numbers of SFTP version 3, from \<^verbatim>\<open>wire/const.go\<close>: packet types, status codes, open flags,
  attribute flags and file-type bits. A status is a \<^verbatim>\<open>uint32\<close> on the wire and may carry a code
  outside the nine of version 3, so it stays a word.
\<close>

type_synonym status = u32

definition Version :: u32 where
  [simp]: "Version = 3"

subsection \<open>Packet types\<close>

definition FxpInit :: byte where
  [simp]: "FxpInit = 1"

definition FxpVersion :: byte where
  [simp]: "FxpVersion = 2"

definition FxpOpen :: byte where
  [simp]: "FxpOpen = 3"

definition FxpClose :: byte where
  [simp]: "FxpClose = 4"

definition FxpRead :: byte where
  [simp]: "FxpRead = 5"

definition FxpWrite :: byte where
  [simp]: "FxpWrite = 6"

definition FxpLstat :: byte where
  [simp]: "FxpLstat = 7"

definition FxpFstat :: byte where
  [simp]: "FxpFstat = 8"

definition FxpSetstat :: byte where
  [simp]: "FxpSetstat = 9"

definition FxpFsetstat :: byte where
  [simp]: "FxpFsetstat = 10"

definition FxpOpendir :: byte where
  [simp]: "FxpOpendir = 11"

definition FxpReaddir :: byte where
  [simp]: "FxpReaddir = 12"

definition FxpRemove :: byte where
  [simp]: "FxpRemove = 13"

definition FxpMkdir :: byte where
  [simp]: "FxpMkdir = 14"

definition FxpRmdir :: byte where
  [simp]: "FxpRmdir = 15"

definition FxpRealpath :: byte where
  [simp]: "FxpRealpath = 16"

definition FxpStat :: byte where
  [simp]: "FxpStat = 17"

definition FxpRename :: byte where
  [simp]: "FxpRename = 18"

definition FxpReadlink :: byte where
  [simp]: "FxpReadlink = 19"

definition FxpSymlink :: byte where
  [simp]: "FxpSymlink = 20"

definition FxpStatus :: byte where
  [simp]: "FxpStatus = 101"

definition FxpHandle :: byte where
  [simp]: "FxpHandle = 102"

definition FxpData :: byte where
  [simp]: "FxpData = 103"

definition FxpName :: byte where
  [simp]: "FxpName = 104"

definition FxpAttrs :: byte where
  [simp]: "FxpAttrs = 105"

definition FxpExtended :: byte where
  [simp]: "FxpExtended = 200"

definition FxpExtendedReply :: byte where
  [simp]: "FxpExtendedReply = 201"

subsection \<open>Status codes\<close>

definition StatusOK :: status where
  [simp]: "StatusOK = 0"

definition StatusEOF :: status where
  [simp]: "StatusEOF = 1"

definition StatusNoSuchFile :: status where
  [simp]: "StatusNoSuchFile = 2"

definition StatusPermissionDenied :: status where
  [simp]: "StatusPermissionDenied = 3"

definition StatusFailure :: status where
  [simp]: "StatusFailure = 4"

definition StatusBadMessage :: status where
  [simp]: "StatusBadMessage = 5"

definition StatusNoConnection :: status where
  [simp]: "StatusNoConnection = 6"

definition StatusConnectionLost :: status where
  [simp]: "StatusConnectionLost = 7"

definition StatusOpUnsupported :: status where
  [simp]: "StatusOpUnsupported = 8"

definition Status_String :: "status \<Rightarrow> string" where
  "Status_String s =
     (if s = StatusOK then ''SSH_FX_OK''
      else if s = StatusEOF then ''SSH_FX_EOF''
      else if s = StatusNoSuchFile then ''SSH_FX_NO_SUCH_FILE''
      else if s = StatusPermissionDenied then ''SSH_FX_PERMISSION_DENIED''
      else if s = StatusFailure then ''SSH_FX_FAILURE''
      else if s = StatusBadMessage then ''SSH_FX_BAD_MESSAGE''
      else if s = StatusNoConnection then ''SSH_FX_NO_CONNECTION''
      else if s = StatusConnectionLost then ''SSH_FX_CONNECTION_LOST''
      else if s = StatusOpUnsupported then ''SSH_FX_OP_UNSUPPORTED''
      else ''SSH_FX_UNKNOWN'')"

subsection \<open>Open flags, attribute flags, file types\<close>

definition FxfRead :: u32 where
  [simp]: "FxfRead = 0x01"

definition FxfWrite :: u32 where
  [simp]: "FxfWrite = 0x02"

definition FxfAppend :: u32 where
  [simp]: "FxfAppend = 0x04"

definition FxfCreat :: u32 where
  [simp]: "FxfCreat = 0x08"

definition FxfTrunc :: u32 where
  [simp]: "FxfTrunc = 0x10"

definition FxfExcl :: u32 where
  [simp]: "FxfExcl = 0x20"

definition AttrSize :: u32 where
  [simp]: "AttrSize = 0x00000001"

definition AttrUIDGID :: u32 where
  [simp]: "AttrUIDGID = 0x00000002"

definition AttrPermissions :: u32 where
  [simp]: "AttrPermissions = 0x00000004"

definition AttrACModTime :: u32 where
  [simp]: "AttrACModTime = 0x00000008"

definition AttrExtended :: u32 where
  [simp]: "AttrExtended = 0x80000000"

definition ModeFmt :: u32 where
  [simp]: "ModeFmt = 0xf000"

definition ModeFifo :: u32 where
  [simp]: "ModeFifo = 0x1000"

definition ModeChar :: u32 where
  [simp]: "ModeChar = 0x2000"

definition ModeDir :: u32 where
  [simp]: "ModeDir = 0x4000"

definition ModeBlock :: u32 where
  [simp]: "ModeBlock = 0x6000"

definition ModeReg :: u32 where
  [simp]: "ModeReg = 0x8000"

definition ModeLink :: u32 where
  [simp]: "ModeLink = 0xa000"

definition ModeSock :: u32 where
  [simp]: "ModeSock = 0xc000"

definition ModePerm :: u32 where
  [simp]: "ModePerm = 0xfff"

end
