(* ===== verification/Driver_Errors.thy ===== *)
theory Driver_Errors
  imports Wire_Const
begin

text \<open>
  Driver errors and the status codes they become, \<^verbatim>\<open>errors.go\<close>. The server looks at an error in two
  ways only: its text, and which sentinels \<^verbatim>\<open>errors.Is\<close> finds in its chain. A Go \<^verbatim>\<open>error\<close> is an
  optional value of the record below; \<open>None\<close> is \<^verbatim>\<open>nil\<close>.
\<close>

datatype sentinel = fs_ErrNotExist | fs_ErrPermission | fs_ErrExist | fs_ErrInvalid | ErrShrinkUnsupported | io_EOF

record goerr =
  e_text :: string
  e_chain :: "sentinel list"

type_synonym error = "goerr option"

definition errors_Is :: "goerr \<Rightarrow> sentinel \<Rightarrow> bool" where
  "errors_Is err t \<longleftrightarrow> t \<in> set (e_chain err)"

definition new_error :: "string \<Rightarrow> goerr" where
  "new_error s = \<lparr>e_text = s, e_chain = []\<rparr>"

text \<open>
  \<^verbatim>\<open>strings.ToLower\<close>, as far as a search for an ASCII fragment can see: A to Z become lower case,
  and so do the two characters outside ASCII whose lower case is in ASCII, the Kelvin sign
  (\<^verbatim>\<open>e2 84 aa\<close>) and the capital I with a dot (\<^verbatim>\<open>c4 b0\<close>). Every other character outside ASCII
  maps to a character outside ASCII, so its bytes stay as they are here.
\<close>

definition lower_char :: "char \<Rightarrow> char" where
  "lower_char c = (if 65 \<le> (of_char c :: nat) \<and> (of_char c :: nat) \<le> 90 then char_of ((of_char c :: nat) + 32) else c)"

fun ToLower :: "string \<Rightarrow> string" where
  "ToLower (a # b # c # s) =
     (if a = CHR 0xE2 \<and> b = CHR 0x84 \<and> c = CHR 0xAA then CHR ''k'' # ToLower s
      else if a = CHR 0xC4 \<and> b = CHR 0xB0 then CHR ''i'' # ToLower (c # s)
      else lower_char a # ToLower (b # c # s))"
| "ToLower [a, b] = (if a = CHR 0xC4 \<and> b = CHR 0xB0 then ''i'' else [lower_char a, lower_char b])"
| "ToLower [a] = [lower_char a]"
| "ToLower [] = []"

definition substringStatus :: "(string \<times> status) list" where
  "substringStatus =
     [(''not found'', StatusNoSuchFile),
      (''no such'', StatusNoSuchFile),
      (''does not exist'', StatusNoSuchFile),
      (''not a directory'', StatusFailure),
      (''is a directory'', StatusFailure),
      (''not a regular file'', StatusFailure),
      (''not a symbolic link'', StatusFailure),
      (''not empty'', StatusFailure),
      (''read-only'', StatusPermissionDenied),
      (''permission'', StatusPermissionDenied),
      (''already exists'', StatusFailure),
      (''no space'', StatusFailure),
      (''not supported'', StatusOpUnsupported),
      (''unsupported'', StatusOpUnsupported)]"

definition statusFor :: "error \<Rightarrow> status \<Rightarrow> status" where
  "statusFor err fallback =
     (case err of
        None \<Rightarrow> StatusOK
      | Some e \<Rightarrow>
          if errors_Is e fs_ErrNotExist then StatusNoSuchFile
          else if errors_Is e fs_ErrPermission then StatusPermissionDenied
          else if errors_Is e fs_ErrExist \<or> errors_Is e fs_ErrInvalid then StatusFailure
          else if errors_Is e ErrShrinkUnsupported then StatusOpUnsupported
          else let low = ToLower (e_text e) in
            (case find (\<lambda>m. contains low (fst m)) substringStatus of
               Some m \<Rightarrow> snd m
             | None \<Rightarrow> fallback))"

definition errText :: "error \<Rightarrow> string" where
  "errText err =
     (case err of
        None \<Rightarrow> ''''
      | Some e \<Rightarrow> let s = e_text e in
          if length s > 512 then take 512 s @ [CHR 0xE2, CHR 0x80, CHR 0xA6] else s)"

lemma substringStatus_codes:
  "m \<in> set substringStatus \<Longrightarrow>
     snd m \<in> {StatusNoSuchFile, StatusFailure, StatusPermissionDenied, StatusOpUnsupported}"
  by (auto simp: substringStatus_def)

lemma statusFor_None [simp]: "statusFor None fallback = StatusOK"
  by (simp add: statusFor_def)

lemma statusFor_codes:
  "statusFor (Some e) fallback
     \<in> {StatusNoSuchFile, StatusFailure, StatusPermissionDenied, StatusOpUnsupported, fallback}"
proof -
  have "snd m \<in> {StatusNoSuchFile, StatusFailure, StatusPermissionDenied, StatusOpUnsupported}"
    if "find P substringStatus = Some m" for P m
    using that by (intro substringStatus_codes) (auto simp: find_Some_iff)
  from this [of "\<lambda>m. contains (ToLower (e_text e)) (fst m)"] show ?thesis
    by (cases "find (\<lambda>m. contains (ToLower (e_text e)) (fst m)) substringStatus")
      (auto simp: statusFor_def)
qed

lemma statusFor_NotExist: "errors_Is e fs_ErrNotExist \<Longrightarrow> statusFor (Some e) fallback = StatusNoSuchFile"
  by (simp add: statusFor_def)

lemma take_errText: "take 512 (errText (Some e)) = take 512 (e_text e)"
  by (simp add: errText_def Let_def)

lemma statusFor_ok_iff: "fallback \<noteq> StatusOK \<Longrightarrow> statusFor err fallback = StatusOK \<longleftrightarrow> err = None"
  using statusFor_codes [of "the err" fallback] by (cases err) auto

lemma length_errText: "length (errText err) \<le> 515"
  by (auto simp: errText_def Let_def split: option.split)



end
