(* ===== verification/Driver.thy ===== *)
theory Driver
  imports Driver_Errors "HOL-Library.State_Monad"
begin

text \<open>
  The filesystem interface the server is written against and the state every operation of a session
  works on. The driver is code outside the repository, so it is a record of functions over a state
  \<^typ>\<open>'w\<close> of its own, the world outside the server; the theorems quantify over it. Its optional
  capabilities, which the source probes with type assertions, are options. A session's state holds the
  world, the handle table and a trace of what the session asked of the driver and of the filesystem
  lock; no operation reads the trace.
\<close>

subsection \<open>The interface module\<close>

record Stat =
  fi_Mode :: u16
  fi_Size :: u64
  fi_ModTime :: "i64 option"

record DirEntry =
  de_Name :: string

text \<open>
  An open file is a reference into the world. \<open>fl_Writable\<close> says whether the value the driver
  returned also has the methods of \<^verbatim>\<open>WritableFile\<close>.
\<close>

record File =
  fl_Ref :: nat
  fl_Writable :: bool

record 'w MetadataSetter =
  ms_Chmod :: "string \<Rightarrow> u32 \<Rightarrow> 'w \<Rightarrow> error \<times> 'w"
  ms_Chown :: "string \<Rightarrow> u32 \<Rightarrow> u32 \<Rightarrow> 'w \<Rightarrow> error \<times> 'w"
  ms_Chtimes :: "string \<Rightarrow> int \<Rightarrow> int \<Rightarrow> 'w \<Rightarrow> error \<times> 'w"

text \<open>
  \<open>F_ReadAt f n off\<close> is \<^verbatim>\<open>f.ReadAt(buf, off)\<close> for a buffer of \<open>n\<close> bytes: the count and the error it
  returns and the bytes it put at the start of the buffer.
\<close>

record 'w Filesystem =
  F_Stat :: "string \<Rightarrow> 'w \<Rightarrow> (Stat option \<times> error) \<times> 'w"
  F_ReadFile :: "string \<Rightarrow> 'w \<Rightarrow> (bytes \<times> error) \<times> 'w"
  F_ListDir :: "string \<Rightarrow> 'w \<Rightarrow> (DirEntry list \<times> error) \<times> 'w"
  F_ReadLink :: "string \<Rightarrow> 'w \<Rightarrow> (string \<times> error) \<times> 'w"
  F_WriteFile :: "string \<Rightarrow> bytes \<Rightarrow> u32 \<Rightarrow> 'w \<Rightarrow> error \<times> 'w"
  F_MkDir :: "string \<Rightarrow> u32 \<Rightarrow> 'w \<Rightarrow> error \<times> 'w"
  F_DeleteFile :: "string \<Rightarrow> 'w \<Rightarrow> error \<times> 'w"
  F_DeleteDir :: "string \<Rightarrow> 'w \<Rightarrow> error \<times> 'w"
  F_Rename :: "string \<Rightarrow> string \<Rightarrow> 'w \<Rightarrow> error \<times> 'w"
  F_Symlinker :: "(string \<Rightarrow> string \<Rightarrow> 'w \<Rightarrow> error \<times> 'w) option"
  F_Truncater :: "(string \<Rightarrow> i64 \<Rightarrow> 'w \<Rightarrow> error \<times> 'w) option"
  F_MetadataSetter :: "'w MetadataSetter option"
  F_Opener :: "(string \<Rightarrow> 'w \<Rightarrow> (File option \<times> error) \<times> 'w) option"
  F_Size :: "File \<Rightarrow> 'w \<Rightarrow> i64 \<times> 'w"
  F_ReadAt :: "File \<Rightarrow> nat \<Rightarrow> i64 \<Rightarrow> 'w \<Rightarrow> (int \<times> bytes \<times> error) \<times> 'w"
  F_WriteAt :: "File \<Rightarrow> bytes \<Rightarrow> i64 \<Rightarrow> 'w \<Rightarrow> (int \<times> error) \<times> 'w"
  F_FileTruncate :: "File \<Rightarrow> i64 \<Rightarrow> 'w \<Rightarrow> error \<times> 'w"
  F_Sync :: "File \<Rightarrow> 'w \<Rightarrow> error \<times> 'w"
  F_Close :: "File \<Rightarrow> 'w \<Rightarrow> error \<times> 'w"

text \<open>
  What else the session uses of the outside: the random source of \<^verbatim>\<open>handle.go\<close> and
  \<^verbatim>\<open>hostcopy.Range(dst, src, dstOff, srcOff, n)\<close>.
\<close>

record 'w Env =
  E_randRead :: "'w \<Rightarrow> (bytes \<times> error) \<times> 'w"
  E_Range :: "File \<Rightarrow> File \<Rightarrow> i64 \<Rightarrow> i64 \<Rightarrow> i64 \<Rightarrow> 'w \<Rightarrow> (i64 \<times> error) \<times> 'w"

subsection \<open>The trace\<close>

datatype event =
    EvLock | EvUnlock | EvLockPath | EvUnlockPath | EvLockIO | EvUnlockIO
  | EvStat string | EvReadFile string | EvListDir string | EvReadLink string
  | EvWriteFile string bytes u32 | EvMkDir string u32 | EvDeleteFile string | EvDeleteDir string
  | EvRename string string | EvSymlink string string
  | EvTruncate string i64 | EvChmod string u32 | EvChown string u32 u32 | EvChtimes string int int
  | EvOpenFile string "File option"
  | EvSize File | EvReadAt File nat i64 | EvWriteAt File bytes i64 | EvFileTruncate File i64
  | EvSync File | EvClose File | EvRange File File i64 i64 i64
  | EvRand "string option"

subsection \<open>Session state\<close>

record openFile =
  of_path :: string
  of_dir :: bool
  of_entries :: "DirEntry list"
  of_pos :: nat
  of_file :: "File option"
  of_writable :: "File option"
  of_write :: bool

type_synonym handle_table = "(string \<times> openFile) list"

record 'w sess =
  se_world :: 'w
  se_handles :: handle_table
  se_trace :: "event list"

type_synonym ('w, 'a) act = "('w sess, 'a) state"

abbreviation ret :: "'a \<Rightarrow> ('w, 'a) act" where
  "ret \<equiv> State_Monad.return"

text \<open>A call of the outside world, and an event without one (taking or releasing a lock).\<close>

definition call :: "('w \<Rightarrow> 'a \<times> 'w) \<Rightarrow> ('a \<Rightarrow> event) \<Rightarrow> ('w, 'a) act" where
  "call f ev = State (\<lambda>s. case f (se_world s) of (a, w) \<Rightarrow>
     (a, s\<lparr>se_world := w, se_trace := se_trace s @ [ev a]\<rparr>))"

definition emit :: "event \<Rightarrow> ('w, unit) act" where
  "emit ev = State (\<lambda>s. ((), s\<lparr>se_trace := se_trace s @ [ev]\<rparr>))"

definition the_handles :: "('w, handle_table) act" where
  "the_handles = State (\<lambda>s. (se_handles s, s))"

definition set_handles :: "handle_table \<Rightarrow> ('w, unit) act" where
  "set_handles t = State (\<lambda>s. ((), s\<lparr>se_handles := t\<rparr>))"

lemma run_call [simp]:
  "run_state (call f ev) s = (let (a, w) = f (se_world s) in
     (a, s\<lparr>se_world := w, se_trace := se_trace s @ [ev a]\<rparr>))"
  by (simp add: call_def)

lemma run_emit [simp]: "run_state (emit ev) s = ((), s\<lparr>se_trace := se_trace s @ [ev]\<rparr>)"
  by (simp add: emit_def)

lemma run_handles [simp]:
  "run_state the_handles s = (se_handles s, s)"
  "run_state (set_handles t) s = ((), s\<lparr>se_handles := t\<rparr>)"
  by (simp_all add: the_handles_def set_handles_def)

subsection \<open>Reasoning about actions\<close>

text \<open>
  \<open>triple P m Q\<close>: started in a state that satisfies \<open>P\<close>, the action ends with a result and a state
  that satisfy \<open>Q\<close>. Every action is total, so this is total correctness.
\<close>

definition triple :: "('w sess \<Rightarrow> bool) \<Rightarrow> ('w, 'a) act \<Rightarrow> ('a \<Rightarrow> 'w sess \<Rightarrow> bool) \<Rightarrow> bool" where
  "triple P m Q \<longleftrightarrow> (\<forall>s. P s \<longrightarrow> (case run_state m s of (a, s') \<Rightarrow> Q a s'))"

lemma tripleI: "(\<And>s a s'. P s \<Longrightarrow> run_state m s = (a, s') \<Longrightarrow> Q a s') \<Longrightarrow> triple P m Q"
  by (auto simp: triple_def)

lemma tripleD: "triple P m Q \<Longrightarrow> P s \<Longrightarrow> run_state m s = (a, s') \<Longrightarrow> Q a s'"
  by (auto simp: triple_def)

lemma triple_bind:
  assumes "triple P m R" "\<And>a. triple (R a) (f a) Q"
  shows "triple P (m \<bind> f) Q"
  using assms by (fastforce simp: triple_def split: prod.splits)

lemma triple_conseq:
  assumes "triple P' m Q'" "\<And>s. P s \<Longrightarrow> P' s" "\<And>a s. Q' a s \<Longrightarrow> Q a s"
  shows "triple P m Q"
  using assms by (fastforce simp: triple_def)

text \<open>
  An action \<open>keeps\<close> an assertion when every state it reaches from one satisfying it satisfies it
  again. Most of what the session promises is of this shape.
\<close>

definition keeps :: "('w sess \<Rightarrow> bool) \<Rightarrow> ('w, 'a) act \<Rightarrow> bool" where
  "keeps P m \<longleftrightarrow> triple P m (\<lambda>_. P)"

lemma keepsI: "(\<And>s a s'. P s \<Longrightarrow> run_state m s = (a, s') \<Longrightarrow> P s') \<Longrightarrow> keeps P m"
  by (auto simp: keeps_def intro: tripleI)

lemma keepsD: "keeps P m \<Longrightarrow> P s \<Longrightarrow> P (snd (run_state m s))"
  by (cases "run_state m s") (auto simp: keeps_def triple_def)

named_theorems keeps_intros

lemma keeps_ret [keeps_intros]: "keeps P (ret x)"
  by (auto intro: keepsI)

lemma keeps_bind: "keeps P m \<Longrightarrow> (\<And>a. keeps P (f a)) \<Longrightarrow> keeps P (m \<bind> f)"
  unfolding keeps_def by (rule triple_bind)

lemma keeps_if [keeps_intros]: "(b \<Longrightarrow> keeps P m) \<Longrightarrow> (\<not> b \<Longrightarrow> keeps P n) \<Longrightarrow> keeps P (if b then m else n)"
  by simp

lemma keeps_option [keeps_intros]:
  "(x = None \<Longrightarrow> keeps P m) \<Longrightarrow> (\<And>a. x = Some a \<Longrightarrow> keeps P (f a)) \<Longrightarrow>
     keeps P (case x of None \<Rightarrow> m | Some a \<Rightarrow> f a)"
  by (cases x) auto

lemma keeps_sum [keeps_intros]:
  "(\<And>a. x = Inl a \<Longrightarrow> keeps P (f a)) \<Longrightarrow> (\<And>b. x = Inr b \<Longrightarrow> keeps P (g b)) \<Longrightarrow>
     keeps P (case x of Inl a \<Rightarrow> f a | Inr b \<Rightarrow> g b)"
  by (cases x) auto

lemma keeps_prod [keeps_intros]: "(\<And>a b. x = (a, b) \<Longrightarrow> keeps P (f a b)) \<Longrightarrow> keeps P (case x of (a, b) \<Rightarrow> f a b)"
  by (cases x) auto

lemma keeps_let [keeps_intros]: "(\<And>x. x = a \<Longrightarrow> keeps P (f x)) \<Longrightarrow> keeps P (let x = a in f x)"
  by simp

end
