(* ===== verification/MemFS.thy ===== *)
theory MemFS
  imports Driver "HOL-Library.AList" "HOL-Library.List_Lexorder" "HOL-Library.Char_ord"
begin

text \<open>
  The in-memory driver the repository's tests run the server against, \<^verbatim>\<open>memfs_test.go\<close>. It is a
  concrete instance of the filesystem interface, with and without the optional capabilities, at which the
  properties of the server are evaluated. The nodes are pointers in the source, and an open file keeps its
  node when the name goes away, so names map to addresses in a heap of nodes; a \<open>File\<close> is an index
  into the list of files opened so far.
\<close>

record memNode =
  mn_mode :: u16
  mn_data :: bytes
  mn_target :: string
  mn_inode :: u64

record memFile =
  mf_path :: string
  mf_node :: nat
  mf_closed :: bool

record memFS =
  m_nodes :: "(string \<times> nat) list"
  m_heap :: "memNode list"
  m_fail :: "(string \<times> error) list"
  m_nilStat :: string
  m_files :: "memFile list"
  m_rand :: "bytes list"

definition ErrNotExist :: goerr where
  "ErrNotExist = \<lparr>e_text = ''file does not exist'', e_chain = [fs_ErrNotExist]\<rparr>"

definition ErrEOF :: goerr where
  "ErrEOF = \<lparr>e_text = ''EOF'', e_chain = [io_EOF]\<rparr>"

text \<open>A new node gets the next address and the inode number the source computes.\<close>

definition add_node :: "string \<Rightarrow> u16 \<Rightarrow> bytes \<Rightarrow> string \<Rightarrow> memFS \<Rightarrow> memFS" where
  "add_node path mode data target m =
     m\<lparr>m_heap := m_heap m @ [\<lparr>mn_mode = mode, mn_data = data, mn_target = target,
          mn_inode = word_of_nat (length (m_nodes m) + 1)\<rparr>],
       m_nodes := AList.update path (length (m_heap m)) (m_nodes m)\<rparr>"

definition upd_node :: "nat \<Rightarrow> (memNode \<Rightarrow> memNode) \<Rightarrow> memFS \<Rightarrow> memFS" where
  "upd_node a f m = m\<lparr>m_heap := (m_heap m)[a := f (m_heap m ! a)]\<rparr>"

definition newMemFS :: memFS where
  "newMemFS = \<lparr>m_nodes = [(''/'', 0)],
     m_heap = [\<lparr>mn_mode = 0x41ED, mn_data = [], mn_target = '''', mn_inode = 1\<rparr>],
     m_fail = [], m_nilStat = '''', m_files = [], m_rand = []\<rparr>"

definition errFor :: "string \<Rightarrow> string \<Rightarrow> memFS \<Rightarrow> error" where
  "errFor meth path m =
     (case map_of (m_fail m) (meth @ '':'' @ path) of
        Some e \<Rightarrow> e
      | None \<Rightarrow> (case map_of (m_fail m) (meth @ '':*'') of Some e \<Rightarrow> e | None \<Rightarrow> None))"

definition addFile :: "string \<Rightarrow> bytes \<Rightarrow> u16 \<Rightarrow> memFS \<Rightarrow> memFS" where
  "addFile path data mode m = add_node path mode data '''' m"

definition addDir :: "string \<Rightarrow> memFS \<Rightarrow> memFS" where
  "addDir path m = add_node path 0x41ED [] '''' m"

definition addLink :: "string \<Rightarrow> string \<Rightarrow> memFS \<Rightarrow> memFS" where
  "addLink path target m = add_node path 0xA1FF [] target m"

subsection \<open>The base contract\<close>

definition mem_Stat :: "string \<Rightarrow> memFS \<Rightarrow> (Stat option \<times> error) \<times> memFS" where
  "mem_Stat path m =
     ((case errFor ''Stat'' path m of
         Some e \<Rightarrow> (None, Some e)
       | None \<Rightarrow>
           if path = m_nilStat m then (None, None)
           else (case map_of (m_nodes m) path of
                   None \<Rightarrow> (None, Some ErrNotExist)
                 | Some a \<Rightarrow> let n = m_heap m ! a in
                     (Some \<lparr>fi_Mode = mn_mode n, fi_Size = word_of_nat (length (mn_data n)),
                        fi_ModTime = None\<rparr>, None))), m)"

definition mem_ReadFile :: "string \<Rightarrow> memFS \<Rightarrow> (bytes \<times> error) \<times> memFS" where
  "mem_ReadFile path m =
     ((case errFor ''ReadFile'' path m of
         Some e \<Rightarrow> ([], Some e)
       | None \<Rightarrow>
           (case map_of (m_nodes m) path of
              None \<Rightarrow> ([], Some ErrNotExist)
            | Some a \<Rightarrow> (mn_data (m_heap m ! a), None))), m)"

definition mem_WriteFile :: "string \<Rightarrow> bytes \<Rightarrow> u32 \<Rightarrow> memFS \<Rightarrow> error \<times> memFS" where
  "mem_WriteFile path data perm m =
     (case errFor ''WriteFile'' path m of
        Some e \<Rightarrow> (Some e, m)
      | None \<Rightarrow>
          (case map_of (m_nodes m) path of
             Some a \<Rightarrow> (None, upd_node a (\<lambda>n. n\<lparr>mn_data := data\<rparr>) m)
           | None \<Rightarrow> (None, add_node path (0x8000 OR ucast (perm AND 0xFFF)) data '''' m)))"

definition mem_ListDir :: "string \<Rightarrow> memFS \<Rightarrow> (DirEntry list \<times> error) \<times> memFS" where
  "mem_ListDir path m =
     ((case errFor ''ListDir'' path m of
         Some e \<Rightarrow> ([], Some e)
       | None \<Rightarrow>
           (case map_of (m_nodes m) path of
              None \<Rightarrow> ([], Some ErrNotExist)
            | Some _ \<Rightarrow>
                let prefix = (if path = ''/'' then path else path @ ''/'');
                    inside = filter (\<lambda>p. p \<noteq> path \<and> starts_with p prefix
                      \<and> CHR ''/'' \<notin> set (drop (length prefix) p)) (map fst (m_nodes m));
                    names = sort (map (drop (length prefix)) inside)
                in (map (\<lambda>n. \<lparr>de_Name = n\<rparr>) names, None))), m)"

definition mem_ReadLink :: "string \<Rightarrow> memFS \<Rightarrow> (string \<times> error) \<times> memFS" where
  "mem_ReadLink path m =
     ((case errFor ''ReadLink'' path m of
         Some e \<Rightarrow> ('''', Some e)
       | None \<Rightarrow>
           (case map_of (m_nodes m) path of
              None \<Rightarrow> ('''', Some ErrNotExist)
            | Some a \<Rightarrow> let n = m_heap m ! a in
                if mn_mode n AND 0xF000 \<noteq> 0xA000 then ('''', Some (new_error ''not a symbolic link''))
                else (mn_target n, None))), m)"

definition mem_MkDir :: "string \<Rightarrow> u32 \<Rightarrow> memFS \<Rightarrow> error \<times> memFS" where
  "mem_MkDir path perm m =
     (case errFor ''MkDir'' path m of
        Some e \<Rightarrow> (Some e, m)
      | None \<Rightarrow>
          (case map_of (m_nodes m) path of
             Some _ \<Rightarrow> (Some (new_error ''already exists''), m)
           | None \<Rightarrow> (None, add_node path (0x4000 OR ucast (perm AND 0xFFF)) [] '''' m)))"

definition mem_DeleteFile :: "string \<Rightarrow> memFS \<Rightarrow> error \<times> memFS" where
  "mem_DeleteFile path m =
     (case errFor ''DeleteFile'' path m of
        Some e \<Rightarrow> (Some e, m)
      | None \<Rightarrow>
          (case map_of (m_nodes m) path of
             None \<Rightarrow> (Some ErrNotExist, m)
           | Some _ \<Rightarrow> (None, m\<lparr>m_nodes := AList.delete path (m_nodes m)\<rparr>)))"

definition mem_DeleteDir :: "string \<Rightarrow> memFS \<Rightarrow> error \<times> memFS" where
  "mem_DeleteDir path m =
     (case errFor ''DeleteDir'' path m of
        Some e \<Rightarrow> (Some e, m)
      | None \<Rightarrow> mem_DeleteFile path m)"

definition mem_Rename :: "string \<Rightarrow> string \<Rightarrow> memFS \<Rightarrow> error \<times> memFS" where
  "mem_Rename oldPath newPath m =
     (case errFor ''Rename'' oldPath m of
        Some e \<Rightarrow> (Some e, m)
      | None \<Rightarrow>
          (case map_of (m_nodes m) oldPath of
             None \<Rightarrow> (Some ErrNotExist, m)
           | Some a \<Rightarrow> (None, m\<lparr>m_nodes := AList.update newPath a (AList.delete oldPath (m_nodes m))\<rparr>)))"

subsection \<open>Optional capabilities\<close>

definition mem_Symlink :: "string \<Rightarrow> string \<Rightarrow> memFS \<Rightarrow> error \<times> memFS" where
  "mem_Symlink target linkPath m =
     (case errFor ''Symlink'' linkPath m of
        Some e \<Rightarrow> (Some e, m)
      | None \<Rightarrow> (None, add_node linkPath 0xA1FF [] target m))"

definition resize :: "nat \<Rightarrow> bytes \<Rightarrow> bytes" where
  "resize n data = (if n < length data then take n data else data @ replicate (n - length data) 0)"

definition mem_Truncate :: "string \<Rightarrow> i64 \<Rightarrow> memFS \<Rightarrow> error \<times> memFS" where
  "mem_Truncate path newSize m =
     (case errFor ''Truncate'' path m of
        Some e \<Rightarrow> (Some e, m)
      | None \<Rightarrow>
          (case map_of (m_nodes m) path of
             None \<Rightarrow> (Some ErrNotExist, m)
           | Some a \<Rightarrow>
               if sint newSize < 0 \<or> sint newSize > 2 ^ 26 then (Some (new_error ''memfs: size out of range''), m)
               else (None, upd_node a (\<lambda>n. n\<lparr>mn_data := resize (nat (sint newSize)) (mn_data n)\<rparr>) m)))"

definition meta_Chmod :: "string \<Rightarrow> u32 \<Rightarrow> memFS \<Rightarrow> error \<times> memFS" where
  "meta_Chmod path perm m =
     (case errFor ''Chmod'' path m of
        Some e \<Rightarrow> (Some e, m)
      | None \<Rightarrow>
          (case map_of (m_nodes m) path of
             None \<Rightarrow> (None, m)
           | Some a \<Rightarrow> (None, upd_node a (\<lambda>n. n\<lparr>mn_mode := mn_mode n AND 0xF000 OR ucast (perm AND 0xFFF)\<rparr>) m)))"

definition meta_Chown :: "string \<Rightarrow> u32 \<Rightarrow> u32 \<Rightarrow> memFS \<Rightarrow> error \<times> memFS" where
  "meta_Chown path uid gid m = (errFor ''Chown'' path m, m)"

definition meta_Chtimes :: "string \<Rightarrow> int \<Rightarrow> int \<Rightarrow> memFS \<Rightarrow> error \<times> memFS" where
  "meta_Chtimes path atime mtime m = (errFor ''Chtimes'' path m, m)"

subsection \<open>Open files\<close>

definition mem_OpenFile :: "bool \<Rightarrow> string \<Rightarrow> memFS \<Rightarrow> (File option \<times> error) \<times> memFS" where
  "mem_OpenFile writable path m =
     (case errFor ''OpenFile'' path m of
        Some e \<Rightarrow> ((None, Some e), m)
      | None \<Rightarrow>
          if \<not> writable \<and> path = ''/nilfile'' then ((None, None), m)
          else (case map_of (m_nodes m) path of
             None \<Rightarrow> ((None, Some ErrNotExist), m)
           | Some a \<Rightarrow> ((Some \<lparr>fl_Ref = length (m_files m), fl_Writable = writable\<rparr>, None),
               m\<lparr>m_files := m_files m @ [\<lparr>mf_path = path, mf_node = a, mf_closed = False\<rparr>]\<rparr>)))"

definition file_of :: "File \<Rightarrow> memFS \<Rightarrow> memFile" where
  "file_of f m = m_files m ! fl_Ref f"

definition mem_Size :: "File \<Rightarrow> memFS \<Rightarrow> i64 \<times> memFS" where
  "mem_Size f m = (word_of_nat (length (mn_data (m_heap m ! mf_node (file_of f m)))), m)"

definition mem_ReadAt :: "File \<Rightarrow> nat \<Rightarrow> i64 \<Rightarrow> memFS \<Rightarrow> (int \<times> bytes \<times> error) \<times> memFS" where
  "mem_ReadAt f n off m =
     ((case errFor ''ReadAt'' (mf_path (file_of f m)) m of
         Some e \<Rightarrow> (0, [], Some e)
       | None \<Rightarrow>
           if map_of (m_fail m) (''ReadAtNil:'' @ mf_path (file_of f m)) \<noteq> None then (0, [], None)
           else let data = mn_data (m_heap m ! mf_node (file_of f m)) in
             if sint off \<ge> int (length data) then (0, [], Some ErrEOF)
             else let got = take n (drop (nat (sint off)) data) in
               (int (length got), got, if length got < n then Some ErrEOF else None)), m)"

definition mem_Close :: "File \<Rightarrow> memFS \<Rightarrow> error \<times> memFS" where
  "mem_Close f m =
     (errFor ''FileClose'' (mf_path (file_of f m)) m,
      m\<lparr>m_files := (m_files m)[fl_Ref f := (file_of f m)\<lparr>mf_closed := True\<rparr>]\<rparr>)"

definition mem_WriteAt :: "File \<Rightarrow> bytes \<Rightarrow> i64 \<Rightarrow> memFS \<Rightarrow> (int \<times> error) \<times> memFS" where
  "mem_WriteAt f p off m =
     (case errFor ''WriteAt'' (mf_path (file_of f m)) m of
        Some e \<Rightarrow> ((0, Some e), m)
      | None \<Rightarrow>
          let end = off + word_of_nat (length p) in
          if sint off < 0 \<or> sint end < sint off \<or> sint end > 2 ^ 26
          then ((0, Some (new_error ''memfs: write out of range'')), m)
          else ((int (length p), None),
            upd_node (mf_node (file_of f m)) (\<lambda>n.
              let data = (if nat (sint end) > length (mn_data n) then resize (nat (sint end)) (mn_data n) else mn_data n);
                  o' = nat (sint off)
              in n\<lparr>mn_data := take o' data @ overlay p (drop o' data)\<rparr>) m))"

definition mem_FileTruncate :: "File \<Rightarrow> i64 \<Rightarrow> memFS \<Rightarrow> error \<times> memFS" where
  "mem_FileTruncate f sz m = mem_Truncate (mf_path (file_of f m)) sz m"

definition mem_Sync :: "File \<Rightarrow> memFS \<Rightarrow> error \<times> memFS" where
  "mem_Sync f m = (errFor ''Sync'' (mf_path (file_of f m)) m, m)"

subsection \<open>The fixtures\<close>

definition bareFS :: "memFS Filesystem" where
  "bareFS = \<lparr>F_Stat = mem_Stat, F_ReadFile = mem_ReadFile, F_ListDir = mem_ListDir, F_ReadLink = mem_ReadLink,
     F_WriteFile = mem_WriteFile, F_MkDir = mem_MkDir, F_DeleteFile = mem_DeleteFile,
     F_DeleteDir = mem_DeleteDir, F_Rename = mem_Rename, F_Symlinker = None, F_Truncater = None,
     F_MetadataSetter = None, F_Opener = None, F_Size = mem_Size, F_ReadAt = mem_ReadAt,
     F_WriteAt = mem_WriteAt, F_FileTruncate = mem_FileTruncate, F_Sync = mem_Sync, F_Close = mem_Close\<rparr>"

definition memFS_fs :: "memFS Filesystem" where
  "memFS_fs = bareFS\<lparr>F_Symlinker := Some mem_Symlink, F_Truncater := Some mem_Truncate\<rparr>"

definition metaFS :: "memFS Filesystem" where
  "metaFS = memFS_fs\<lparr>F_MetadataSetter :=
     Some \<lparr>ms_Chmod = meta_Chmod, ms_Chown = meta_Chown, ms_Chtimes = meta_Chtimes\<rparr>\<rparr>"

definition openerFS :: "memFS Filesystem" where
  "openerFS = memFS_fs\<lparr>F_Opener := Some (mem_OpenFile False)\<rparr>"

definition writableFS :: "memFS Filesystem" where
  "writableFS = memFS_fs\<lparr>F_Opener := Some (mem_OpenFile True)\<rparr>"

text \<open>
  A random source that hands out the listed values and then fails, as the tests substitute one for
  \<^verbatim>\<open>randRead\<close>, and a \<^verbatim>\<open>hostcopy.Range\<close> that reads the range and writes it.
\<close>

definition mem_randRead :: "memFS \<Rightarrow> (bytes \<times> error) \<times> memFS" where
  "mem_randRead m = (case m_rand m of [] \<Rightarrow> (([], Some (new_error ''no randomness'')), m)
     | b # bs \<Rightarrow> ((b, None), m\<lparr>m_rand := bs\<rparr>))"

definition mem_Range :: "File \<Rightarrow> File \<Rightarrow> i64 \<Rightarrow> i64 \<Rightarrow> i64 \<Rightarrow> memFS \<Rightarrow> (i64 \<times> error) \<times> memFS" where
  "mem_Range dst src dstOff srcOff n m =
     (case mem_ReadAt src (nat (sint n)) srcOff m of ((got, b, _), m) \<Rightarrow>
        (case mem_WriteAt dst b dstOff m of ((put, e), m) \<Rightarrow> ((word_of_int put, e), m)))"

definition memEnv :: "memFS Env" where
  "memEnv = \<lparr>E_randRead = mem_randRead, E_Range = mem_Range\<rparr>"

end
