(* ===== verification/Wire_Codec.thy ===== *)
theory Wire_Codec
  imports Wire_Const
begin

text \<open>
  The SSH binary encoding of \<^verbatim>\<open>wire/codec.go\<close>. An \<^verbatim>\<open>Encoder\<close> is its buffer, to which every
  method appends. A \<^verbatim>\<open>Decoder\<close> is the buffer, the offset and the limit; every method returns its
  value or an error together with the decoder it leaves behind. \<open>RuntimePanic\<close> is the outcome of an
  index or a slice out of range: it is a value of the error type so that its absence is a theorem.

  The locale \<open>codec\<close> is the contract between an encoding and its decoder that every message is
  built from; it is interpreted on each of the source's own encode and decode functions.
\<close>

datatype werr = ErrShort | ErrLimit | ErrTrailing | RuntimePanic

definition DefaultLimit :: int where
  [simp]: "DefaultLimit = 262144"

subsection \<open>Encoder\<close>

type_synonym Encoder = bytes

definition NewEncoder :: "bytes \<Rightarrow> Encoder" where
  "NewEncoder buf = []"

definition Encoder_Bytes :: "Encoder \<Rightarrow> bytes" where
  "Encoder_Bytes e = e"

definition Encoder_Len :: "Encoder \<Rightarrow> nat" where
  "Encoder_Len e = length e"

definition Encoder_Byte :: "byte \<Rightarrow> Encoder \<Rightarrow> Encoder" where
  "Encoder_Byte v e = e @ [v]"

definition Encoder_Uint32 :: "u32 \<Rightarrow> Encoder \<Rightarrow> Encoder" where
  "Encoder_Uint32 v e = e @ be_bytes 4 v"

definition Encoder_Uint64 :: "u64 \<Rightarrow> Encoder \<Rightarrow> Encoder" where
  "Encoder_Uint64 v e = e @ be_bytes 8 v"

definition Encoder_Int64 :: "i64 \<Rightarrow> Encoder \<Rightarrow> Encoder" where
  "Encoder_Int64 v e = Encoder_Uint64 v e"

definition Encoder_Blob :: "bytes \<Rightarrow> Encoder \<Rightarrow> Encoder" where
  "Encoder_Blob b e = Encoder_Uint32 (word_of_nat (length b)) e @ b"

definition Encoder_String :: "string \<Rightarrow> Encoder \<Rightarrow> Encoder" where
  "Encoder_String s e = Encoder_Uint32 (word_of_nat (length s)) e @ bytes_of s"

subsection \<open>Decoder\<close>

record Decoder =
  d_buf :: bytes
  d_off :: nat
  d_limit :: int

type_synonym 'a dec = "Decoder \<Rightarrow> (werr + 'a) \<times> Decoder"

definition NewDecoder :: "bytes \<Rightarrow> Decoder" where
  "NewDecoder buf = \<lparr>d_buf = buf, d_off = 0, d_limit = 0\<rparr>"

definition Decoder_SetLimit :: "int \<Rightarrow> Decoder \<Rightarrow> Decoder" where
  "Decoder_SetLimit n d = d\<lparr>d_limit := n\<rparr>"

definition Decoder_cap :: "Decoder \<Rightarrow> int" where
  "Decoder_cap d = (if d_limit d \<le> 0 then DefaultLimit else d_limit d)"

definition Decoder_Remaining :: "Decoder \<Rightarrow> int" where
  "Decoder_Remaining d = int (length (d_buf d)) - int (d_off d)"

definition Decoder_End :: "Decoder \<Rightarrow> werr option" where
  "Decoder_End d = (if Decoder_Remaining d \<noteq> 0 then Some ErrTrailing else None)"

text \<open>
  The error-checking sequence \<^verbatim>\<open>x, err := m(d); if err != nil { return err }\<close> is \<open>dbind\<close>, a
  successful return is \<open>dret\<close>, and the closing \<^verbatim>\<open>return m, d.End()\<close> of the message decoders is
  \<open>dend\<close>. On an error the source returns a partly filled value too, which no caller reads.
\<close>

definition dret :: "'a \<Rightarrow> 'a dec" where
  "dret x d = (Inr x, d)"

definition dfail :: "werr \<Rightarrow> 'a dec" where
  "dfail e d = (Inl e, d)"

definition dbind :: "'a dec \<Rightarrow> ('a \<Rightarrow> 'b dec) \<Rightarrow> 'b dec" where
  "dbind m f d = (case m d of (Inl e, d') \<Rightarrow> (Inl e, d') | (Inr x, d') \<Rightarrow> f x d')"

definition dend :: "'a \<Rightarrow> 'a dec" where
  "dend x d = (case Decoder_End d of Some e \<Rightarrow> (Inl e, d) | None \<Rightarrow> (Inr x, d))"

definition Decoder_Byte :: "byte dec" where
  "Decoder_Byte d =
     (if Decoder_Remaining d < 1 then (Inl ErrShort, d)
      else (case index (d_buf d) (d_off d) of
              None \<Rightarrow> (Inl RuntimePanic, d)
            | Some v \<Rightarrow> (Inr v, d\<lparr>d_off := d_off d + 1\<rparr>)))"

definition Decoder_Uint32 :: "u32 dec" where
  "Decoder_Uint32 d =
     (if Decoder_Remaining d < 4 then (Inl ErrShort, d)
      else (case slice (d_off d) (d_off d + 4) (d_buf d) of
              None \<Rightarrow> (Inl RuntimePanic, d)
            | Some b \<Rightarrow> (Inr (be_val b), d\<lparr>d_off := d_off d + 4\<rparr>)))"

definition Decoder_Uint64 :: "u64 dec" where
  "Decoder_Uint64 d =
     (if Decoder_Remaining d < 8 then (Inl ErrShort, d)
      else (case slice (d_off d) (d_off d + 8) (d_buf d) of
              None \<Rightarrow> (Inl RuntimePanic, d)
            | Some b \<Rightarrow> (Inr (be_val b), d\<lparr>d_off := d_off d + 8\<rparr>)))"

definition Decoder_Int64 :: "i64 dec" where
  "Decoder_Int64 = Decoder_Uint64"

definition Decoder_Blob :: "bytes dec" where
  "Decoder_Blob =
     dbind Decoder_Uint32 (\<lambda>n d.
       if int (unat n) > Decoder_cap d then (Inl ErrLimit, d)
       else if Decoder_Remaining d < int (unat n) then (Inl ErrShort, d)
       else (case slice (d_off d) (d_off d + unat n) (d_buf d) of
               None \<Rightarrow> (Inl RuntimePanic, d)
             | Some out \<Rightarrow> (Inr out, d\<lparr>d_off := d_off d + unat n\<rparr>)))"

definition Decoder_String :: "string dec" where
  "Decoder_String = dbind Decoder_Blob (\<lambda>b. dret (string_of b))"

text \<open>The loops \<^verbatim>\<open>for range n { x, err := item(); ...; acc = append(acc, x) }\<close>.\<close>

primrec for_range :: "nat \<Rightarrow> 'a dec \<Rightarrow> 'a list \<Rightarrow> 'a list dec" where
  "for_range 0 item acc = dret acc"
| "for_range (Suc n) item acc = dbind item (\<lambda>x. for_range n item (acc @ [x]))"

subsection \<open>Decoders at a position\<close>

text \<open>
  \<open>dec_at pre xs l\<close> is a decoder that has read \<open>pre\<close> and has \<open>xs\<close> before it. Every decoder
  whose offset lies inside its buffer has this form.
\<close>

definition dec_at :: "bytes \<Rightarrow> bytes \<Rightarrow> int \<Rightarrow> Decoder" where
  "dec_at pre xs l = \<lparr>d_buf = pre @ xs, d_off = length pre, d_limit = l\<rparr>"

definition cap_of :: "int \<Rightarrow> nat" where
  "cap_of l = nat (if l \<le> 0 then DefaultLimit else l)"

lemma NewDecoder_at: "NewDecoder b = dec_at [] b 0"
  by (simp add: NewDecoder_def dec_at_def)

lemma dec_at_cover: "d_off d \<le> length (d_buf d) \<Longrightarrow>
    d = dec_at (take (d_off d) (d_buf d)) (drop (d_off d) (d_buf d)) (d_limit d)"
  by (simp add: dec_at_def)

lemma dec_at_inject [simp]:
  "dec_at pre xs l = dec_at pre' xs' l' \<longleftrightarrow> pre = pre' \<and> xs = xs' \<and> l = l'"
  by (auto simp: dec_at_def append_eq_append_conv)

lemma Remaining_at [simp]: "Decoder_Remaining (dec_at pre xs l) = int (length xs)"
  by (simp add: Decoder_Remaining_def dec_at_def)

lemma cap_at [simp]: "Decoder_cap (dec_at pre xs l) = int (cap_of l)"
  by (simp add: Decoder_cap_def dec_at_def cap_of_def)

lemma cap_of_default [simp]: "cap_of 0 = 262144"
  by (simp add: cap_of_def)

lemma dend_at: "dend x (dec_at pre xs l) =
    (if xs = [] then (Inr x, dec_at pre [] l) else (Inl ErrTrailing, dec_at pre xs l))"
  by (simp add: dend_def Decoder_End_def)

lemma dend_at_Nil [wire_step]: "dend x (dec_at pre [] l) = (Inr x, dec_at pre [] l)"
  by (simp add: dend_at)

lemma dret_at [wire_step]: "dret x d = (Inr x, d)"
  by (simp add: dret_def)

lemma dbind_Inr: "m d = (Inr x, d') \<Longrightarrow> dbind m f d = f x d'"
  by (simp add: dbind_def)

lemma dbind_Inl: "m d = (Inl e, d') \<Longrightarrow> dbind m f d = (Inl e, d')"
  by (simp add: dbind_def)

lemma dbind_eq_InrE:
  assumes "dbind m f d = (Inr y, d'')"
  obtains x d' where "m d = (Inr x, d')" "f x d' = (Inr y, d'')"
  using assms by (auto simp: dbind_def split: prod.splits sum.splits)

lemma dbind_eq_InlE:
  assumes "dbind m f d = (Inl e, d'')"
  obtains "m d = (Inl e, d'')" | x d' where "m d = (Inr x, d')" "f x d' = (Inl e, d'')"
  using assms by (auto simp: dbind_def split: prod.splits sum.splits)

lemma dbind_assoc: "dbind (dbind m f) g = dbind m (\<lambda>x. dbind (f x) g)"
  by (rule ext) (auto simp: dbind_def split: prod.splits sum.splits)

lemma dbind_dret [simp]: "dbind (dret x) f = f x"
  by (rule ext) (simp add: dbind_def dret_def)

subsection \<open>The codec contract\<close>

text \<open>
  What one encoding promises: reading an encoded acceptable value gives it back and stops right
  after it (\<open>dec_enc\<close>); whatever is read successfully was its encoding, so every accepted byte
  sequence is canonical (\<open>enc_dec\<close>); a failure is one of the two codec errors, never a panic, and
  leaves the decoder inside its buffer (\<open>dec_err\<close>). \<open>ok\<close> is what the decoder accepts, given the
  limit on variable-length items.
\<close>

locale codec =
  fixes enc :: "'a \<Rightarrow> bytes" and dec :: "'a dec" and ok :: "nat \<Rightarrow> 'a \<Rightarrow> bool"
  assumes dec_enc: "ok (cap_of l) x \<Longrightarrow>
      dec (dec_at pre (enc x @ r) l) = (Inr x, dec_at (pre @ enc x) r l)"
    and enc_dec: "dec (dec_at pre xs l) = (Inr x, d') \<Longrightarrow>
      \<exists>r. xs = enc x @ r \<and> d' = dec_at (pre @ enc x) r l \<and> ok (cap_of l) x"
    and dec_err: "dec (dec_at pre xs l) = (Inl e, d') \<Longrightarrow>
      (e = ErrShort \<or> e = ErrLimit) \<and> (\<exists>pre' xs'. d' = dec_at pre' xs' l \<and> pre' @ xs' = pre @ xs)"
begin

lemma dec_enc_end:
  "ok (cap_of l) x \<Longrightarrow> dec (dec_at pre (enc x) l) = (Inr x, dec_at (pre @ enc x) [] l)"
  using dec_enc [where r = "[]"] by simp

lemma bind_enc:
  "ok (cap_of l) x \<Longrightarrow> dbind dec f (dec_at pre (enc x @ r) l) = f x (dec_at (pre @ enc x) r l)"
  by (rule dbind_Inr) (rule dec_enc)

lemma bind_enc_end:
  "ok (cap_of l) x \<Longrightarrow> dbind dec f (dec_at pre (enc x) l) = f x (dec_at (pre @ enc x) [] l)"
  by (rule dbind_Inr) (rule dec_enc_end)

lemma bind_InrE:
  assumes "dbind dec f (dec_at pre xs l) = (Inr y, d')"
  obtains x r where "xs = enc x @ r" "ok (cap_of l) x" "f x (dec_at (pre @ enc x) r l) = (Inr y, d')"
  using assms by (elim dbind_eq_InrE) (blast dest: enc_dec)

lemma bind_InlE:
  assumes "dbind dec f (dec_at pre xs l) = (Inl e, d')"
  obtains "e = ErrShort \<or> e = ErrLimit" "\<exists>pre' xs'. d' = dec_at pre' xs' l \<and> pre' @ xs' = pre @ xs"
  | x r where "xs = enc x @ r" "ok (cap_of l) x" "f x (dec_at (pre @ enc x) r l) = (Inl e, d')"
  using assms by (elim dbind_eq_InlE) (blast dest: enc_dec dec_err)+

text \<open>An encoding is prefix-free on the acceptable values, so what follows it cannot change it.\<close>

lemma prefix_free:
  assumes "ok (cap_of l) x" "ok (cap_of l) y" "enc x @ r = enc y @ s"
  shows "x = y \<and> r = s"
proof -
  have "dec (dec_at [] (enc y @ s) l) = (Inr x, dec_at ([] @ enc x) r l)"
    unfolding assms(3) [symmetric] by (rule dec_enc) (rule assms(1))
  moreover have "dec (dec_at [] (enc y @ s) l) = (Inr y, dec_at ([] @ enc y) s l)"
    by (rule dec_enc) (rule assms(2))
  ultimately show ?thesis by auto
qed

lemma for_range_enc:
  "list_all (ok (cap_of l)) xs \<Longrightarrow>
     for_range (length xs) dec acc (dec_at pre (concat (map enc xs) @ r) l)
       = (Inr (acc @ xs), dec_at (pre @ concat (map enc xs)) r l)"
  by (induction xs arbitrary: acc pre) (simp_all add: dret_at bind_enc)

lemma for_range_dec:
  "for_range n dec acc (dec_at pre bs l) = (Inr ys, d') \<Longrightarrow>
     \<exists>xs r. ys = acc @ xs \<and> length xs = n \<and> list_all (ok (cap_of l)) xs \<and>
       bs = concat (map enc xs) @ r \<and> d' = dec_at (pre @ concat (map enc xs)) r l"
proof (induction n arbitrary: acc pre bs)
  case 0
  then show ?case by (auto simp: dret_def)
next
  case (Suc n)
  from Suc.prems obtain x r where x: "bs = enc x @ r" "ok (cap_of l) x"
    and rest: "for_range n dec (acc @ [x]) (dec_at (pre @ enc x) r l) = (Inr ys, d')"
    by (auto elim: bind_InrE)
  from Suc.IH [OF rest] obtain xs r' where "ys = (acc @ [x]) @ xs" "length xs = n"
    "list_all (ok (cap_of l)) xs" "r = concat (map enc xs) @ r'"
    "d' = dec_at ((pre @ enc x) @ concat (map enc xs)) r' l"
    by blast
  with x show ?case by (intro exI [of _ "x # xs"]) auto
qed

lemma for_range_err:
  "for_range n dec acc (dec_at pre bs l) = (Inl e, d') \<Longrightarrow>
     (e = ErrShort \<or> e = ErrLimit) \<and> (\<exists>pre' xs'. d' = dec_at pre' xs' l \<and> pre' @ xs' = pre @ bs)"
proof (induction n arbitrary: acc pre bs)
  case 0
  then show ?case by (auto simp: dret_def)
next
  case (Suc n)
  from Suc.prems show ?case
  proof (simp, elim bind_InlE)
    fix x r
    assume "bs = enc x @ r" "for_range n dec (acc @ [x]) (dec_at (pre @ enc x) r l) = (Inl e, d')"
    with Suc.IH [OF this(2)] show ?thesis by simp
  qed simp
qed

end

subsection \<open>The primitive codecs\<close>

text \<open>What each encoder method writes, and that it only appends.\<close>

definition enc_u32 :: "u32 \<Rightarrow> bytes" where
  "enc_u32 v = Encoder_Uint32 v (NewEncoder [])"

definition enc_u64 :: "u64 \<Rightarrow> bytes" where
  "enc_u64 v = Encoder_Uint64 v (NewEncoder [])"

definition enc_blob :: "bytes \<Rightarrow> bytes" where
  "enc_blob b = Encoder_Blob b (NewEncoder [])"

definition enc_str :: "string \<Rightarrow> bytes" where
  "enc_str s = Encoder_String s (NewEncoder [])"

definition blob_ok :: "nat \<Rightarrow> 'a list \<Rightarrow> bool" where
  "blob_ok c b \<longleftrightarrow> length b \<le> c \<and> length b < 2 ^ 32"

lemma enc_u32_eq: "enc_u32 v = be_bytes 4 v"
  by (simp add: enc_u32_def Encoder_Uint32_def NewEncoder_def)

lemma enc_u64_eq: "enc_u64 v = be_bytes 8 v"
  by (simp add: enc_u64_def Encoder_Uint64_def NewEncoder_def)

lemma enc_blob_eq: "enc_blob b = enc_u32 (word_of_nat (length b)) @ b"
  by (simp add: enc_blob_def Encoder_Blob_def enc_u32_def)

lemma enc_str_eq: "enc_str s = enc_blob (bytes_of s)"
  by (simp add: enc_str_def enc_blob_def Encoder_Blob_def Encoder_String_def)

lemma Encoder_appends [simp]:
  "Encoder_Byte v e = e @ [v]"
  "Encoder_Uint32 w e = e @ enc_u32 w"
  "Encoder_Uint64 x e = e @ enc_u64 x"
  "Encoder_Blob b e = e @ enc_blob b"
  "Encoder_String s e = e @ enc_str s"
  by (simp_all add: Encoder_Byte_def Encoder_Uint32_def Encoder_Uint64_def Encoder_Blob_def
      Encoder_String_def enc_u32_eq enc_u64_eq enc_blob_eq enc_str_eq)

lemma length_enc [simp]:
  "length (enc_u32 w) = 4" "length (enc_u64 x) = 8"
  "length (enc_blob b) = 4 + length b" "length (enc_str s) = 4 + length s"
  by (simp_all add: enc_u32_eq enc_u64_eq enc_blob_eq enc_str_eq)

lemma enc_nonempty [simp]:
  "enc_u32 w \<noteq> []" "enc_u64 x \<noteq> []" "enc_blob b \<noteq> []" "enc_str s \<noteq> []"
  by (simp_all flip: length_0_conv)

lemma slice_at: "slice (length pre) (length pre + n) (pre @ xs)
    = (if n \<le> length xs then Some (take n xs) else None)"
  by (simp add: slice_def)

lemma Decoder_Uint32_at:
  "Decoder_Uint32 (dec_at pre xs l) =
     (if length xs < 4 then (Inl ErrShort, dec_at pre xs l)
      else (Inr (be_val (take 4 xs)), dec_at (pre @ take 4 xs) (drop 4 xs) l))"
  by (simp add: Decoder_Uint32_def) (simp add: dec_at_def slice_at)

lemma Decoder_Uint64_at:
  "Decoder_Uint64 (dec_at pre xs l) =
     (if length xs < 8 then (Inl ErrShort, dec_at pre xs l)
      else (Inr (be_val (take 8 xs)), dec_at (pre @ take 8 xs) (drop 8 xs) l))"
  by (simp add: Decoder_Uint64_def) (simp add: dec_at_def slice_at)

interpretation u32: codec enc_u32 Decoder_Uint32 "\<lambda>_ _. True"
proof unfold_locales
  fix pre xs :: bytes and l x d'
  assume "Decoder_Uint32 (dec_at pre xs l) = (Inr x, d')"
  then show "\<exists>r. xs = enc_u32 x @ r \<and> d' = dec_at (pre @ enc_u32 x) r l \<and> True"
    by (intro exI [of _ "drop 4 xs"])
      (auto simp: Decoder_Uint32_at enc_u32_eq be32_bytes split: if_splits)
qed (auto simp: Decoder_Uint32_at enc_u32_eq split: if_splits)

interpretation u64: codec enc_u64 Decoder_Uint64 "\<lambda>_ _. True"
proof unfold_locales
  fix pre xs :: bytes and l x d'
  assume "Decoder_Uint64 (dec_at pre xs l) = (Inr x, d')"
  then show "\<exists>r. xs = enc_u64 x @ r \<and> d' = dec_at (pre @ enc_u64 x) r l \<and> True"
    by (intro exI [of _ "drop 8 xs"])
      (auto simp: Decoder_Uint64_at enc_u64_eq be64_bytes split: if_splits)
qed (auto simp: Decoder_Uint64_at enc_u64_eq split: if_splits)

lemma Decoder_Blob_at:
  "Decoder_Blob (dec_at pre xs l) =
     (if length xs < 4 then (Inl ErrShort, dec_at pre xs l)
      else let n = unat (be_val (take 4 xs) :: u32); d = dec_at (pre @ take 4 xs) (drop 4 xs) l in
        if n > cap_of l then (Inl ErrLimit, d)
        else if length xs < 4 + n then (Inl ErrShort, d)
        else (Inr (take n (drop 4 xs)), dec_at (pre @ take (4 + n) xs) (drop (4 + n) xs) l))"
proof (cases "length xs < 4")
  case True
  then show ?thesis by (simp add: Decoder_Blob_def dbind_def Decoder_Uint32_at)
next
  case False
  define w :: u32 where "w = be_val (take 4 xs)"
  define d where "d = dec_at (pre @ take 4 xs) (drop 4 xs) l"
  obtain n where n: "n = unat w" by simp
  have step: "Decoder_Uint32 (dec_at pre xs l) = (Inr w, d)"
    using False by (simp add: Decoder_Uint32_at w_def d_def)
  have sl: "slice (d_off d) (d_off d + n) (d_buf d)
      = (if n \<le> length (drop 4 xs) then Some (take n (drop 4 xs)) else None)"
    using slice_at [of "pre @ take 4 xs" n "drop 4 xs"] by (simp add: d_def dec_at_def False)
  have adv: "d\<lparr>d_off := d_off d + n\<rparr> = dec_at (pre @ take (4 + n) xs) (drop (4 + n) xs) l"
    if "n \<le> length (drop 4 xs)"
    using that False by (auto simp: d_def dec_at_def min_def)
  have "Decoder_Blob (dec_at pre xs l) =
      (if int n > Decoder_cap d then (Inl ErrLimit, d)
       else if Decoder_Remaining d < int n then (Inl ErrShort, d)
       else (case slice (d_off d) (d_off d + n) (d_buf d) of
               None \<Rightarrow> (Inl RuntimePanic, d)
             | Some out \<Rightarrow> (Inr out, d\<lparr>d_off := d_off d + n\<rparr>)))"
    by (simp only: Decoder_Blob_def dbind_Inr [where m = Decoder_Uint32, OF step] n)
  also have "\<dots> = (if n > cap_of l then (Inl ErrLimit, d)
      else if length xs < 4 + n then (Inl ErrShort, d)
      else (Inr (take n (drop 4 xs)), dec_at (pre @ take (4 + n) xs) (drop (4 + n) xs) l))"
    using False sl adv by (auto simp: d_def)
  finally show ?thesis
    using False by (simp only: Let_def n w_def d_def if_False)
qed

interpretation blob: codec enc_blob Decoder_Blob blob_ok
proof unfold_locales
  fix l pre r and x :: bytes
  assume ok: "blob_ok (cap_of l) x"
  then have "unat (word_of_nat (length x) :: u32) = length x"
    by (auto simp: blob_ok_def intro: unat_be32_of_nat)
  with ok show "Decoder_Blob (dec_at pre (enc_blob x @ r) l) = (Inr x, dec_at (pre @ enc_blob x) r l)"
    by (simp add: Decoder_Blob_at enc_blob_eq enc_u32_eq blob_ok_def)
next
  fix pre xs l x d'
  assume "Decoder_Blob (dec_at pre xs l) = (Inr x, d')"
  then obtain n where n: "n = unat (be_val (take 4 xs) :: u32)" "n \<le> cap_of l" "4 + n \<le> length xs"
    and x: "x = take n (drop 4 xs)" and d': "d' = dec_at (pre @ take (4 + n) xs) (drop (4 + n) xs) l"
    by (auto simp: Decoder_Blob_at Let_def split: if_splits)
  have "enc_blob x = take (4 + n) xs"
    using n by (simp add: enc_blob_eq enc_u32_eq x be32_bytes take_add)
  moreover have "length x = n" "n < 2 ^ 32"
    using n x unsigned_less [of "be_val (take 4 xs) :: u32", where 'a = nat] by simp_all
  ultimately show "\<exists>r. xs = enc_blob x @ r \<and> d' = dec_at (pre @ enc_blob x) r l \<and> blob_ok (cap_of l) x"
    using n d' by (auto simp: blob_ok_def intro!: exI [of _ "drop (4 + n) xs"])
next
  fix pre xs l e d'
  assume "Decoder_Blob (dec_at pre xs l) = (Inl e, d')"
  then show "(e = ErrShort \<or> e = ErrLimit) \<and> (\<exists>pre' xs'. d' = dec_at pre' xs' l \<and> pre' @ xs' = pre @ xs)"
    by (auto simp: Decoder_Blob_at Let_def split: if_splits)
qed

lemma Decoder_String_InrE:
  assumes "Decoder_String d = (Inr s, d')"
  obtains b where "Decoder_Blob d = (Inr b, d')" "s = string_of b"
  using assms by (auto simp: Decoder_String_def dret_def elim: dbind_eq_InrE)

interpretation str: codec enc_str Decoder_String blob_ok
proof unfold_locales
  fix l pre r and x :: string
  assume "blob_ok (cap_of l) x"
  then have "blob_ok (cap_of l) (bytes_of x)" by (simp add: blob_ok_def)
  then show "Decoder_String (dec_at pre (enc_str x @ r) l) = (Inr x, dec_at (pre @ enc_str x) r l)"
    by (simp add: Decoder_String_def enc_str_eq blob.bind_enc dret_def)
next
  fix pre xs l x d'
  assume "Decoder_String (dec_at pre xs l) = (Inr x, d')"
  then show "\<exists>r. xs = enc_str x @ r \<and> d' = dec_at (pre @ enc_str x) r l \<and> blob_ok (cap_of l) x"
    by (elim Decoder_String_InrE) (auto simp: enc_str_eq blob_ok_def dest: blob.enc_dec)
next
  fix pre xs l e d'
  assume "Decoder_String (dec_at pre xs l) = (Inl e, d')"
  then show "(e = ErrShort \<or> e = ErrLimit) \<and> (\<exists>pre' xs'. d' = dec_at pre' xs' l \<and> pre' @ xs' = pre @ xs)"
    by (auto simp: Decoder_String_def dret_def elim: blob.bind_InlE)
qed

subsection \<open>Optional and counted fields\<close>

text \<open>
  Two shapes recur in the messages: a field that is present only when a flag says so, and a list
  preceded by its length, which is compared with a maximum before anything is allocated.
\<close>

definition opt_field :: "bool \<Rightarrow> 'a dec \<Rightarrow> 'a \<Rightarrow> 'a dec" where
  "opt_field b m zero = (if b then m else dret zero)"

definition counted :: "nat \<Rightarrow> 'a dec \<Rightarrow> 'a list dec" where
  "counted most item =
     dbind Decoder_Uint32 (\<lambda>n. if unat n > most then dfail ErrLimit else for_range (unat n) item [])"

context codec
begin

lemma opt_codec:
  "codec (\<lambda>x. if b then enc x else []) (opt_field b dec zero) (\<lambda>c x. if b then ok c x else x = zero)"
  by unfold_locales (auto simp: opt_field_def dret_def dec_enc enc_dec split: if_splits dest: dec_err)

lemma counted_codec:
  assumes "most < 2 ^ 32"
  shows "codec (\<lambda>xs. enc_u32 (word_of_nat (length xs)) @ concat (map enc xs)) (counted most dec)
    (\<lambda>c xs. length xs \<le> most \<and> list_all (ok c) xs)"
proof unfold_locales
  fix l pre r xs
  assume ok: "length xs \<le> most \<and> list_all (ok (cap_of l)) xs"
  with assms have "unat (word_of_nat (length xs) :: u32) = length xs"
    by (intro unat_be32_of_nat) simp
  with ok show "counted most dec (dec_at pre ((enc_u32 (word_of_nat (length xs)) @ concat (map enc xs)) @ r) l)
      = (Inr xs, dec_at (pre @ enc_u32 (word_of_nat (length xs)) @ concat (map enc xs)) r l)"
    by (simp add: counted_def u32.bind_enc for_range_enc)
next
  fix pre bs l xs d'
  assume "counted most dec (dec_at pre bs l) = (Inr xs, d')"
  then obtain n r where n: "bs = enc_u32 n @ r" "unat n \<le> most"
    and "for_range (unat n) dec [] (dec_at (pre @ enc_u32 n) r l) = (Inr xs, d')"
    by (auto simp: counted_def dfail_def elim!: u32.bind_InrE split: if_splits)
  from for_range_dec [OF this(3)] obtain r' where "length xs = unat n" "list_all (ok (cap_of l)) xs"
    "r = concat (map enc xs) @ r'" "d' = dec_at ((pre @ enc_u32 n) @ concat (map enc xs)) r' l"
    by auto
  with n show "\<exists>r. bs = (enc_u32 (word_of_nat (length xs)) @ concat (map enc xs)) @ r \<and>
      d' = dec_at (pre @ enc_u32 (word_of_nat (length xs)) @ concat (map enc xs)) r l \<and>
      length xs \<le> most \<and> list_all (ok (cap_of l)) xs"
    by auto
next
  fix pre bs l e d'
  assume "counted most dec (dec_at pre bs l) = (Inl e, d')"
  then show "(e = ErrShort \<or> e = ErrLimit) \<and> (\<exists>pre' xs'. d' = dec_at pre' xs' l \<and> pre' @ xs' = pre @ bs)"
    by (auto simp: counted_def dfail_def elim!: u32.bind_InlE split: if_splits dest!: for_range_err)
qed

end

text \<open>
  A message decoder reads its fields and then demands that nothing is left. Its contract: it
  accepts exactly the encodings of acceptable messages, and no payload makes it panic.
\<close>

locale message_codec =
  fixes enc :: "'a \<Rightarrow> bytes" and dec :: "'a dec" and ok :: "nat \<Rightarrow> 'a \<Rightarrow> bool"
  assumes msg_dec_enc: "ok (cap_of l) x \<Longrightarrow> \<exists>d'. dec (dec_at pre (enc x) l) = (Inr x, d')"
    and msg_enc_dec: "dec (dec_at pre xs l) = (Inr x, d') \<Longrightarrow> xs = enc x \<and> ok (cap_of l) x"
    and msg_no_panic: "dec (dec_at pre xs l) \<noteq> (Inl RuntimePanic, d')"
begin

definition decode :: "bytes \<Rightarrow> werr + 'a" where
  "decode payload = fst (dec (NewDecoder payload))"

lemma decode_iff: "decode payload = Inr m \<longleftrightarrow> payload = enc m \<and> ok 262144 m"
proof
  assume "decode payload = Inr m"
  then have "dec (dec_at [] payload 0) = (Inr m, snd (dec (dec_at [] payload 0)))"
    by (metis NewDecoder_at decode_def prod.collapse)
  from msg_enc_dec [OF this] show "payload = enc m \<and> ok 262144 m" by simp
next
  assume "payload = enc m \<and> ok 262144 m"
  then show "decode payload = Inr m"
    using msg_dec_enc [of 0 m "[]"] by (auto simp: decode_def NewDecoder_at)
qed

lemma decode_no_panic: "decode payload \<noteq> Inl RuntimePanic"
  using msg_no_panic by (metis NewDecoder_at decode_def prod.collapse)

lemma decode_inj: "decode p = Inr m \<Longrightarrow> decode q = Inr m \<Longrightarrow> p = q"
  by (simp add: decode_iff)

end

lemmas codec_binds =
  u32.bind_enc u32.bind_enc_end u64.bind_enc u64.bind_enc_end
  blob.bind_enc blob.bind_enc_end str.bind_enc str.bind_enc_end

declare codec_binds [wire_step]

end
