(* ===== verification/Wire_Attrs.thy ===== *)
theory Wire_Attrs
  imports Wire_Codec
begin

text \<open>
  The ATTRS structure of \<^verbatim>\<open>wire/attrs.go\<close>: every field is optional and announced by a bit of
  \<^verbatim>\<open>Flags\<close>. The codec contract is proved for canonical attributes, the ones whose unannounced
  fields are zero; \<open>attrs_mask\<close> gives the canonical form of any other.
\<close>

record ExtendedPair =
  ep_Type :: string
  ep_Data :: string

record Attributes =
  a_Flags :: u32
  a_Size :: u64
  a_UID :: u32
  a_GID :: u32
  a_Permissions :: u32
  a_Atime :: u32
  a_Mtime :: u32
  a_Extended :: "ExtendedPair list"

text \<open>The zero value of the struct, and the test \<^verbatim>\<open>flags&f != 0\<close>.\<close>

definition noAttributes :: Attributes where
  "noAttributes = \<lparr>a_Flags = 0, a_Size = 0, a_UID = 0, a_GID = 0, a_Permissions = 0,
     a_Atime = 0, a_Mtime = 0, a_Extended = []\<rparr>"

definition has :: "u32 \<Rightarrow> u32 \<Rightarrow> bool" where
  "has flags f \<longleftrightarrow> flags AND f \<noteq> 0"

definition IsDir :: "Attributes \<Rightarrow> bool" where
  "IsDir a \<longleftrightarrow> has (a_Flags a) AttrPermissions \<and> a_Permissions a AND ModeFmt = ModeDir"

definition IsLink :: "Attributes \<Rightarrow> bool" where
  "IsLink a \<longleftrightarrow> has (a_Flags a) AttrPermissions \<and> a_Permissions a AND ModeFmt = ModeLink"

subsection \<open>Encoding\<close>

fun encode_pairs :: "ExtendedPair list \<Rightarrow> Encoder \<Rightarrow> Encoder" where
  "encode_pairs [] e = e"
| "encode_pairs (p # ps) e = encode_pairs ps (Encoder_String (ep_Data p) (Encoder_String (ep_Type p) e))"

definition Attributes_Encode :: "Attributes \<Rightarrow> Encoder \<Rightarrow> Encoder" where
  "Attributes_Encode a e =
     (let e = Encoder_Uint32 (a_Flags a) e;
          e = (if has (a_Flags a) AttrSize then Encoder_Uint64 (a_Size a) e else e);
          e = (if has (a_Flags a) AttrUIDGID
               then Encoder_Uint32 (a_GID a) (Encoder_Uint32 (a_UID a) e) else e);
          e = (if has (a_Flags a) AttrPermissions then Encoder_Uint32 (a_Permissions a) e else e);
          e = (if has (a_Flags a) AttrACModTime
               then Encoder_Uint32 (a_Mtime a) (Encoder_Uint32 (a_Atime a) e) else e)
      in if has (a_Flags a) AttrExtended
         then encode_pairs (a_Extended a) (Encoder_Uint32 (word_of_nat (length (a_Extended a))) e)
         else e)"

subsection \<open>Decoding\<close>

definition maxExtendedPairs :: nat where
  "maxExtendedPairs = 64"

definition decode_pair :: "ExtendedPair dec" where
  "decode_pair = dbind Decoder_String (\<lambda>t. dbind Decoder_String (\<lambda>v. dret \<lparr>ep_Type = t, ep_Data = v\<rparr>))"

definition DecodeAttributes :: "Attributes dec" where
  "DecodeAttributes =
     dbind Decoder_Uint32 (\<lambda>flags.
     dbind (opt_field (has flags AttrSize) Decoder_Uint64 0) (\<lambda>size.
     dbind (opt_field (has flags AttrUIDGID) Decoder_Uint32 0) (\<lambda>uid.
     dbind (opt_field (has flags AttrUIDGID) Decoder_Uint32 0) (\<lambda>gid.
     dbind (opt_field (has flags AttrPermissions) Decoder_Uint32 0) (\<lambda>perms.
     dbind (opt_field (has flags AttrACModTime) Decoder_Uint32 0) (\<lambda>atime.
     dbind (opt_field (has flags AttrACModTime) Decoder_Uint32 0) (\<lambda>mtime.
     dbind (opt_field (has flags AttrExtended) (counted maxExtendedPairs decode_pair) []) (\<lambda>ext.
       dret \<lparr>a_Flags = flags, a_Size = size, a_UID = uid, a_GID = gid, a_Permissions = perms,
         a_Atime = atime, a_Mtime = mtime, a_Extended = ext\<rparr>))))))))"

subsection \<open>The codec contract\<close>

definition enc_pair :: "ExtendedPair \<Rightarrow> bytes" where
  "enc_pair p = enc_str (ep_Type p) @ enc_str (ep_Data p)"

definition enc_attrs :: "Attributes \<Rightarrow> bytes" where
  "enc_attrs a = Attributes_Encode a (NewEncoder [])"

definition pair_ok :: "nat \<Rightarrow> ExtendedPair \<Rightarrow> bool" where
  "pair_ok c p \<longleftrightarrow> blob_ok c (ep_Type p) \<and> blob_ok c (ep_Data p)"

definition attrs_mask :: "Attributes \<Rightarrow> Attributes" where
  "attrs_mask a = (let f = a_Flags a in
     \<lparr>a_Flags = f,
      a_Size = (if has f AttrSize then a_Size a else 0),
      a_UID = (if has f AttrUIDGID then a_UID a else 0),
      a_GID = (if has f AttrUIDGID then a_GID a else 0),
      a_Permissions = (if has f AttrPermissions then a_Permissions a else 0),
      a_Atime = (if has f AttrACModTime then a_Atime a else 0),
      a_Mtime = (if has f AttrACModTime then a_Mtime a else 0),
      a_Extended = (if has f AttrExtended then a_Extended a else [])\<rparr>)"

definition attrs_ok :: "nat \<Rightarrow> Attributes \<Rightarrow> bool" where
  "attrs_ok c a \<longleftrightarrow> attrs_mask a = a \<and> length (a_Extended a) \<le> maxExtendedPairs \<and>
     list_all (pair_ok c) (a_Extended a)"

lemma encode_pairs_appends [simp]: "encode_pairs ps e = e @ concat (map enc_pair ps)"
  by (induction ps arbitrary: e) (simp_all add: enc_pair_def)

interpretation pair: codec enc_pair decode_pair pair_ok
  by unfold_locales
    (auto simp: enc_pair_def decode_pair_def pair_ok_def dret_def str.bind_enc
      elim!: str.bind_InrE str.bind_InlE)

lemma Attributes_Encode_eq: "Attributes_Encode a e = e @ enc_u32 (a_Flags a) @
    (if has (a_Flags a) AttrSize then enc_u64 (a_Size a) else []) @
    (if has (a_Flags a) AttrUIDGID then enc_u32 (a_UID a) else []) @
    (if has (a_Flags a) AttrUIDGID then enc_u32 (a_GID a) else []) @
    (if has (a_Flags a) AttrPermissions then enc_u32 (a_Permissions a) else []) @
    (if has (a_Flags a) AttrACModTime then enc_u32 (a_Atime a) else []) @
    (if has (a_Flags a) AttrACModTime then enc_u32 (a_Mtime a) else []) @
    (if has (a_Flags a) AttrExtended
     then enc_u32 (word_of_nat (length (a_Extended a))) @ concat (map enc_pair (a_Extended a)) else [])"
  by (simp add: Attributes_Encode_def Let_def del: AttrSize_def AttrUIDGID_def AttrPermissions_def
      AttrACModTime_def AttrExtended_def)

lemmas enc_attrs_eq = Attributes_Encode_eq [where e = "NewEncoder []", folded enc_attrs_def,
    unfolded NewEncoder_def append_Nil]

lemma Attributes_Encode_appends [simp]: "Attributes_Encode a e = e @ enc_attrs a"
  by (simp add: enc_attrs_def Attributes_Encode_eq NewEncoder_def)

text \<open>Canonical attributes: what is not announced is zero.\<close>

lemma attrs_mask_eq_iff: "attrs_mask a = a \<longleftrightarrow>
    (\<not> has (a_Flags a) AttrSize \<longrightarrow> a_Size a = 0) \<and>
    (\<not> has (a_Flags a) AttrUIDGID \<longrightarrow> a_UID a = 0 \<and> a_GID a = 0) \<and>
    (\<not> has (a_Flags a) AttrPermissions \<longrightarrow> a_Permissions a = 0) \<and>
    (\<not> has (a_Flags a) AttrACModTime \<longrightarrow> a_Atime a = 0 \<and> a_Mtime a = 0) \<and>
    (\<not> has (a_Flags a) AttrExtended \<longrightarrow> a_Extended a = [])"
  by (cases a) (auto simp: attrs_mask_def)

lemma attrs_mask_idem [simp]: "attrs_mask (attrs_mask a) = attrs_mask a"
  by (simp add: attrs_mask_def Let_def)

lemma enc_attrs_mask: "enc_attrs (attrs_mask a) = enc_attrs a"
  by (simp add: enc_attrs_eq attrs_mask_def Let_def
      del: AttrSize_def AttrUIDGID_def AttrPermissions_def AttrACModTime_def AttrExtended_def)

lemma exts_codec:
  "codec (\<lambda>xs. enc_u32 (word_of_nat (length xs)) @ concat (map enc_pair xs))
    (counted maxExtendedPairs decode_pair)
    (\<lambda>c xs. length xs \<le> maxExtendedPairs \<and> list_all (pair_ok c) xs)"
  by (rule pair.counted_codec) (simp add: maxExtendedPairs_def)

lemmas opt_bind_encs =
  codec.bind_enc [OF u32.opt_codec] codec.bind_enc [OF u64.opt_codec]
  codec.bind_enc [OF codec.opt_codec [OF exts_codec]]

lemmas opt_bind_InrEs =
  codec.bind_InrE [OF u32.opt_codec] codec.bind_InrE [OF u64.opt_codec]
  codec.bind_InrE [OF codec.opt_codec [OF exts_codec]]

lemmas opt_bind_InlEs =
  codec.bind_InlE [OF u32.opt_codec] codec.bind_InlE [OF u64.opt_codec]
  codec.bind_InlE [OF codec.opt_codec [OF exts_codec]]

lemma DecodeAttributes_enc:
  assumes "attrs_ok (cap_of l) a"
  shows "DecodeAttributes (dec_at pre (enc_attrs a @ r) l) = (Inr a, dec_at (pre @ enc_attrs a) r l)"
proof -
  note [simp del] = AttrSize_def AttrUIDGID_def AttrPermissions_def AttrACModTime_def AttrExtended_def
  have mask: "attrs_mask a = a" and ext: "length (a_Extended a) \<le> maxExtendedPairs"
    "list_all (pair_ok (cap_of l)) (a_Extended a)"
    using assms by (auto simp: attrs_ok_def)
  show ?thesis
    using ext mask
    by (simp add: DecodeAttributes_def enc_attrs_eq u32.bind_enc
        opt_bind_encs attrs_mask_eq_iff dret_def)
qed

lemma DecodeAttributes_dec:
  assumes "DecodeAttributes (dec_at pre xs l) = (Inr a, d')"
  shows "\<exists>r. xs = enc_attrs a @ r \<and> d' = dec_at (pre @ enc_attrs a) r l \<and> attrs_ok (cap_of l) a"
proof -
  note [simp del] = AttrSize_def AttrUIDGID_def AttrPermissions_def AttrACModTime_def AttrExtended_def
  show ?thesis
    using assms unfolding DecodeAttributes_def dret_def
  proof (elim u32.bind_InrE opt_bind_InrEs, goal_cases)
    case (1 flags r0 size r1 uid r2 gid r3 perms r4 atime r5 mtime r6 ext r7)
    from 1(17) have a: "a = \<lparr>a_Flags = flags, a_Size = size, a_UID = uid, a_GID = gid,
        a_Permissions = perms, a_Atime = atime, a_Mtime = mtime, a_Extended = ext\<rparr>"
      by simp
    have "attrs_ok (cap_of l) a"
      using 1 by (auto simp: a attrs_ok_def attrs_mask_eq_iff split: if_splits)
    moreover have "xs = enc_attrs a @ r7"
      unfolding 1 by (simp add: a enc_attrs_eq cong: if_cong del: if_split)
    moreover have "d' = dec_at (pre @ enc_attrs a) r7 l"
      using 1(17) by (auto simp: a enc_attrs_eq cong: if_cong simp del: if_split)
    ultimately show ?case by blast
  qed
qed

lemma DecodeAttributes_err:
  assumes "DecodeAttributes (dec_at pre xs l) = (Inl e, d')"
  shows "(e = ErrShort \<or> e = ErrLimit) \<and> (\<exists>pre' xs'. d' = dec_at pre' xs' l \<and> pre' @ xs' = pre @ xs)"
  using assms unfolding DecodeAttributes_def dret_def
  by (elim u32.bind_InlE opt_bind_InlEs) simp_all

interpretation attrs: codec enc_attrs DecodeAttributes attrs_ok
  by unfold_locales (fact DecodeAttributes_enc DecodeAttributes_dec DecodeAttributes_err)+

declare attrs.bind_enc [wire_step] attrs.bind_enc_end [wire_step]

text \<open>Everything but the extensions is at most 36 bytes; the extensions add what they hold.\<close>

lemma length_enc_attrs_le:
  "length (enc_attrs a) \<le> 36 + sum_list (map (\<lambda>p. length (enc_pair p)) (a_Extended a))"
  by (simp add: enc_attrs_eq length_concat o_def
      del: AttrSize_def AttrUIDGID_def AttrPermissions_def AttrACModTime_def AttrExtended_def)

lemma attrs_ok_mask: "attrs_ok c (attrs_mask a) \<longleftrightarrow>
    length (a_Extended (attrs_mask a)) \<le> maxExtendedPairs \<and> list_all (pair_ok c) (a_Extended (attrs_mask a))"
  by (simp add: attrs_ok_def)

text \<open>C33: What travels of an \<^verbatim>\<open>Attributes\<close> value is exactly what its flags announce. Decoding the
encoding of any value gives back the announced fields unchanged and zero for the others, and consumes
every byte written, as long as the announced extensions are within the ceiling on their number and each
of their strings is within the decoder's limit.\<close>

theorem attributes_roundtrip:
  assumes "length (a_Extended (attrs_mask a)) \<le> maxExtendedPairs"
    and "list_all (pair_ok 262144) (a_Extended (attrs_mask a))"
  shows "fst (dbind DecodeAttributes dend (NewDecoder (Attributes_Encode a (NewEncoder [])))) = Inr (attrs_mask a)"
proof -
  have "dbind DecodeAttributes dend (dec_at [] (enc_attrs (attrs_mask a)) 0)
      = (Inr (attrs_mask a), dec_at (enc_attrs (attrs_mask a)) [] 0)"
    using attrs.bind_enc_end [of 0 "attrs_mask a" dend "[]"] assms by (simp add: attrs_ok_mask wire_step)
  then show ?thesis
    by (simp add: enc_attrs_mask NewDecoder_at NewEncoder_def)
qed

theorem attributes_roundtrip_witness:
  "fst (dbind DecodeAttributes dend (NewDecoder (Attributes_Encode
      \<lparr>a_Flags = AttrPermissions OR AttrExtended, a_Size = 7, a_UID = 1, a_GID = 2, a_Permissions = 420,
       a_Atime = 3, a_Mtime = 4, a_Extended = [\<lparr>ep_Type = ''k'', ep_Data = ''v''\<rparr>]\<rparr> (NewEncoder []))))
   = Inr \<lparr>a_Flags = AttrPermissions OR AttrExtended, a_Size = 0, a_UID = 0, a_GID = 0, a_Permissions = 420,
       a_Atime = 0, a_Mtime = 0, a_Extended = [\<lparr>ep_Type = ''k'', ep_Data = ''v''\<rparr>]\<rparr>"
proof -
  let ?a = "\<lparr>a_Flags = AttrPermissions OR AttrExtended, a_Size = 7, a_UID = 1, a_GID = 2, a_Permissions = 420,
       a_Atime = 3, a_Mtime = 4, a_Extended = [\<lparr>ep_Type = ''k'', ep_Data = ''v''\<rparr>]\<rparr>"
  have m: "attrs_mask ?a = \<lparr>a_Flags = AttrPermissions OR AttrExtended, a_Size = 0, a_UID = 0, a_GID = 0,
      a_Permissions = 420, a_Atime = 0, a_Mtime = 0, a_Extended = [\<lparr>ep_Type = ''k'', ep_Data = ''v''\<rparr>]\<rparr>"
    by code_simp
  show ?thesis
    using attributes_roundtrip [of ?a]
    unfolding m by (simp add: maxExtendedPairs_def pair_ok_def blob_ok_def)
qed

end
