(* ===== verification/Wire_Messages.thy ===== *)
theory Wire_Messages
  imports Wire_Attrs
begin

text \<open>
  The messages of \<^verbatim>\<open>wire/messages.go\<close>: one record per Go type, its \<^verbatim>\<open>EncodePayload\<close> and its
  decoder. The fields of a record carry a short prefix, since Isabelle's selectors share one name
  space. Every decoder whose message has a single encoding is an interpretation of
  \<open>message_codec\<close>: it accepts exactly the payloads its encoder writes. \<^verbatim>\<open>DecodeStatus\<close> also accepts
  the two shorter forms of older peers and is treated on its own.
\<close>

subsection \<open>Session start\<close>

record InitRequest =
  ir_Version :: u32
  ir_Extensions :: "ExtendedPair list"

definition InitRequest_EncodePayload :: "InitRequest \<Rightarrow> Encoder \<Rightarrow> Encoder" where
  "InitRequest_EncodePayload m e = encode_pairs (ir_Extensions m) (Encoder_Uint32 (ir_Version m) e)"

text \<open>
  The extension pairs have no count: they are read until the payload is used up, and at most
  \<open>maxExtendedPairs\<close> of them, which is what makes the loop end.
\<close>

function init_loop :: "ExtendedPair list \<Rightarrow> ExtendedPair list dec" where
  "init_loop ext d =
     (if Decoder_Remaining d > 0
      then if length ext \<ge> maxExtendedPairs then (Inl ErrLimit, d)
           else dbind decode_pair (\<lambda>p d'. init_loop (ext @ [p]) d') d
      else (Inr ext, d))"
  by pat_completeness auto
termination
  by (relation "measure (\<lambda>(ext, d). maxExtendedPairs - length ext)") auto

declare init_loop.simps [simp del]

definition read_init :: "InitRequest dec" where
  "read_init = dbind Decoder_Uint32 (\<lambda>v. dbind (init_loop []) (\<lambda>ext.
     dret \<lparr>ir_Version = v, ir_Extensions = ext\<rparr>))"

definition DecodeInit :: "bytes \<Rightarrow> werr + InitRequest" where
  "DecodeInit payload = fst (read_init (NewDecoder payload))"

record VersionReply =
  vr_Version :: u32
  vr_Extensions :: "ExtendedPair list"

definition VersionReply_EncodePayload :: "VersionReply \<Rightarrow> Encoder \<Rightarrow> Encoder" where
  "VersionReply_EncodePayload m e = encode_pairs (vr_Extensions m) (Encoder_Uint32 (vr_Version m) e)"

definition DecodeVersion :: "bytes \<Rightarrow> werr + VersionReply" where
  "DecodeVersion payload =
     (case DecodeInit payload of
        Inl err \<Rightarrow> Inl err
      | Inr m \<Rightarrow> Inr \<lparr>vr_Version = ir_Version m, vr_Extensions = ir_Extensions m\<rparr>)"

subsection \<open>Requests\<close>

record PathRequest =
  p_PacketType :: byte
  p_ID :: u32
  p_Path :: string

definition PathRequest_EncodePayload :: "PathRequest \<Rightarrow> Encoder \<Rightarrow> Encoder" where
  "PathRequest_EncodePayload m e = Encoder_String (p_Path m) (Encoder_Uint32 (p_ID m) e)"

definition read_path :: "byte \<Rightarrow> PathRequest dec" where
  "read_path typ =
     dbind Decoder_Uint32 (\<lambda>id.
     dbind Decoder_String (\<lambda>path.
       dend \<lparr>p_PacketType = typ, p_ID = id, p_Path = path\<rparr>))"

definition DecodePath :: "byte \<Rightarrow> bytes \<Rightarrow> werr + PathRequest" where
  "DecodePath typ payload = fst (read_path typ (NewDecoder payload))"

record HandleRequest =
  hr_PacketType :: byte
  hr_ID :: u32
  hr_Handle :: string

definition HandleRequest_EncodePayload :: "HandleRequest \<Rightarrow> Encoder \<Rightarrow> Encoder" where
  "HandleRequest_EncodePayload m e = Encoder_String (hr_Handle m) (Encoder_Uint32 (hr_ID m) e)"

definition read_handle :: "byte \<Rightarrow> HandleRequest dec" where
  "read_handle typ =
     dbind Decoder_Uint32 (\<lambda>id.
     dbind Decoder_String (\<lambda>handle.
       dend \<lparr>hr_PacketType = typ, hr_ID = id, hr_Handle = handle\<rparr>))"

definition DecodeHandle :: "byte \<Rightarrow> bytes \<Rightarrow> werr + HandleRequest" where
  "DecodeHandle typ payload = fst (read_handle typ (NewDecoder payload))"

record OpenRequest =
  or_ID :: u32
  or_Path :: string
  or_PFlags :: u32
  or_Attrs :: Attributes

definition OpenRequest_EncodePayload :: "OpenRequest \<Rightarrow> Encoder \<Rightarrow> Encoder" where
  "OpenRequest_EncodePayload m e = Attributes_Encode (or_Attrs m) (Encoder_Uint32 (or_PFlags m) (Encoder_String (or_Path m) (Encoder_Uint32 (or_ID m) e)))"

definition read_open :: "OpenRequest dec" where
  "read_open =
     dbind Decoder_Uint32 (\<lambda>id.
     dbind Decoder_String (\<lambda>path.
     dbind Decoder_Uint32 (\<lambda>pflags.
     dbind DecodeAttributes (\<lambda>attrs.
       dend \<lparr>or_ID = id, or_Path = path, or_PFlags = pflags, or_Attrs = attrs\<rparr>))))"

definition DecodeOpen :: "bytes \<Rightarrow> werr + OpenRequest" where
  "DecodeOpen payload = fst (read_open (NewDecoder payload))"

record ReadRequest =
  rr_ID :: u32
  rr_Handle :: string
  rr_Offset :: u64
  rr_Length :: u32

definition ReadRequest_EncodePayload :: "ReadRequest \<Rightarrow> Encoder \<Rightarrow> Encoder" where
  "ReadRequest_EncodePayload m e = Encoder_Uint32 (rr_Length m) (Encoder_Uint64 (rr_Offset m) (Encoder_String (rr_Handle m) (Encoder_Uint32 (rr_ID m) e)))"

definition read_read :: "ReadRequest dec" where
  "read_read =
     dbind Decoder_Uint32 (\<lambda>id.
     dbind Decoder_String (\<lambda>handle.
     dbind Decoder_Uint64 (\<lambda>offset.
     dbind Decoder_Uint32 (\<lambda>len.
       dend \<lparr>rr_ID = id, rr_Handle = handle, rr_Offset = offset, rr_Length = len\<rparr>))))"

definition DecodeRead :: "bytes \<Rightarrow> werr + ReadRequest" where
  "DecodeRead payload = fst (read_read (NewDecoder payload))"

record WriteRequest =
  wr_ID :: u32
  wr_Handle :: string
  wr_Offset :: u64
  wr_Data :: bytes

definition WriteRequest_EncodePayload :: "WriteRequest \<Rightarrow> Encoder \<Rightarrow> Encoder" where
  "WriteRequest_EncodePayload m e = Encoder_Blob (wr_Data m) (Encoder_Uint64 (wr_Offset m) (Encoder_String (wr_Handle m) (Encoder_Uint32 (wr_ID m) e)))"

definition read_write :: "WriteRequest dec" where
  "read_write =
     dbind Decoder_Uint32 (\<lambda>id.
     dbind Decoder_String (\<lambda>handle.
     dbind Decoder_Uint64 (\<lambda>offset.
     dbind Decoder_Blob (\<lambda>data.
       dend \<lparr>wr_ID = id, wr_Handle = handle, wr_Offset = offset, wr_Data = data\<rparr>))))"

definition DecodeWrite :: "bytes \<Rightarrow> werr + WriteRequest" where
  "DecodeWrite payload = fst (read_write (NewDecoder payload))"

record SetstatRequest =
  ss_PacketType :: byte
  ss_ID :: u32
  ss_Path :: string
  ss_Attrs :: Attributes

definition SetstatRequest_EncodePayload :: "SetstatRequest \<Rightarrow> Encoder \<Rightarrow> Encoder" where
  "SetstatRequest_EncodePayload m e = Attributes_Encode (ss_Attrs m) (Encoder_String (ss_Path m) (Encoder_Uint32 (ss_ID m) e))"

definition read_setstat :: "byte \<Rightarrow> SetstatRequest dec" where
  "read_setstat typ =
     dbind Decoder_Uint32 (\<lambda>id.
     dbind Decoder_String (\<lambda>path.
     dbind DecodeAttributes (\<lambda>attrs.
       dend \<lparr>ss_PacketType = typ, ss_ID = id, ss_Path = path, ss_Attrs = attrs\<rparr>)))"

definition DecodeSetstat :: "byte \<Rightarrow> bytes \<Rightarrow> werr + SetstatRequest" where
  "DecodeSetstat typ payload = fst (read_setstat typ (NewDecoder payload))"

record FsetstatRequest =
  fs_ID :: u32
  fs_Handle :: string
  fs_Attrs :: Attributes

definition FsetstatRequest_EncodePayload :: "FsetstatRequest \<Rightarrow> Encoder \<Rightarrow> Encoder" where
  "FsetstatRequest_EncodePayload m e = Attributes_Encode (fs_Attrs m) (Encoder_String (fs_Handle m) (Encoder_Uint32 (fs_ID m) e))"

definition read_fsetstat :: "FsetstatRequest dec" where
  "read_fsetstat =
     dbind Decoder_Uint32 (\<lambda>id.
     dbind Decoder_String (\<lambda>handle.
     dbind DecodeAttributes (\<lambda>attrs.
       dend \<lparr>fs_ID = id, fs_Handle = handle, fs_Attrs = attrs\<rparr>)))"

definition DecodeFsetstat :: "bytes \<Rightarrow> werr + FsetstatRequest" where
  "DecodeFsetstat payload = fst (read_fsetstat (NewDecoder payload))"

record RenameRequest =
  rn_ID :: u32
  rn_OldPath :: string
  rn_NewPath :: string

definition RenameRequest_EncodePayload :: "RenameRequest \<Rightarrow> Encoder \<Rightarrow> Encoder" where
  "RenameRequest_EncodePayload m e = Encoder_String (rn_NewPath m) (Encoder_String (rn_OldPath m) (Encoder_Uint32 (rn_ID m) e))"

definition read_rename :: "RenameRequest dec" where
  "read_rename =
     dbind Decoder_Uint32 (\<lambda>id.
     dbind Decoder_String (\<lambda>oldpath.
     dbind Decoder_String (\<lambda>newpath.
       dend \<lparr>rn_ID = id, rn_OldPath = oldpath, rn_NewPath = newpath\<rparr>)))"

definition DecodeRename :: "bytes \<Rightarrow> werr + RenameRequest" where
  "DecodeRename payload = fst (read_rename (NewDecoder payload))"

record SymlinkRequest =
  sl_ID :: u32
  sl_TargetPath :: string
  sl_LinkPath :: string

definition SymlinkRequest_EncodePayload :: "SymlinkRequest \<Rightarrow> Encoder \<Rightarrow> Encoder" where
  "SymlinkRequest_EncodePayload m e = Encoder_String (sl_LinkPath m) (Encoder_String (sl_TargetPath m) (Encoder_Uint32 (sl_ID m) e))"

definition read_symlink :: "SymlinkRequest dec" where
  "read_symlink =
     dbind Decoder_Uint32 (\<lambda>id.
     dbind Decoder_String (\<lambda>targetpath.
     dbind Decoder_String (\<lambda>linkpath.
       dend \<lparr>sl_ID = id, sl_TargetPath = targetpath, sl_LinkPath = linkpath\<rparr>)))"

definition DecodeSymlink :: "bytes \<Rightarrow> werr + SymlinkRequest" where
  "DecodeSymlink payload = fst (read_symlink (NewDecoder payload))"

text \<open>The data of an extended request is everything after its name, \<^verbatim>\<open>d.buf[d.off:]\<close>.\<close>

definition read_rest :: "bytes dec" where
  "read_rest d = (case slice (d_off d) (length (d_buf d)) (d_buf d) of
     None \<Rightarrow> (Inl RuntimePanic, d) | Some r \<Rightarrow> (Inr r, d))"

record ExtendedRequest =
  er_ID :: u32
  er_Name :: string
  er_Data :: bytes

definition ExtendedRequest_EncodePayload :: "ExtendedRequest \<Rightarrow> Encoder \<Rightarrow> Encoder" where
  "ExtendedRequest_EncodePayload m e = Encoder_String (er_Name m) (Encoder_Uint32 (er_ID m) e) @ er_Data m"

definition read_extended :: "ExtendedRequest dec" where
  "read_extended =
     dbind Decoder_Uint32 (\<lambda>id.
     dbind Decoder_String (\<lambda>name.
     dbind read_rest (\<lambda>data.
       dret \<lparr>er_ID = id, er_Name = name, er_Data = data\<rparr>)))"

definition DecodeExtended :: "bytes \<Rightarrow> werr + ExtendedRequest" where
  "DecodeExtended payload = fst (read_extended (NewDecoder payload))"

subsection \<open>Replies\<close>

record StatusReply =
  st_ID :: u32
  st_Code :: status
  st_Message :: string
  st_Lang :: string

definition StatusReply_EncodePayload :: "StatusReply \<Rightarrow> Encoder \<Rightarrow> Encoder" where
  "StatusReply_EncodePayload m e =
     Encoder_String (st_Lang m) (Encoder_String (st_Message m)
       (Encoder_Uint32 (st_Code m) (Encoder_Uint32 (st_ID m) e)))"

definition read_status :: "StatusReply dec" where
  "read_status =
     dbind Decoder_Uint32 (\<lambda>id.
     dbind Decoder_Uint32 (\<lambda>code d.
       let m = \<lparr>st_ID = id, st_Code = code, st_Message = [], st_Lang = []\<rparr> in
       if Decoder_Remaining d = 0 then (Inr m, d)
       else dbind Decoder_String (\<lambda>msg d.
         let m = m\<lparr>st_Message := msg\<rparr> in
         if Decoder_Remaining d = 0 then (Inr m, d)
         else dbind Decoder_String (\<lambda>lang. dend (m\<lparr>st_Lang := lang\<rparr>)) d) d))"

definition DecodeStatus :: "bytes \<Rightarrow> werr + StatusReply" where
  "DecodeStatus payload = fst (read_status (NewDecoder payload))"

record HandleReply =
  hl_ID :: u32
  hl_Handle :: string

definition HandleReply_EncodePayload :: "HandleReply \<Rightarrow> Encoder \<Rightarrow> Encoder" where
  "HandleReply_EncodePayload m e = Encoder_String (hl_Handle m) (Encoder_Uint32 (hl_ID m) e)"

definition read_handle_reply :: "HandleReply dec" where
  "read_handle_reply =
     dbind Decoder_Uint32 (\<lambda>id.
     dbind Decoder_String (\<lambda>handle.
       dend \<lparr>hl_ID = id, hl_Handle = handle\<rparr>))"

definition DecodeHandleReply :: "bytes \<Rightarrow> werr + HandleReply" where
  "DecodeHandleReply payload = fst (read_handle_reply (NewDecoder payload))"

record DataReply =
  dr_ID :: u32
  dr_Data :: bytes

definition DataReply_EncodePayload :: "DataReply \<Rightarrow> Encoder \<Rightarrow> Encoder" where
  "DataReply_EncodePayload m e = Encoder_Blob (dr_Data m) (Encoder_Uint32 (dr_ID m) e)"

definition read_data :: "DataReply dec" where
  "read_data =
     dbind Decoder_Uint32 (\<lambda>id.
     dbind Decoder_Blob (\<lambda>data.
       dend \<lparr>dr_ID = id, dr_Data = data\<rparr>))"

definition DecodeData :: "bytes \<Rightarrow> werr + DataReply" where
  "DecodeData payload = fst (read_data (NewDecoder payload))"

record NameItem =
  ni_Filename :: string
  ni_Longname :: string
  ni_Attrs :: Attributes

record NameReply =
  nr_ID :: u32
  nr_Items :: "NameItem list"

fun encode_items :: "NameItem list \<Rightarrow> Encoder \<Rightarrow> Encoder" where
  "encode_items [] e = e"
| "encode_items (it # its) e =
     encode_items its (Attributes_Encode (ni_Attrs it)
       (Encoder_String (ni_Longname it) (Encoder_String (ni_Filename it) e)))"

definition NameReply_EncodePayload :: "NameReply \<Rightarrow> Encoder \<Rightarrow> Encoder" where
  "NameReply_EncodePayload m e =
     encode_items (nr_Items m) (Encoder_Uint32 (word_of_nat (length (nr_Items m))) (Encoder_Uint32 (nr_ID m) e))"

definition maxNameItems :: nat where
  "maxNameItems = 65536"

definition decode_item :: "NameItem dec" where
  "decode_item =
     dbind Decoder_String (\<lambda>filename.
     dbind Decoder_String (\<lambda>longname.
     dbind DecodeAttributes (\<lambda>attrs.
       dret \<lparr>ni_Filename = filename, ni_Longname = longname, ni_Attrs = attrs\<rparr>)))"

definition read_name :: "NameReply dec" where
  "read_name =
     dbind Decoder_Uint32 (\<lambda>id.
     dbind (counted maxNameItems decode_item) (\<lambda>items.
       dend \<lparr>nr_ID = id, nr_Items = items\<rparr>))"

definition DecodeName :: "bytes \<Rightarrow> werr + NameReply" where
  "DecodeName payload = fst (read_name (NewDecoder payload))"

record AttrsReply =
  ar_ID :: u32
  ar_Attrs :: Attributes

definition AttrsReply_EncodePayload :: "AttrsReply \<Rightarrow> Encoder \<Rightarrow> Encoder" where
  "AttrsReply_EncodePayload m e = Attributes_Encode (ar_Attrs m) (Encoder_Uint32 (ar_ID m) e)"

definition read_attrs :: "AttrsReply dec" where
  "read_attrs =
     dbind Decoder_Uint32 (\<lambda>id.
     dbind DecodeAttributes (\<lambda>attrs.
       dend \<lparr>ar_ID = id, ar_Attrs = attrs\<rparr>))"

definition DecodeAttrs :: "bytes \<Rightarrow> werr + AttrsReply" where
  "DecodeAttrs payload = fst (read_attrs (NewDecoder payload))"

record ExtendedReply =
  xr_ID :: u32
  xr_Data :: bytes

definition ExtendedReply_EncodePayload :: "ExtendedReply \<Rightarrow> Encoder \<Rightarrow> Encoder" where
  "ExtendedReply_EncodePayload m e = Encoder_Uint32 (xr_ID m) e @ xr_Data m"

definition read_extended_reply :: "ExtendedReply dec" where
  "read_extended_reply =
     dbind Decoder_Uint32 (\<lambda>id.
     dbind read_rest (\<lambda>data. dret \<lparr>xr_ID = id, xr_Data = data\<rparr>))"

definition DecodeExtendedReply :: "bytes \<Rightarrow> werr + ExtendedReply" where
  "DecodeExtendedReply payload = fst (read_extended_reply (NewDecoder payload))"

subsection \<open>The Message interface\<close>

datatype message =
    InitMsg InitRequest | VersionMsg VersionReply
  | PathMsg PathRequest | HandleMsg HandleRequest | OpenMsg OpenRequest
  | ReadMsg ReadRequest | WriteMsg WriteRequest | SetstatMsg SetstatRequest
  | FsetstatMsg FsetstatRequest | RenameMsg RenameRequest | SymlinkMsg SymlinkRequest
  | ExtendedMsg ExtendedRequest
  | StatusMsg StatusReply | HandleReplyMsg HandleReply | DataMsg DataReply
  | NameMsg NameReply | AttrsMsg AttrsReply | ExtendedReplyMsg ExtendedReply

fun Message_Type :: "message \<Rightarrow> byte" where
  "Message_Type (InitMsg _) = FxpInit"
| "Message_Type (VersionMsg _) = FxpVersion"
| "Message_Type (PathMsg m) = p_PacketType m"
| "Message_Type (HandleMsg m) = hr_PacketType m"
| "Message_Type (OpenMsg _) = FxpOpen"
| "Message_Type (ReadMsg _) = FxpRead"
| "Message_Type (WriteMsg _) = FxpWrite"
| "Message_Type (SetstatMsg m) = ss_PacketType m"
| "Message_Type (FsetstatMsg _) = FxpFsetstat"
| "Message_Type (RenameMsg _) = FxpRename"
| "Message_Type (SymlinkMsg _) = FxpSymlink"
| "Message_Type (ExtendedMsg _) = FxpExtended"
| "Message_Type (StatusMsg _) = FxpStatus"
| "Message_Type (HandleReplyMsg _) = FxpHandle"
| "Message_Type (DataMsg _) = FxpData"
| "Message_Type (NameMsg _) = FxpName"
| "Message_Type (AttrsMsg _) = FxpAttrs"
| "Message_Type (ExtendedReplyMsg _) = FxpExtendedReply"

fun EncodePayload :: "message \<Rightarrow> Encoder \<Rightarrow> Encoder" where
  "EncodePayload (InitMsg m) e = InitRequest_EncodePayload m e"
| "EncodePayload (VersionMsg m) e = VersionReply_EncodePayload m e"
| "EncodePayload (PathMsg m) e = PathRequest_EncodePayload m e"
| "EncodePayload (HandleMsg m) e = HandleRequest_EncodePayload m e"
| "EncodePayload (OpenMsg m) e = OpenRequest_EncodePayload m e"
| "EncodePayload (ReadMsg m) e = ReadRequest_EncodePayload m e"
| "EncodePayload (WriteMsg m) e = WriteRequest_EncodePayload m e"
| "EncodePayload (SetstatMsg m) e = SetstatRequest_EncodePayload m e"
| "EncodePayload (FsetstatMsg m) e = FsetstatRequest_EncodePayload m e"
| "EncodePayload (RenameMsg m) e = RenameRequest_EncodePayload m e"
| "EncodePayload (SymlinkMsg m) e = SymlinkRequest_EncodePayload m e"
| "EncodePayload (ExtendedMsg m) e = ExtendedRequest_EncodePayload m e"
| "EncodePayload (StatusMsg m) e = StatusReply_EncodePayload m e"
| "EncodePayload (HandleReplyMsg m) e = HandleReply_EncodePayload m e"
| "EncodePayload (DataMsg m) e = DataReply_EncodePayload m e"
| "EncodePayload (NameMsg m) e = NameReply_EncodePayload m e"
| "EncodePayload (AttrsMsg m) e = AttrsReply_EncodePayload m e"
| "EncodePayload (ExtendedReplyMsg m) e = ExtendedReply_EncodePayload m e"

subsection \<open>The message contracts\<close>

lemmas payload_defs =
  InitRequest_EncodePayload_def VersionReply_EncodePayload_def PathRequest_EncodePayload_def
  HandleRequest_EncodePayload_def OpenRequest_EncodePayload_def ReadRequest_EncodePayload_def
  WriteRequest_EncodePayload_def SetstatRequest_EncodePayload_def FsetstatRequest_EncodePayload_def
  RenameRequest_EncodePayload_def SymlinkRequest_EncodePayload_def ExtendedRequest_EncodePayload_def
  StatusReply_EncodePayload_def HandleReply_EncodePayload_def DataReply_EncodePayload_def
  NameReply_EncodePayload_def AttrsReply_EncodePayload_def ExtendedReply_EncodePayload_def
  NewEncoder_def

lemmas field_InrEs = u32.bind_InrE u64.bind_InrE blob.bind_InrE str.bind_InrE attrs.bind_InrE
lemmas field_InlEs = u32.bind_InlE u64.bind_InlE blob.bind_InlE str.bind_InlE attrs.bind_InlE

abbreviation payload_of :: "message \<Rightarrow> bytes" where
  "payload_of m \<equiv> EncodePayload m (NewEncoder [])"

lemma dend_InrD: "dend x (dec_at pre xs l) = (Inr y, d') \<Longrightarrow> y = x \<and> xs = []"
  by (auto simp: dend_at split: if_splits)

lemma dend_InlD: "dend x (dec_at pre xs l) = (Inl e, d') \<Longrightarrow> e = ErrTrailing"
  by (auto simp: dend_at split: if_splits)

lemma dend_ok: "\<exists>d'. dend x (dec_at pre [] l) = (Inr x, d')"
  by (simp add: dend_at)

interpretation path_msg: message_codec "\<lambda>m. payload_of (PathMsg m)" "read_path ptype"
  "\<lambda>c m. p_PacketType m = ptype \<and> blob_ok c (p_Path m)" for ptype
  by unfold_locales
    (auto simp: payload_defs read_path_def wire_step
      elim!: field_InrEs field_InlEs dest!: dend_InrD dend_InlD)

interpretation handle_msg: message_codec "\<lambda>m. payload_of (HandleMsg m)" "read_handle ptype"
  "\<lambda>c m. hr_PacketType m = ptype \<and> blob_ok c (hr_Handle m)" for ptype
  by unfold_locales
    (auto simp: payload_defs read_handle_def wire_step
      elim!: field_InrEs field_InlEs dest!: dend_InrD dend_InlD)

interpretation open_msg: message_codec "\<lambda>m. payload_of (OpenMsg m)" read_open
  "\<lambda>c m. blob_ok c (or_Path m) \<and> attrs_ok c (or_Attrs m)"
  by unfold_locales
    (auto simp: payload_defs read_open_def wire_step
      elim!: field_InrEs field_InlEs dest!: dend_InrD dend_InlD)

interpretation read_msg: message_codec "\<lambda>m. payload_of (ReadMsg m)" read_read
  "\<lambda>c m. blob_ok c (rr_Handle m)"
  by unfold_locales
    (auto simp: payload_defs read_read_def wire_step
      elim!: field_InrEs field_InlEs dest!: dend_InrD dend_InlD)

interpretation write_msg: message_codec "\<lambda>m. payload_of (WriteMsg m)" read_write
  "\<lambda>c m. blob_ok c (wr_Handle m) \<and> blob_ok c (wr_Data m)"
  by unfold_locales
    (auto simp: payload_defs read_write_def wire_step
      elim!: field_InrEs field_InlEs dest!: dend_InrD dend_InlD)

interpretation setstat_msg: message_codec "\<lambda>m. payload_of (SetstatMsg m)" "read_setstat ptype"
  "\<lambda>c m. ss_PacketType m = ptype \<and> blob_ok c (ss_Path m) \<and> attrs_ok c (ss_Attrs m)" for ptype
  by unfold_locales
    (auto simp: payload_defs read_setstat_def wire_step
      elim!: field_InrEs field_InlEs dest!: dend_InrD dend_InlD)

interpretation fsetstat_msg: message_codec "\<lambda>m. payload_of (FsetstatMsg m)" read_fsetstat
  "\<lambda>c m. blob_ok c (fs_Handle m) \<and> attrs_ok c (fs_Attrs m)"
  by unfold_locales
    (auto simp: payload_defs read_fsetstat_def wire_step
      elim!: field_InrEs field_InlEs dest!: dend_InrD dend_InlD)

interpretation rename_msg: message_codec "\<lambda>m. payload_of (RenameMsg m)" read_rename
  "\<lambda>c m. blob_ok c (rn_OldPath m) \<and> blob_ok c (rn_NewPath m)"
  by unfold_locales
    (auto simp: payload_defs read_rename_def wire_step
      elim!: field_InrEs field_InlEs dest!: dend_InrD dend_InlD)

interpretation symlink_msg: message_codec "\<lambda>m. payload_of (SymlinkMsg m)" read_symlink
  "\<lambda>c m. blob_ok c (sl_TargetPath m) \<and> blob_ok c (sl_LinkPath m)"
  by unfold_locales
    (auto simp: payload_defs read_symlink_def wire_step
      elim!: field_InrEs field_InlEs dest!: dend_InrD dend_InlD)

interpretation handle_reply_msg: message_codec "\<lambda>m. payload_of (HandleReplyMsg m)" read_handle_reply
  "\<lambda>c m. blob_ok c (hl_Handle m)"
  by unfold_locales
    (auto simp: payload_defs read_handle_reply_def wire_step
      elim!: field_InrEs field_InlEs dest!: dend_InrD dend_InlD)

interpretation data_msg: message_codec "\<lambda>m. payload_of (DataMsg m)" read_data
  "\<lambda>c m. blob_ok c (dr_Data m)"
  by unfold_locales
    (auto simp: payload_defs read_data_def wire_step
      elim!: field_InrEs field_InlEs dest!: dend_InrD dend_InlD)

interpretation attrs_msg: message_codec "\<lambda>m. payload_of (AttrsMsg m)" read_attrs
  "\<lambda>c m. attrs_ok c (ar_Attrs m)"
  by unfold_locales
    (auto simp: payload_defs read_attrs_def wire_step
      elim!: field_InrEs field_InlEs dest!: dend_InrD dend_InlD)

lemma read_rest_at: "read_rest (dec_at pre xs l) = (Inr xs, dec_at pre xs l)"
  using slice_to_end [of pre xs] by (simp add: read_rest_def dec_at_def)

lemma bind_read_rest: "dbind read_rest f (dec_at pre xs l) = f xs (dec_at pre xs l)"
  by (rule dbind_Inr) (rule read_rest_at)

interpretation extended_msg: message_codec "\<lambda>m. payload_of (ExtendedMsg m)" read_extended
  "\<lambda>c m. blob_ok c (er_Name m)"
  by unfold_locales
    (auto simp: payload_defs read_extended_def wire_step bind_read_rest dret_def elim!: field_InrEs field_InlEs)

interpretation extended_reply_msg: message_codec "\<lambda>m. payload_of (ExtendedReplyMsg m)" read_extended_reply
  "\<lambda>_ _. True"
  by unfold_locales
    (auto simp: payload_defs read_extended_reply_def wire_step bind_read_rest dret_def
      elim!: field_InrEs field_InlEs)

definition enc_item :: "NameItem \<Rightarrow> bytes" where
  "enc_item it = enc_str (ni_Filename it) @ enc_str (ni_Longname it) @ enc_attrs (ni_Attrs it)"

definition item_ok :: "nat \<Rightarrow> NameItem \<Rightarrow> bool" where
  "item_ok c it \<longleftrightarrow> blob_ok c (ni_Filename it) \<and> blob_ok c (ni_Longname it) \<and> attrs_ok c (ni_Attrs it)"

lemma encode_items_appends [simp]: "encode_items its e = e @ concat (map enc_item its)"
  by (induction its arbitrary: e) (simp_all add: enc_item_def)

interpretation item: codec enc_item decode_item item_ok
  by unfold_locales
    (auto simp: enc_item_def decode_item_def item_ok_def dret_def str.bind_enc attrs.bind_enc
      elim!: field_InrEs field_InlEs)

lemma items_codec:
  "codec (\<lambda>xs. enc_u32 (word_of_nat (length xs)) @ concat (map enc_item xs))
    (counted maxNameItems decode_item)
    (\<lambda>c xs. length xs \<le> maxNameItems \<and> list_all (item_ok c) xs)"
  by (rule item.counted_codec) (simp add: maxNameItems_def)

interpretation name_msg: message_codec "\<lambda>m. payload_of (NameMsg m)" read_name
  "\<lambda>c m. length (nr_Items m) \<le> maxNameItems \<and> list_all (item_ok c) (nr_Items m)"
  by unfold_locales
    (auto simp: payload_defs read_name_def wire_step codec.bind_enc_end [OF items_codec]
      elim!: field_InrEs field_InlEs codec.bind_InrE [OF items_codec] codec.bind_InlE [OF items_codec]
      dest!: dend_InrD dend_InlD)

subsection \<open>The pairs of INIT and VERSION\<close>

lemma init_loop_enc:
  "length ext + length ps \<le> maxExtendedPairs \<Longrightarrow> list_all (pair_ok (cap_of l)) ps \<Longrightarrow>
     init_loop ext (dec_at pre (concat (map enc_pair ps)) l)
       = (Inr (ext @ ps), dec_at (pre @ concat (map enc_pair ps)) [] l)"
proof (induction ps arbitrary: ext pre)
  case Nil
  then show ?case by (subst init_loop.simps) simp
next
  case (Cons p ps)
  have "init_loop ext (dec_at pre (enc_pair p @ concat (map enc_pair ps)) l)
      = dbind decode_pair (\<lambda>p d'. init_loop (ext @ [p]) d') (dec_at pre (enc_pair p @ concat (map enc_pair ps)) l)"
    using Cons.prems by (subst init_loop.simps) (simp add: enc_pair_def)
  also have "\<dots> = init_loop (ext @ [p]) (dec_at (pre @ enc_pair p) (concat (map enc_pair ps)) l)"
    using Cons.prems by (simp add: pair.bind_enc)
  finally show ?case using Cons by simp
qed

lemma init_loop_dec:
  "init_loop ext (dec_at pre xs l) = (Inr ys, d') \<Longrightarrow> length ext \<le> maxExtendedPairs \<Longrightarrow>
     \<exists>ps. ys = ext @ ps \<and> xs = concat (map enc_pair ps) \<and> length ys \<le> maxExtendedPairs \<and>
       list_all (pair_ok (cap_of l)) ps"
proof (induction "maxExtendedPairs - length ext" arbitrary: ext pre xs rule: less_induct)
  case less
  show ?case
  proof (cases "xs = []")
    case True
    with less.prems show ?thesis by (simp add: init_loop.simps)
  next
    case False
    with less.prems have room: "length ext < maxExtendedPairs"
      and "dbind decode_pair (\<lambda>p d'. init_loop (ext @ [p]) d') (dec_at pre xs l) = (Inr ys, d')"
      by (simp_all add: init_loop.simps [of ext] split: if_splits)
    then obtain p r where p: "xs = enc_pair p @ r" "pair_ok (cap_of l) p"
      and rest: "init_loop (ext @ [p]) (dec_at (pre @ enc_pair p) r l) = (Inr ys, d')"
      by (auto elim: pair.bind_InrE)
    from room have "maxExtendedPairs - length (ext @ [p]) < maxExtendedPairs - length ext"
      and "length (ext @ [p]) \<le> maxExtendedPairs"
      by simp_all
    from less.hyps [OF this(1) rest this(2)] obtain ps where "ys = (ext @ [p]) @ ps"
      "r = concat (map enc_pair ps)" "length ys \<le> maxExtendedPairs" "list_all (pair_ok (cap_of l)) ps"
      by blast
    with p show ?thesis by (intro exI [of _ "p # ps"]) auto
  qed
qed

lemma init_loop_no_panic: "init_loop ext (dec_at pre xs l) \<noteq> (Inl RuntimePanic, d')"
proof (induction "maxExtendedPairs - length ext" arbitrary: ext pre xs rule: less_induct)
  case less
  show ?case
  proof
    assume panic: "init_loop ext (dec_at pre xs l) = (Inl RuntimePanic, d')"
    then have room: "length ext < maxExtendedPairs"
      and "dbind decode_pair (\<lambda>p d'. init_loop (ext @ [p]) d') (dec_at pre xs l) = (Inl RuntimePanic, d')"
      by (simp_all add: init_loop.simps [of ext] split: if_splits)
    then obtain p r where "init_loop (ext @ [p]) (dec_at (pre @ enc_pair p) r l) = (Inl RuntimePanic, d')"
      by (auto elim: pair.bind_InlE)
    with less [of "ext @ [p]"] room show False by simp
  qed
qed

interpretation init_msg: message_codec "\<lambda>m. payload_of (InitMsg m)" read_init
  "\<lambda>c m. length (ir_Extensions m) \<le> maxExtendedPairs \<and> list_all (pair_ok c) (ir_Extensions m)"
proof unfold_locales
  fix l pre and m :: InitRequest
  assume "length (ir_Extensions m) \<le> maxExtendedPairs \<and> list_all (pair_ok (cap_of l)) (ir_Extensions m)"
  then show "\<exists>d'. read_init (dec_at pre (payload_of (InitMsg m)) l) = (Inr m, d')"
    by (simp add: payload_defs read_init_def u32.bind_enc dbind_Inr [of "init_loop []", OF init_loop_enc] dret_def)
next
  fix pre xs l m d'
  assume "read_init (dec_at pre xs l) = (Inr m, d')"
  then show "xs = payload_of (InitMsg m) \<and> length (ir_Extensions m) \<le> maxExtendedPairs \<and>
      list_all (pair_ok (cap_of l)) (ir_Extensions m)"
    by (auto simp: payload_defs read_init_def dret_def elim!: u32.bind_InrE dbind_eq_InrE
        dest!: u32.enc_dec init_loop_dec)
next
  fix pre xs l d'
  show "read_init (dec_at pre xs l) \<noteq> (Inl RuntimePanic, d')"
    by (auto simp: read_init_def dret_def init_loop_no_panic elim!: u32.bind_InlE dbind_eq_InlE
        dest!: u32.enc_dec u32.dec_err)
qed

subsection \<open>STATUS\<close>

definition status_ok :: "nat \<Rightarrow> StatusReply \<Rightarrow> bool" where
  "status_ok c m \<longleftrightarrow> blob_ok c (st_Message m) \<and> blob_ok c (st_Lang m)"

text \<open>The three payloads a peer may send for one status: whole, without language, code only.\<close>

definition status_forms :: "StatusReply \<Rightarrow> bytes set" where
  "status_forms m =
     {payload_of (StatusMsg m)} \<union>
     (if st_Lang m = [] then {enc_u32 (st_ID m) @ enc_u32 (st_Code m) @ enc_str (st_Message m)} else {}) \<union>
     (if st_Lang m = [] \<and> st_Message m = [] then {enc_u32 (st_ID m) @ enc_u32 (st_Code m)} else {})"

lemma read_status_enc:
  assumes "status_ok (cap_of l) m" "bs \<in> status_forms m"
  shows "\<exists>d'. read_status (dec_at pre bs l) = (Inr m, d')"
  using assms
  by (auto simp: status_forms_def status_ok_def payload_defs read_status_def wire_step Let_def split: if_splits)

lemma read_status_dec:
  assumes "read_status (dec_at pre bs l) = (Inr m, d')"
  shows "bs \<in> status_forms m \<and> status_ok (cap_of l) m"
  using assms
  by (auto simp: status_forms_def status_ok_def payload_defs read_status_def Let_def blob_ok_def
      elim!: field_InrEs dest!: dend_InrD split: if_splits)

lemma read_status_no_panic: "read_status (dec_at pre bs l) \<noteq> (Inl RuntimePanic, d')"
  by (auto simp: read_status_def Let_def elim!: field_InlEs dest!: dend_InlD split: if_splits)


subsection \<open>What each decoder accepts\<close>

lemmas Decode_iff =
  path_msg.decode_iff [unfolded path_msg.decode_def, folded DecodePath_def]
  handle_msg.decode_iff [unfolded handle_msg.decode_def, folded DecodeHandle_def]
  open_msg.decode_iff [unfolded open_msg.decode_def, folded DecodeOpen_def]
  read_msg.decode_iff [unfolded read_msg.decode_def, folded DecodeRead_def]
  write_msg.decode_iff [unfolded write_msg.decode_def, folded DecodeWrite_def]
  setstat_msg.decode_iff [unfolded setstat_msg.decode_def, folded DecodeSetstat_def]
  fsetstat_msg.decode_iff [unfolded fsetstat_msg.decode_def, folded DecodeFsetstat_def]
  rename_msg.decode_iff [unfolded rename_msg.decode_def, folded DecodeRename_def]
  symlink_msg.decode_iff [unfolded symlink_msg.decode_def, folded DecodeSymlink_def]
  handle_reply_msg.decode_iff [unfolded handle_reply_msg.decode_def, folded DecodeHandleReply_def]
  data_msg.decode_iff [unfolded data_msg.decode_def, folded DecodeData_def]
  attrs_msg.decode_iff [unfolded attrs_msg.decode_def, folded DecodeAttrs_def]
  extended_msg.decode_iff [unfolded extended_msg.decode_def, folded DecodeExtended_def]
  extended_reply_msg.decode_iff [unfolded extended_reply_msg.decode_def, folded DecodeExtendedReply_def]
  name_msg.decode_iff [unfolded name_msg.decode_def, folded DecodeName_def]
  init_msg.decode_iff [unfolded init_msg.decode_def, folded DecodeInit_def]

lemmas Decode_no_panic =
  path_msg.decode_no_panic [unfolded path_msg.decode_def, folded DecodePath_def]
  handle_msg.decode_no_panic [unfolded handle_msg.decode_def, folded DecodeHandle_def]
  open_msg.decode_no_panic [unfolded open_msg.decode_def, folded DecodeOpen_def]
  read_msg.decode_no_panic [unfolded read_msg.decode_def, folded DecodeRead_def]
  write_msg.decode_no_panic [unfolded write_msg.decode_def, folded DecodeWrite_def]
  setstat_msg.decode_no_panic [unfolded setstat_msg.decode_def, folded DecodeSetstat_def]
  fsetstat_msg.decode_no_panic [unfolded fsetstat_msg.decode_def, folded DecodeFsetstat_def]
  rename_msg.decode_no_panic [unfolded rename_msg.decode_def, folded DecodeRename_def]
  symlink_msg.decode_no_panic [unfolded symlink_msg.decode_def, folded DecodeSymlink_def]
  handle_reply_msg.decode_no_panic [unfolded handle_reply_msg.decode_def, folded DecodeHandleReply_def]
  data_msg.decode_no_panic [unfolded data_msg.decode_def, folded DecodeData_def]
  attrs_msg.decode_no_panic [unfolded attrs_msg.decode_def, folded DecodeAttrs_def]
  extended_msg.decode_no_panic [unfolded extended_msg.decode_def, folded DecodeExtended_def]
  extended_reply_msg.decode_no_panic [unfolded extended_reply_msg.decode_def, folded DecodeExtendedReply_def]
  name_msg.decode_no_panic [unfolded name_msg.decode_def, folded DecodeName_def]
  init_msg.decode_no_panic [unfolded init_msg.decode_def, folded DecodeInit_def]

lemma DecodeVersion_iff: "DecodeVersion payload = Inr m \<longleftrightarrow>
    payload = payload_of (VersionMsg m) \<and> length (vr_Extensions m) \<le> maxExtendedPairs \<and>
    list_all (pair_ok 262144) (vr_Extensions m)"
proof -
  have "DecodeVersion payload = Inr m \<longleftrightarrow>
      DecodeInit payload = Inr \<lparr>ir_Version = vr_Version m, ir_Extensions = vr_Extensions m\<rparr>"
    by (cases "DecodeInit payload"; cases m) (auto simp: DecodeVersion_def)
  then show ?thesis by (auto simp: Decode_iff payload_defs)
qed

lemma DecodeVersion_no_panic: "DecodeVersion payload \<noteq> Inl RuntimePanic"
  using Decode_no_panic(16) [of payload] by (auto simp: DecodeVersion_def split: sum.splits)

lemma DecodeStatus_iff: "DecodeStatus payload = Inr m \<longleftrightarrow> payload \<in> status_forms m \<and> status_ok 262144 m"
proof
  assume "DecodeStatus payload = Inr m"
  then have "read_status (dec_at [] payload 0) = (Inr m, snd (read_status (dec_at [] payload 0)))"
    by (simp add: DecodeStatus_def NewDecoder_at prod_eq_iff)
  from read_status_dec [OF this] show "payload \<in> status_forms m \<and> status_ok 262144 m" by simp
next
  assume "payload \<in> status_forms m \<and> status_ok 262144 m"
  then show "DecodeStatus payload = Inr m"
    using read_status_enc [of 0 m payload "[]"] by (auto simp: DecodeStatus_def NewDecoder_at)
qed

lemma DecodeStatus_no_panic: "DecodeStatus payload \<noteq> Inl RuntimePanic"
proof
  assume "DecodeStatus payload = Inl RuntimePanic"
  then have "read_status (dec_at [] payload 0)
      = (Inl RuntimePanic, snd (read_status (dec_at [] payload 0)))"
    by (simp add: DecodeStatus_def NewDecoder_at prod_eq_iff)
  then show False by (simp add: read_status_no_panic)
qed

subsection \<open>One decoder per packet type\<close>

text \<open>
  \<open>decode_as\<close> applies the decoder a peer uses for each packet type: the server's dispatch for the
  requests, a client for the replies. \<open>message_ok\<close> says what a message must satisfy to be sent
  faithfully: a packet type of its shape, strings no longer than the decoder's ceiling, canonical
  attributes, and no more entries than the counts allow.
\<close>

definition path_types :: "byte set" where
  "path_types = {FxpLstat, FxpStat, FxpOpendir, FxpRemove, FxpRmdir, FxpRealpath, FxpReadlink}"

definition handle_types :: "byte set" where
  "handle_types = {FxpClose, FxpReaddir, FxpFstat}"

definition setstat_types :: "byte set" where
  "setstat_types = {FxpSetstat, FxpMkdir}"

definition decode_as :: "byte \<Rightarrow> bytes \<Rightarrow> (werr + message) option" where
  "decode_as t payload =
     (if t = FxpInit then Some (map_sum id InitMsg (DecodeInit payload))
      else if t = FxpVersion then Some (map_sum id VersionMsg (DecodeVersion payload))
      else if t \<in> path_types then Some (map_sum id PathMsg (DecodePath t payload))
      else if t \<in> handle_types then Some (map_sum id HandleMsg (DecodeHandle t payload))
      else if t = FxpOpen then Some (map_sum id OpenMsg (DecodeOpen payload))
      else if t = FxpRead then Some (map_sum id ReadMsg (DecodeRead payload))
      else if t = FxpWrite then Some (map_sum id WriteMsg (DecodeWrite payload))
      else if t \<in> setstat_types then Some (map_sum id SetstatMsg (DecodeSetstat t payload))
      else if t = FxpFsetstat then Some (map_sum id FsetstatMsg (DecodeFsetstat payload))
      else if t = FxpRename then Some (map_sum id RenameMsg (DecodeRename payload))
      else if t = FxpSymlink then Some (map_sum id SymlinkMsg (DecodeSymlink payload))
      else if t = FxpExtended then Some (map_sum id ExtendedMsg (DecodeExtended payload))
      else if t = FxpStatus then Some (map_sum id StatusMsg (DecodeStatus payload))
      else if t = FxpHandle then Some (map_sum id HandleReplyMsg (DecodeHandleReply payload))
      else if t = FxpData then Some (map_sum id DataMsg (DecodeData payload))
      else if t = FxpName then Some (map_sum id NameMsg (DecodeName payload))
      else if t = FxpAttrs then Some (map_sum id AttrsMsg (DecodeAttrs payload))
      else if t = FxpExtendedReply then Some (map_sum id ExtendedReplyMsg (DecodeExtendedReply payload))
      else None)"

fun message_ok :: "nat \<Rightarrow> message \<Rightarrow> bool" where
  "message_ok c (InitMsg m) \<longleftrightarrow> length (ir_Extensions m) \<le> maxExtendedPairs \<and> list_all (pair_ok c) (ir_Extensions m)"
| "message_ok c (VersionMsg m) \<longleftrightarrow> length (vr_Extensions m) \<le> maxExtendedPairs \<and> list_all (pair_ok c) (vr_Extensions m)"
| "message_ok c (PathMsg m) \<longleftrightarrow> p_PacketType m \<in> path_types \<and> blob_ok c (p_Path m)"
| "message_ok c (HandleMsg m) \<longleftrightarrow> hr_PacketType m \<in> handle_types \<and> blob_ok c (hr_Handle m)"
| "message_ok c (OpenMsg m) \<longleftrightarrow> blob_ok c (or_Path m) \<and> attrs_ok c (or_Attrs m)"
| "message_ok c (ReadMsg m) \<longleftrightarrow> blob_ok c (rr_Handle m)"
| "message_ok c (WriteMsg m) \<longleftrightarrow> blob_ok c (wr_Handle m) \<and> blob_ok c (wr_Data m)"
| "message_ok c (SetstatMsg m) \<longleftrightarrow> ss_PacketType m \<in> setstat_types \<and> blob_ok c (ss_Path m) \<and> attrs_ok c (ss_Attrs m)"
| "message_ok c (FsetstatMsg m) \<longleftrightarrow> blob_ok c (fs_Handle m) \<and> attrs_ok c (fs_Attrs m)"
| "message_ok c (RenameMsg m) \<longleftrightarrow> blob_ok c (rn_OldPath m) \<and> blob_ok c (rn_NewPath m)"
| "message_ok c (SymlinkMsg m) \<longleftrightarrow> blob_ok c (sl_TargetPath m) \<and> blob_ok c (sl_LinkPath m)"
| "message_ok c (ExtendedMsg m) \<longleftrightarrow> blob_ok c (er_Name m)"
| "message_ok c (StatusMsg m) \<longleftrightarrow> blob_ok c (st_Message m) \<and> blob_ok c (st_Lang m)"
| "message_ok c (HandleReplyMsg m) \<longleftrightarrow> blob_ok c (hl_Handle m)"
| "message_ok c (DataMsg m) \<longleftrightarrow> blob_ok c (dr_Data m)"
| "message_ok c (NameMsg m) \<longleftrightarrow> length (nr_Items m) \<le> maxNameItems \<and> list_all (item_ok c) (nr_Items m)"
| "message_ok c (AttrsMsg m) \<longleftrightarrow> attrs_ok c (ar_Attrs m)"
| "message_ok c (ExtendedReplyMsg m) \<longleftrightarrow> True"

lemmas packet_type_sets = path_types_def handle_types_def setstat_types_def

lemma map_sum_eq_Inr: "map_sum id f x = Inr z \<longleftrightarrow> (\<exists>y. x = Inr y \<and> z = f y)"
  by (cases x) auto

lemma map_sum_eq_panic: "map_sum id f x = Inl RuntimePanic \<longleftrightarrow> x = Inl RuntimePanic"
  by (cases x) auto

lemma decode_as_Inr:
  "decode_as t payload = Some (Inr m) \<longleftrightarrow> Message_Type m = t \<and> message_ok 262144 m \<and>
     (payload = payload_of m \<or> (\<exists>s. m = StatusMsg s \<and> payload \<in> status_forms s))"
  by (cases m)
    (auto simp: decode_as_def map_sum_eq_Inr Decode_iff DecodeVersion_iff DecodeStatus_iff
      status_ok_def status_forms_def packet_type_sets)

lemma decode_as_panic: "decode_as t payload \<noteq> Some (Inl RuntimePanic)"
  by (simp add: decode_as_def map_sum_eq_panic Decode_no_panic DecodeVersion_no_panic DecodeStatus_no_panic)

text \<open>C8: Every message of the protocol survives the wire. For each packet type, encoding an
acceptable message and decoding the payload with that type's decoder gives the same message back, all
its fields included.\<close>

theorem message_roundtrip:
  assumes "message_ok 262144 m"
  shows "decode_as (Message_Type m) (payload_of m) = Some (Inr m)"
  using assms by (simp add: decode_as_Inr)

theorem message_roundtrip_witness:
  "decode_as FxpRename (payload_of (RenameMsg \<lparr>rn_ID = 9, rn_OldPath = ''/a'', rn_NewPath = ''/b/c''\<rparr>))
     = Some (Inr (RenameMsg \<lparr>rn_ID = 9, rn_OldPath = ''/a'', rn_NewPath = ''/b/c''\<rparr>))"
  using message_roundtrip [of "RenameMsg \<lparr>rn_ID = 9, rn_OldPath = ''/a'', rn_NewPath = ''/b/c''\<rparr>"]
  by (simp add: blob_ok_def del: EncodePayload.simps)

text \<open>C14: The decoders accept nothing else. A payload that a decoder takes is, byte for byte, what
the encoder writes for the message it returned, with nothing left over, and that message respects the
ceilings on string lengths, extension pairs and name items. The one exception is a \<^verbatim>\<open>STATUS\<close>, which
may also come without its language or without its message and language.\<close>

theorem decoders_accept_only_encodings:
  assumes "decode_as t payload = Some (Inr m)"
  shows "Message_Type m = t \<and> message_ok 262144 m \<and>
     (payload = payload_of m \<or> (\<exists>s. m = StatusMsg s \<and> payload \<in> status_forms s))"
  using assms by (simp add: decode_as_Inr)

theorem decoders_accept_only_encodings_witness:
  "[0, 0, 0, 1, 0, 0, 0, 0] \<in> status_forms \<lparr>st_ID = 1, st_Code = 0, st_Message = '''', st_Lang = ''''\<rparr>"
proof -
  let ?s = "\<lparr>st_ID = 1, st_Code = 0, st_Message = '''', st_Lang = ''''\<rparr>"
  have "DecodeStatus [0, 0, 0, 1, 0, 0, 0, 0] = Inr ?s" by code_simp
  then have "decode_as FxpStatus [0, 0, 0, 1, 0, 0, 0, 0] = Some (Inr (StatusMsg ?s))"
    by (simp add: decode_as_def packet_type_sets)
  from decoders_accept_only_encodings [OF this] show ?thesis
    by (auto simp: status_forms_def)
qed

text \<open>C15: No payload, however short, long or malformed, makes any of the decoders panic: each one
returns a message or an error of the package.\<close>

theorem decoders_never_panic: "decode_as t payload \<noteq> Some (Inl RuntimePanic)"
  by (rule decode_as_panic)

end
