(* ===== verification/Wire_Packet.thy ===== *)
theory Wire_Packet
  imports Wire_Messages
begin

text \<open>
  Packet framing, \<^verbatim>\<open>wire/packet.go\<close> and \<^verbatim>\<open>Send\<close> of \<^verbatim>\<open>wire/messages.go\<close>. A reader is the bytes
  still to arrive and the error it reports after them; a writer records each \<^verbatim>\<open>Write\<close> call. The
  buffers a caller recycles matter only by their capacity, which is what the model keeps of them:
  their old contents are overwritten before they are read.
\<close>

datatype ioerr = EOF | ErrUnexpectedEOF | OtherIO string

datatype perr = ErrPacketTooLarge | ErrPacketEmpty | ErrIO ioerr | ErrPanic

record reader =
  rd_data :: bytes
  rd_err :: ioerr

record writer =
  w_calls :: "bytes list"
  w_err :: "ioerr option"

definition MaxPacket :: int where
  [simp]: "MaxPacket = 266240"

text \<open>\<^verbatim>\<open>io.ReadFull\<close>: an early end is \<^verbatim>\<open>io.EOF\<close> only when nothing at all was read.\<close>

definition ReadFull :: "nat \<Rightarrow> reader \<Rightarrow> (ioerr + bytes) \<times> reader" where
  "ReadFull n r =
     (if n \<le> length (rd_data r) then (Inr (take n (rd_data r)), r\<lparr>rd_data := drop n (rd_data r)\<rparr>)
      else if rd_data r = [] then (Inl (rd_err r), r)
      else (Inl (if rd_err r = EOF then ErrUnexpectedEOF else rd_err r), r\<lparr>rd_data := []\<rparr>))"

text \<open>
  \<open>ReadPacket r cap lim\<close> returns the type and the payload or an error, the capacity of the buffer
  handed back, and the reader.
\<close>

definition ReadPacket :: "reader \<Rightarrow> nat \<Rightarrow> int \<Rightarrow> (perr + byte \<times> bytes) \<times> nat \<times> reader" where
  "ReadPacket r cap lim =
     (let lim = (if lim \<le> 0 then MaxPacket else lim) in
      case ReadFull 4 r of
        (Inl err, r) \<Rightarrow> (Inl (ErrIO err), cap, r)
      | (Inr hdr, r) \<Rightarrow>
          let n = unat (be_val hdr :: u32) in
          if n = 0 then (Inl ErrPacketEmpty, cap, r)
          else if int n > lim then (Inl ErrPacketTooLarge, cap, r)
          else
            let cap = (if cap < n then n else cap) in
            (case ReadFull n r of
               (Inl err, r) \<Rightarrow>
                 (Inl (ErrIO (if err = EOF then ErrUnexpectedEOF else err)), cap, r)
             | (Inr body, r) \<Rightarrow>
                 (case body of
                    [] \<Rightarrow> (Inl ErrPanic, cap, r)
                  | t # payload \<Rightarrow> (Inr (t, payload), cap, r))))"

definition frame_of :: "byte \<Rightarrow> bytes \<Rightarrow> bytes" where
  "frame_of t payload = be_bytes 4 (word_of_nat (1 + length payload) :: u32) @ t # payload"

definition WritePacket :: "writer \<Rightarrow> byte \<Rightarrow> bytes \<Rightarrow> nat \<Rightarrow> (nat \<times> perr option) \<times> writer" where
  "WritePacket w t payload cap =
     (let total = 1 + length payload in
      if int total > MaxPacket then ((cap, Some ErrPacketTooLarge), w)
      else
        let need = 4 + total; cap = (if cap < need then need else cap) in
        ((cap, map_option ErrIO (w_err w)), w\<lparr>w_calls := w_calls w @ [frame_of t payload]\<rparr>))"

definition Send :: "writer \<Rightarrow> message \<Rightarrow> nat \<Rightarrow> (nat \<times> perr option) \<times> writer" where
  "Send w m cap = WritePacket w (Message_Type m) (Encoder_Bytes (EncodePayload m (NewEncoder []))) cap"

subsection \<open>Reading what was framed\<close>

lemma length_frame_of [simp]: "length (frame_of t payload) = 5 + length payload"
  by (simp add: frame_of_def)

lemma frame_of_prefix:
  assumes "int (1 + length payload) \<le> MaxPacket"
  shows "unat (be_val (take 4 (frame_of t payload)) :: u32) = 1 + length payload"
  using assms unat_be32_of_nat [of "1 + length payload"] by (simp add: frame_of_def)

definition limit_of :: "int \<Rightarrow> int" where
  "limit_of lim = (if lim \<le> 0 then MaxPacket else lim)"

lemma ReadPacket_frame:
  assumes "int (1 + length payload) \<le> MaxPacket" "int (1 + length payload) \<le> limit_of lim"
    and "rd_data r = frame_of t payload @ rest"
  shows "ReadPacket r cap lim =
    (Inr (t, payload), (if cap < 1 + length payload then 1 + length payload else cap), r\<lparr>rd_data := rest\<rparr>)"
proof -
  have hdr: "ReadFull 4 r = (Inr (take 4 (frame_of t payload)), r\<lparr>rd_data := t # payload @ rest\<rparr>)"
    by (simp add: ReadFull_def assms(3) frame_of_def)
  have body: "ReadFull (1 + length payload) (r\<lparr>rd_data := t # payload @ rest\<rparr>)
      = (Inr (t # payload), r\<lparr>rd_data := rest\<rparr>)"
    by (simp add: ReadFull_def)
  show ?thesis
    using assms(2) unfolding ReadPacket_def Let_def hdr prod.case sum.case
      frame_of_prefix [OF assms(1)] body
    by (simp add: limit_of_def)
qed

text \<open>What a writer was given, packet by packet, is what a reader takes apart again.\<close>

primrec read_packets :: "nat \<Rightarrow> int \<Rightarrow> reader \<Rightarrow> perr + (byte \<times> bytes) list" where
  "read_packets 0 lim r = Inr []"
| "read_packets (Suc k) lim r =
     (case ReadPacket r 0 lim of
        (Inl e, _, _) \<Rightarrow> Inl e
      | (Inr p, _, r) \<Rightarrow> map_sum id (\<lambda>ps. p # ps) (read_packets k lim r))"

lemma read_packets_frames:
  assumes "\<forall>(t, payload) \<in> set ps. int (1 + length payload) \<le> min MaxPacket (limit_of lim)"
    and "rd_data r = concat (map (\<lambda>(t, payload). frame_of t payload) ps) @ rest"
  shows "read_packets (length ps) lim r = Inr ps"
  using assms
proof (induction ps arbitrary: r)
  case (Cons p ps)
  obtain t payload where p: "p = (t, payload)" by (cases p)
  have "ReadPacket r 0 lim = (Inr (t, payload), 1 + length payload,
      r\<lparr>rd_data := concat (map (\<lambda>(t, payload). frame_of t payload) ps) @ rest\<rparr>)"
    using Cons.prems p by (subst ReadPacket_frame) auto
  with Cons p show ?case by simp
qed simp

subsection \<open>Every outcome of ReadPacket\<close>

lemma ReadFull_cases:
  obtains (full) "n \<le> length (rd_data r)"
      "ReadFull n r = (Inr (take n (rd_data r)), r\<lparr>rd_data := drop n (rd_data r)\<rparr>)"
  | (none) "length (rd_data r) < n" "rd_data r = []" "ReadFull n r = (Inl (rd_err r), r)"
  | (part) "length (rd_data r) < n" "rd_data r \<noteq> []"
      "ReadFull n r = (Inl (if rd_err r = EOF then ErrUnexpectedEOF else rd_err r), r\<lparr>rd_data := []\<rparr>)"
  by (cases "n \<le> length (rd_data r)"; cases "rd_data r = []") (auto simp: ReadFull_def)

lemma ReadPacket_eof:
  "fst (ReadPacket r cap lim) = Inl (ErrIO EOF) \<longleftrightarrow> rd_data r = [] \<and> rd_err r = EOF"
  by (cases rule: ReadFull_cases [of 4 r])
    (auto simp: ReadPacket_def Let_def split: sum.splits prod.splits list.splits)

lemma ReadPacket_no_panic: "fst (ReadPacket r cap lim) \<noteq> Inl ErrPanic"
  by (cases rule: ReadFull_cases [of 4 r])
    (auto simp: ReadPacket_def Let_def ReadFull_def split: sum.splits prod.splits list.splits if_splits)

lemma ReadPacket_cap:
  "int (fst (snd (ReadPacket r cap lim))) \<le> max (int cap) (limit_of lim)"
  by (auto simp: ReadPacket_def Let_def limit_of_def split: sum.splits prod.splits list.splits if_splits)

lemma ReadPacket_consumes:
  assumes "ReadPacket r cap lim = (Inr (t, payload), cap', r')"
  shows "rd_data r = frame_of t payload @ rd_data r' \<and> int (1 + length payload) \<le> limit_of lim
    \<and> rd_err r' = rd_err r"
  using assms
proof (cases rule: ReadFull_cases [of 4 r])
  case full
  define hdr where "hdr = take 4 (rd_data r)"
  define n where "n = unat (be_val hdr :: u32)"
  define r1 where "r1 = r\<lparr>rd_data := drop 4 (rd_data r)\<rparr>"
  have hdr: "length hdr = 4" using full by (simp add: hdr_def)
  have n0: "n \<noteq> 0" and nmax: "int n \<le> limit_of lim"
    and body: "n \<le> length (rd_data r1)" "t # payload = take n (rd_data r1)"
    and r': "r' = r1\<lparr>rd_data := drop n (rd_data r1)\<rparr>"
    using assms unfolding ReadPacket_def Let_def full(2) prod.case sum.case
      hdr_def [symmetric] n_def [symmetric] r1_def [symmetric]
    by (cases rule: ReadFull_cases [of n r1];
        auto simp: limit_of_def split: if_splits list.splits)+
  have len: "1 + length payload = n"
    using body by (metis One_nat_def add.commute length_Cons length_take min.absorb2 plus_1_eq_Suc)
  have "be_bytes 4 (word_of_nat n :: u32) = hdr"
    using hdr by (simp add: n_def be32_bytes)
  then have "frame_of t payload = hdr @ take n (rd_data r1)"
    by (simp add: frame_of_def len body flip: len)
  then show ?thesis
    using nmax len by (simp add: r' r1_def hdr_def del: drop_drop)
qed (auto simp: ReadPacket_def Let_def)

lemma ReadPacket_too_large:
  assumes "4 \<le> length (rd_data r)"
    and "limit_of lim < int (unat (be_val (take 4 (rd_data r)) :: u32))"
  shows "ReadPacket r cap lim = (Inl ErrPacketTooLarge, cap, r\<lparr>rd_data := drop 4 (rd_data r)\<rparr>)"
proof -
  have "0 < limit_of lim" by (simp add: limit_of_def)
  with assms(2) have "unat (be_val (take 4 (rd_data r)) :: u32) \<noteq> 0" by linarith
  with assms show ?thesis
    by (simp add: ReadPacket_def ReadFull_def Let_def limit_of_def)
qed

text \<open>C16: Framing is lossless and self-delimiting. However many packets were written one after
the other, a reader whose limit admits them takes exactly those packets off the stream, in order and
each with its own type and payload, whatever follows them.\<close>

theorem packet_stream_roundtrip:
  assumes "\<forall>(t, payload) \<in> set ps. int (1 + length payload) \<le> min MaxPacket (limit_of lim)"
  shows "let w = foldl (\<lambda>w (t, payload). snd (WritePacket w t payload 0)) \<lparr>w_calls = [], w_err = None\<rparr> ps
         in read_packets (length ps) lim \<lparr>rd_data = concat (w_calls w) @ rest, rd_err = e\<rparr> = Inr ps"
proof -
  have "w_calls (foldl (\<lambda>w (t, payload). snd (WritePacket w t payload 0)) w ps)
      = w_calls w @ map (\<lambda>(t, payload). frame_of t payload) ps" for w
    using assms by (induction ps arbitrary: w) (auto simp: WritePacket_def Let_def)
  then show ?thesis
    using read_packets_frames [OF assms] by (simp add: Let_def)
qed

theorem packet_stream_roundtrip_witness:
  "let ps = [(5, [1, 2, 3]), (101, [])];
       w = foldl (\<lambda>w (t, payload). snd (WritePacket w t payload 0)) \<lparr>w_calls = [], w_err = None\<rparr> ps
   in read_packets (length ps) 100 \<lparr>rd_data = concat (w_calls w) @ [7], rd_err = EOF\<rparr> = Inr ps"
  using packet_stream_roundtrip [of "[(5, [1, 2, 3]), (101, [])]" 100 "[7]" EOF]
  by (simp add: limit_of_def Let_def del: read_packets.simps)

text \<open>C26: \<^verbatim>\<open>ReadPacket\<close> is exact. It yields a type and a payload only when the stream began with
the frame of exactly that packet and the frame is within the limit, and it leaves the stream right
behind that frame; it reports \<^verbatim>\<open>io.EOF\<close> only at the clean end of a stream, that is when no byte at
all was left; it never indexes an empty body; and the buffer it hands back never grows past the limit,
whatever length the peer announced.\<close>

theorem ReadPacket_exact:
  "(\<forall>t payload cap' r'. ReadPacket r cap lim = (Inr (t, payload), cap', r') \<longrightarrow>
       rd_data r = frame_of t payload @ rd_data r' \<and> int (1 + length payload) \<le> limit_of lim)
   \<and> (fst (ReadPacket r cap lim) = Inl (ErrIO EOF) \<longleftrightarrow> rd_data r = [] \<and> rd_err r = EOF)
   \<and> fst (ReadPacket r cap lim) \<noteq> Inl ErrPanic
   \<and> int (fst (snd (ReadPacket r cap lim))) \<le> max (int cap) (limit_of lim)"
  using ReadPacket_consumes ReadPacket_eof ReadPacket_no_panic ReadPacket_cap by blast

theorem ReadPacket_exact_witness:
  "rd_data \<lparr>rd_data = [0, 0, 0, 2, 9, 8, 7], rd_err = EOF\<rparr> = frame_of 9 [8] @ [7]"
proof -
  let ?r = "\<lparr>rd_data = [0, 0, 0, 2, 9, 8, 7], rd_err = EOF\<rparr>"
  have "ReadPacket ?r 0 0 = (Inr (9, [8]), 2, \<lparr>rd_data = [7], rd_err = EOF\<rparr>)" by code_simp
  with ReadPacket_exact [of ?r 0 0] show ?thesis by auto
qed

end
