(* ===== verification/Server.thy ===== *)
theory Server
  imports MemFS Wire_Packet
begin

text \<open>
  The server object and its configuration, \<^verbatim>\<open>server.go\<close>, \<^verbatim>\<open>limits.go\<close>, the capability probe of
  \<^verbatim>\<open>file.go\<close> and the advertised extensions of \<^verbatim>\<open>copydata.go\<close>. The pool and the filesystem lock of the
  \<^verbatim>\<open>inflight\<close> module are outside the repository and carry no data the server reads; taking and
  releasing the lock are events of the trace.
\<close>

type_synonym 'w opener = "string \<Rightarrow> 'w \<Rightarrow> (File option \<times> error) \<times> 'w"

record 'w Server =
  sv_fsys :: "'w Filesystem"
  sv_opener :: "'w opener option"
  sv_ro :: bool
  sv_maxPacket :: int
  sv_start :: u32
  sv_maxInFlight :: int
  sv_maxTotal :: int
  sv_packetWait :: int
  sv_pathConcurrent :: bool

datatype newerr = ErrNilFilesystem

definition openerFor :: "'w Filesystem \<Rightarrow> 'w opener option" where
  "openerFor fsys = F_Opener fsys"

definition DefaultMaxInFlight :: int where
  "DefaultMaxInFlight = 64"

definition MaxInFlightLimit :: int where
  "MaxInFlightLimit = 1024"

definition DefaultMaxInFlightTotal :: int where
  "DefaultMaxInFlightTotal = 256"

text \<open>A \<^verbatim>\<open>time.Duration\<close> counts nanoseconds.\<close>

definition DefaultPacketTimeout :: int where
  "DefaultPacketTimeout = 30 * 1000000000"

type_synonym 'w Option = "'w Server \<Rightarrow> 'w Server"

definition WithMaxInFlight :: "int \<Rightarrow> 'w Option" where
  "WithMaxInFlight n s = s\<lparr>sv_maxInFlight := min n MaxInFlightLimit\<rparr>"

definition WithMaxInFlightTotal :: "int \<Rightarrow> 'w Option" where
  "WithMaxInFlightTotal n s = s\<lparr>sv_maxTotal := n\<rparr>"

definition WithPacketTimeout :: "int \<Rightarrow> 'w Option" where
  "WithPacketTimeout d s = s\<lparr>sv_packetWait := d\<rparr>"

definition packetTimeout :: "'w Server \<Rightarrow> int" where
  "packetTimeout s =
     (if sv_packetWait s = 0 then DefaultPacketTimeout
      else if sv_packetWait s < 0 then 0
      else sv_packetWait s)"

definition PathOpsConcurrent :: "'w Option" where
  "PathOpsConcurrent s = s\<lparr>sv_pathConcurrent := True\<rparr>"

definition ReadWrite :: "'w Option" where
  "ReadWrite s = s\<lparr>sv_ro := False\<rparr>"

definition WithMaxPacket :: "int \<Rightarrow> 'w Option" where
  "WithMaxPacket n s = s\<lparr>sv_maxPacket := n\<rparr>"

text \<open>\<open>now\<close> is the reading of the clock, \<^verbatim>\<open>time.Now().Unix()\<close>.\<close>

definition New :: "i64 \<Rightarrow> 'w Filesystem option \<Rightarrow> 'w Option list \<Rightarrow> newerr + 'w Server" where
  "New now fsys opts =
     (case fsys of
        None \<Rightarrow> Inl ErrNilFilesystem
      | Some fsys \<Rightarrow>
          let s = \<lparr>sv_fsys = fsys, sv_opener = openerFor fsys, sv_ro = True, sv_maxPacket = 0,
                sv_start = ucast now, sv_maxInFlight = 0, sv_maxTotal = 0, sv_packetWait = 0,
                sv_pathConcurrent = False\<rparr>;
              s = foldl (\<lambda>s opt. opt s) s opts
          in Inr (if sv_maxTotal s \<le> 0 then s\<lparr>sv_maxTotal := DefaultMaxInFlightTotal\<rparr> else s))"

definition ReadOnly :: "'w Server \<Rightarrow> bool" where
  "ReadOnly s = sv_ro s"

text \<open>The number of requests one session may have in progress, computed at the start of \<^verbatim>\<open>Serve\<close>.\<close>

definition inFlight :: "'w Server \<Rightarrow> int" where
  "inFlight s = (let n = sv_maxInFlight s in if n \<le> 0 then DefaultMaxInFlight else n)"

definition packetLimit :: "'w Server \<Rightarrow> int" where
  "packetLimit s = (if sv_maxPacket s \<le> 0 then MaxPacket else sv_maxPacket s)"

subsection \<open>Limits\<close>

definition limitsExtension :: string where
  "limitsExtension = ''limits@openssh.com''"

definition maxReadLength :: int where
  "maxReadLength = 256 * 1024 - 1024"

definition maxOpenHandles :: nat where
  "maxOpenHandles = 1024"

definition errTooManyHandles :: string where
  "errTooManyHandles = ''too many open handles''"

definition handleBytes :: nat where
  "handleBytes = 16"

definition readLength :: "'w Server \<Rightarrow> int" where
  "readLength s = min maxReadLength (packetLimit s)"

definition writeOverhead :: int where
  "writeOverhead = 4 + 1 + 4 + (4 + 2 * int handleBytes) + 8 + 4"

definition writeLength :: "'w Server \<Rightarrow> int" where
  "writeLength s = max (min maxReadLength (packetLimit s - writeOverhead)) 1"

definition limitsReply :: "'w Server \<Rightarrow> u32 \<Rightarrow> message" where
  "limitsReply srv rid =
     (let data = [];
          data = data @ be_bytes 8 (word_of_int (packetLimit srv) :: u64);
          data = data @ be_bytes 8 (word_of_int (readLength srv) :: u64);
          data = data @ be_bytes 8 (word_of_int (writeLength srv) :: u64);
          data = data @ be_bytes 8 (word_of_nat maxOpenHandles :: u64)
      in ExtendedReplyMsg \<lparr>xr_ID = rid, xr_Data = data\<rparr>)"

subsection \<open>Advertised extensions\<close>

definition copyDataExtension :: string where
  "copyDataExtension = ''copy-data''"

definition copiesData :: "'w Server \<Rightarrow> bool" where
  "copiesData s \<longleftrightarrow> F_Opener (sv_fsys s) \<noteq> None \<and> \<not> sv_ro s"

definition extensions :: "'w Server \<Rightarrow> ExtendedPair list" where
  "extensions s =
     (let ext = [\<lparr>ep_Type = limitsExtension, ep_Data = ''1''\<rparr>] in
      if copiesData s then ext @ [\<lparr>ep_Type = copyDataExtension, ep_Data = ''1''\<rparr>] else ext)"

subsection \<open>What the configuration guarantees\<close>

lemma foldl_options_inv:
  assumes "\<And>s opt. opt \<in> set opts \<Longrightarrow> P s \<Longrightarrow> P (opt s)" "P s"
  shows "P (foldl (\<lambda>s opt. opt s) s opts)"
  using assms by (induction opts arbitrary: s) auto

lemma packetLimit_pos: "0 < packetLimit s"
  by (simp add: packetLimit_def)

lemma readLength_bounds: "0 < readLength s" "readLength s \<le> maxReadLength" "readLength s \<le> packetLimit s"
  using packetLimit_pos [of s] by (simp_all add: readLength_def maxReadLength_def)

lemma writeLength_bounds: "1 \<le> writeLength s" "writeLength s \<le> maxReadLength"
  by (simp_all add: writeLength_def maxReadLength_def)

lemma writeLength_fits: "writeOverhead < packetLimit s \<Longrightarrow> writeLength s + writeOverhead \<le> packetLimit s"
  by (simp add: writeLength_def writeOverhead_def handleBytes_def)

lemma write_frame_length:
  "length (wr_Handle m) = 2 * handleBytes \<Longrightarrow>
     int (length (frame_of FxpWrite (payload_of (WriteMsg m)))) = writeOverhead + int (length (wr_Data m))"
  by (simp add: payload_defs writeOverhead_def handleBytes_def)

lemma data_frame_length:
  "length (frame_of FxpData (payload_of (DataMsg m))) = 13 + length (dr_Data m)"
  by (simp add: payload_defs)

definition bundled_option :: "'w Option \<Rightarrow> bool" where
  "bundled_option opt \<longleftrightarrow> (\<exists>n. opt = WithMaxInFlight n \<or> opt = WithMaxInFlightTotal n \<or>
     opt = WithPacketTimeout n \<or> opt = WithMaxPacket n \<or> opt = PathOpsConcurrent \<or> opt = ReadWrite)"

lemmas option_defs = WithMaxInFlight_def WithMaxInFlightTotal_def WithPacketTimeout_def
  WithMaxPacket_def PathOpsConcurrent_def ReadWrite_def

lemma New_inv:
  assumes "New now (Some fsys) opts = Inr s" "\<forall>opt \<in> set opts. bundled_option opt"
  shows "sv_fsys s = fsys" "sv_opener s = F_Opener fsys" "0 < sv_maxTotal s"
    "sv_maxInFlight s \<le> MaxInFlightLimit" "ReadWrite \<notin> set opts \<Longrightarrow> sv_ro s"
proof -
  define s0 where "s0 = \<lparr>sv_fsys = fsys, sv_opener = openerFor fsys, sv_ro = True, sv_maxPacket = 0,
    sv_start = ucast now, sv_maxInFlight = 0, sv_maxTotal = 0, sv_packetWait = 0, sv_pathConcurrent = False\<rparr>"
  define s1 where "s1 = foldl (\<lambda>s opt. opt s) s0 opts"
  have s: "s = (if sv_maxTotal s1 \<le> 0 then s1\<lparr>sv_maxTotal := DefaultMaxInFlightTotal\<rparr> else s1)"
    unfolding s1_def s0_def using assms(1) by (simp only: New_def Let_def option.case sum.inject)
  have "sv_fsys s1 = fsys \<and> sv_opener s1 = F_Opener fsys \<and> sv_maxInFlight s1 \<le> MaxInFlightLimit"
    unfolding s1_def
  proof (rule foldl_options_inv)
    fix s :: "'a Server" and opt
    assume "opt \<in> set opts" "sv_fsys s = fsys \<and> sv_opener s = F_Opener fsys \<and> sv_maxInFlight s \<le> MaxInFlightLimit"
    then show "sv_fsys (opt s) = fsys \<and> sv_opener (opt s) = F_Opener fsys \<and> sv_maxInFlight (opt s) \<le> MaxInFlightLimit"
      using assms(2) by (auto simp: bundled_option_def option_defs)
  qed (simp add: s0_def openerFor_def MaxInFlightLimit_def)
  then show "sv_fsys s = fsys" "sv_opener s = F_Opener fsys" "sv_maxInFlight s \<le> MaxInFlightLimit"
    by (simp_all add: s)
  show "0 < sv_maxTotal s"
    by (simp add: s DefaultMaxInFlightTotal_def)
  assume rw: "ReadWrite \<notin> set opts"
  have "sv_ro s1"
    unfolding s1_def
  proof (rule foldl_options_inv)
    fix s :: "'a Server" and opt
    assume "opt \<in> set opts" "sv_ro s"
    with rw assms(2) have "opt \<noteq> ReadWrite" "bundled_option opt" by auto
    then show "sv_ro (opt s)"
      using \<open>sv_ro s\<close> by (auto simp: bundled_option_def option_defs)
  qed (simp add: s0_def)
  then show "sv_ro s" by (simp add: s)
qed

text \<open>C39: A server is configured the way its options say, and safely where they are silent. Built
with any of the package's options, it exports the filesystem it was given and uses its random access
capability if it has one, it is read-only unless \<^verbatim>\<open>ReadWrite\<close> was among them, the server-wide number
of requests in flight is positive and the number per session lies between 1 and 1024. Without a
filesystem there is no server.\<close>

theorem server_configured:
  assumes "\<forall>opt \<in> set opts. bundled_option opt"
  shows "New now None opts = Inl ErrNilFilesystem
    \<and> (\<exists>s. New now (Some fsys) opts = Inr s \<and> sv_fsys s = fsys \<and> sv_opener s = F_Opener fsys
         \<and> (ReadWrite \<notin> set opts \<longrightarrow> ReadOnly s) \<and> 0 < sv_maxTotal s
         \<and> 1 \<le> inFlight s \<and> inFlight s \<le> MaxInFlightLimit \<and> 0 < packetLimit s)"
proof -
  obtain s where s: "New now (Some fsys) opts = Inr s" by (simp add: New_def Let_def)
  have "1 \<le> inFlight s \<and> inFlight s \<le> MaxInFlightLimit"
    using New_inv(4) [OF s assms]
    by (auto simp: inFlight_def Let_def DefaultMaxInFlight_def MaxInFlightLimit_def)
  with s New_inv [OF s assms] packetLimit_pos show ?thesis
    by (auto simp: New_def [of _ None] ReadOnly_def)
qed

theorem server_configured_witness:
  "\<exists>s. New 5 (Some bareFS) [WithMaxInFlight 5000, WithMaxPacket (-3)] = Inr s \<and> ReadOnly s \<and> inFlight s \<le> 1024"
proof -
  have "\<forall>opt \<in> set [WithMaxInFlight 5000, WithMaxPacket (-3)]. bundled_option opt"
    by (auto simp: bundled_option_def)
  from server_configured [OF this, of 5 bareFS] obtain s
    where s: "New 5 (Some bareFS) [WithMaxInFlight 5000, WithMaxPacket (-3)] = Inr s"
      "inFlight s \<le> MaxInFlightLimit" by (elim conjE exE) (rule that)
  then have "ReadOnly s" by (simp add: New_def Let_def option_defs ReadOnly_def) auto
  with s show ?thesis by (auto simp: MaxInFlightLimit_def)
qed



end
