(* ===== verification/Handles.thy ===== *)
theory Handles
  imports Server
begin

text \<open>
  One session's handle table, \<^verbatim>\<open>handle.go\<close>. The Go map is an association list with distinct keys. The
  order in which \<^verbatim>\<open>closeAll\<close> ranges over a map is not determined, so it is an argument. The locale
  \<open>token_map\<close> is the contract of the table; the session's properties rest on its facts.
\<close>

subsection \<open>Tokens\<close>

definition hex_digit :: "nat \<Rightarrow> char" where
  "hex_digit d = ''0123456789abcdef'' ! d"

text \<open>\<^verbatim>\<open>hex.EncodeToString\<close>.\<close>

definition hex :: "bytes \<Rightarrow> string" where
  "hex bs = concat (map (\<lambda>b. [hex_digit (unat b div 16), hex_digit (unat b mod 16)]) bs)"

definition token_of :: "bytes \<Rightarrow> string" where
  "token_of b = hex (overlay b (replicate handleBytes 0))"

subsection \<open>Operations\<close>

definition newHandles :: handle_table where
  "newHandles = []"

definition handles_full :: "handle_table \<Rightarrow> bool" where
  "handles_full t \<longleftrightarrow> length t \<ge> maxOpenHandles"

definition handles_get :: "handle_table \<Rightarrow> string \<Rightarrow> openFile option" where
  "handles_get t tok = map_of t tok"

definition handles_put :: "string \<Rightarrow> openFile \<Rightarrow> handle_table \<Rightarrow> handle_table" where
  "handles_put tok h t = AList.update tok h t"

definition handles_delete :: "string \<Rightarrow> handle_table \<Rightarrow> handle_table" where
  "handles_delete tok t = AList.delete tok t"

definition handles_add :: "'w Env \<Rightarrow> openFile \<Rightarrow> ('w, goerr + string) act" where
  "handles_add E h =
     do {
       (b, err) \<leftarrow> call (E_randRead E) (\<lambda>(b, err). EvRand (if err = None then Some (token_of b) else None));
       case err of
         Some e \<Rightarrow> ret (Inl e)
       | None \<Rightarrow> do {
           let tok = token_of b;
           t \<leftarrow> the_handles;
           set_handles (handles_put tok h t);
           ret (Inr tok)
         }
     }"

definition handles_remove :: "string \<Rightarrow> ('w, openFile option) act" where
  "handles_remove tok =
     do {
       t \<leftarrow> the_handles;
       case handles_get t tok of
         None \<Rightarrow> ret None
       | Some h \<Rightarrow> do { set_handles (handles_delete tok t); ret (Some h) }
     }"

definition do_Close :: "'w Server \<Rightarrow> File \<Rightarrow> ('w, error) act" where
  "do_Close srv f = call (F_Close (sv_fsys srv) f) (\<lambda>_. EvClose f)"

fun closeAll_range :: "'w Server \<Rightarrow> error \<Rightarrow> string list \<Rightarrow> ('w, error) act" where
  "closeAll_range srv first [] = ret first"
| "closeAll_range srv first (tok # toks) =
     do {
       t \<leftarrow> the_handles;
       case handles_get t tok of
         None \<Rightarrow> closeAll_range srv first toks
       | Some h \<Rightarrow>
           (case of_file h of
              None \<Rightarrow> do { set_handles (handles_delete tok t); closeAll_range srv first toks }
            | Some f \<Rightarrow> do {
                err \<leftarrow> do_Close srv f;
                set_handles (handles_delete tok t);
                closeAll_range srv (if err \<noteq> None \<and> first = None then err else first) toks
              })
     }"

definition closeAll :: "'w Server \<Rightarrow> string list \<Rightarrow> ('w, error) act" where
  "closeAll srv order = closeAll_range srv None order"

subsection \<open>The contract of the table\<close>

locale token_map =
  fixes empty :: 't
    and lookup :: "'t \<Rightarrow> string \<Rightarrow> openFile option"
    and put :: "string \<Rightarrow> openFile \<Rightarrow> 't \<Rightarrow> 't"
    and del :: "string \<Rightarrow> 't \<Rightarrow> 't"
    and count :: "'t \<Rightarrow> nat"
    and invar :: "'t \<Rightarrow> bool"
  assumes lookup_empty: "lookup empty tok = None"
    and lookup_put: "invar t \<Longrightarrow> lookup (put tok h t) = (lookup t)(tok \<mapsto> h)"
    and lookup_del: "invar t \<Longrightarrow> lookup (del tok t) = (lookup t)(tok := None)"
    and invar_empty: "invar empty"
    and invar_put: "invar t \<Longrightarrow> invar (put tok h t)"
    and invar_del: "invar t \<Longrightarrow> invar (del tok t)"
    and count_dom: "invar t \<Longrightarrow> finite (dom (lookup t)) \<and> count t = card (dom (lookup t))"
begin

lemma count_put: "invar t \<Longrightarrow> count (put tok h t) = (if lookup t tok = None then Suc (count t) else count t)"
  using count_dom [of t] count_dom [of "put tok h t"] invar_put [of t tok h]
  by (auto simp: lookup_put insert_absorb domIff)

lemma count_del: "invar t \<Longrightarrow> count (del tok t) = (if lookup t tok = None then count t else count t - 1)"
  using count_dom [of t] count_dom [of "del tok t"] invar_del [of t tok]
  by (auto simp: lookup_del domIff)

lemma put_all:
  "invar t \<Longrightarrow> (\<forall>h \<in> ran (lookup t). P h) \<Longrightarrow> P h \<Longrightarrow> \<forall>h \<in> ran (lookup (put tok h t)). P h"
  by (auto simp: lookup_put ran_def split: if_splits)

lemma del_all:
  "invar t \<Longrightarrow> (\<forall>h \<in> ran (lookup t). P h) \<Longrightarrow> \<forall>h \<in> ran (lookup (del tok t)). P h"
  by (auto simp: lookup_del ran_def split: if_splits)

text \<open>A table that is only added to when it is below a bound stays within the bound.\<close>

fun script :: "nat \<Rightarrow> (string \<times> openFile option) list \<Rightarrow> 't \<Rightarrow> 't" where
  "script most [] t = t"
| "script most ((tok, Some h) # ops) t = script most ops (if count t < most then put tok h t else t)"
| "script most ((tok, None) # ops) t = script most ops (del tok t)"

lemma script_bounded:
  "invar t \<Longrightarrow> count t \<le> most \<Longrightarrow> invar (script most ops t) \<and> count (script most ops t) \<le> most"
proof (induction most ops t rule: script.induct)
  case (2 most tok h ops t)
  then show ?case by (auto simp: invar_put count_put)
next
  case (3 most tok ops t)
  then show ?case by (cases "lookup t tok") (simp_all add: invar_del count_del)
qed simp

lemma script_keeps:
  "invar t \<Longrightarrow> lookup t tok = Some h \<Longrightarrow> tok \<notin> fst ` set ops \<Longrightarrow> lookup (script most ops t) tok = Some h"
  by (induction most ops t rule: script.induct) (auto simp: invar_put invar_del lookup_put lookup_del)

end

abbreviation table_invar :: "handle_table \<Rightarrow> bool" where
  "table_invar t \<equiv> distinct (map fst t)"

interpretation handles: token_map newHandles handles_get handles_put handles_delete length table_invar
proof unfold_locales
  fix t :: handle_table
  assume "table_invar t"
  then show "finite (dom (handles_get t)) \<and> length t = card (dom (handles_get t))"
    using distinct_card [of "map fst t"]
    unfolding handles_get_def by (simp add: finite_dom_map_of dom_map_of_conv_image_fst)
qed (simp_all add: newHandles_def handles_get_def [abs_def] handles_put_def handles_delete_def
    update_conv' delete_conv' distinct_update distinct_delete)

subsection \<open>Tokens do not collide by accident\<close>

lemma hex_digit_inj: "a < 16 \<Longrightarrow> b < 16 \<Longrightarrow> hex_digit a = hex_digit b \<longleftrightarrow> a = b"
proof -
  assume "a < 16" "b < 16"
  moreover have "distinct ''0123456789abcdef''" by simp
  ultimately show ?thesis
    unfolding hex_digit_def by (simp add: nth_eq_iff_index_eq)
qed

lemma length_hex [simp]: "length (hex bs) = 2 * length bs"
  by (induction bs) (simp_all add: hex_def)

lemma hex_inj: "hex a = hex b \<Longrightarrow> a = b"
proof (induction a arbitrary: b)
  case Nil
  then show ?case by (cases b) (simp_all add: hex_def)
next
  case (Cons x a)
  then obtain y b' where b: "b = y # b'" by (cases b) (auto simp: hex_def)
  have lt: "unat z div 16 < 16" for z :: byte
    using unsigned_less [of z, where 'a = nat] by (simp add: less_mult_imp_div_less)
  from Cons.prems b have "unat x div 16 = unat y div 16" "unat x mod 16 = unat y mod 16" "hex a = hex b'"
    by (simp_all add: hex_def hex_digit_inj lt)
  then have "unat x = unat y" by (metis div_mult_mod_eq)
  then have "x = y" by (rule unsigned_word_eqI)
  with Cons.IH [OF \<open>hex a = hex b'\<close>] b show ?case by simp
qed

lemma length_token [simp]: "length (token_of b) = 32"
  by (simp add: token_of_def handleBytes_def)

lemma token_inj: "length a = handleBytes \<Longrightarrow> length b = handleBytes \<Longrightarrow> token_of a = token_of b \<Longrightarrow> a = b"
  by (auto simp: token_of_def overlay_def dest: hex_inj)

end
