(* ===== verification/Attr.thy ===== *)
theory Attr
  imports Server
begin

text \<open>
  From a driver's \<^verbatim>\<open>Stat\<close> to an ATTRS structure and to the line a client displays, \<^verbatim>\<open>attr.go\<close>. The
  date is what \<^verbatim>\<open>time.Unix(sec, 0).UTC().Format("Jan _2 15:04")\<close> prints; the civil date is found by
  counting whole years and months off the days since 1 January 1970.
\<close>

definition attrsFromStat :: "'w Server \<Rightarrow> Stat \<Rightarrow> Attributes" where
  "attrsFromStat s st =
     (let mode = ucast (fi_Mode st) :: u32;
          mode = (if mode AND ModeFmt = 0 then mode OR ModeReg else mode);
          perms = (if sv_ro s then mode AND NOT 0x92 else mode);
          t = (case fi_ModTime st of Some m \<Rightarrow> ucast m | None \<Rightarrow> sv_start s)
      in \<lparr>a_Flags = AttrSize OR AttrUIDGID OR AttrPermissions OR AttrACModTime,
          a_Size = fi_Size st, a_UID = 0, a_GID = 0, a_Permissions = perms,
          a_Atime = t, a_Mtime = t, a_Extended = []\<rparr>)"

text \<open>\<^verbatim>\<open>strconv.FormatUint(n, 10)\<close>.\<close>

definition digit :: "nat \<Rightarrow> char" where
  "digit d = char_of (48 + d)"

fun decimal :: "nat \<Rightarrow> string" where
  "decimal n = (if n < 10 then [digit n] else decimal (n div 10) @ [digit (n mod 10)])"

declare decimal.simps [simp del]

definition leap :: "nat \<Rightarrow> bool" where
  "leap y \<longleftrightarrow> y mod 4 = 0 \<and> (y mod 100 \<noteq> 0 \<or> y mod 400 = 0)"

definition year_days :: "nat \<Rightarrow> nat" where
  "year_days y = (if leap y then 366 else 365)"

definition month_days :: "nat \<Rightarrow> nat list" where
  "month_days y = [31, if leap y then 29 else 28, 31, 30, 31, 30, 31, 31, 30, 31, 30, 31]"

function year_of :: "nat \<Rightarrow> nat \<Rightarrow> nat \<times> nat" where
  "year_of y d = (if d < year_days y then (y, d) else year_of (Suc y) (d - year_days y))"
  by auto

termination
  by (relation "measure snd") (auto simp: year_days_def split: if_splits)

declare year_of.simps [simp del]

fun month_of :: "nat list \<Rightarrow> nat \<Rightarrow> nat \<times> nat" where
  "month_of [] d = (0, d)"
| "month_of (l # ls) d = (if d < l then (0, d) else case month_of ls (d - l) of (m, r) \<Rightarrow> (Suc m, r))"

definition civil :: "nat \<Rightarrow> nat \<times> nat \<times> nat" where
  "civil days = (case year_of 1970 days of (y, d) \<Rightarrow> (case month_of (month_days y) d of (m, r) \<Rightarrow> (y, m, r)))"

definition month_names :: "string list" where
  "month_names = [''Jan'', ''Feb'', ''Mar'', ''Apr'', ''May'', ''Jun'', ''Jul'', ''Aug'', ''Sep'', ''Oct'', ''Nov'', ''Dec'']"

definition two_digits :: "char \<Rightarrow> nat \<Rightarrow> string" where
  "two_digits pad n = (if n < 10 then [pad, digit n] else decimal n)"

definition date_string :: "u32 \<Rightarrow> string" where
  "date_string t =
     (let sec = unat t; rest = sec mod 86400 in
      case civil (sec div 86400) of (y, m, d) \<Rightarrow>
        month_names ! m @ '' '' @ two_digits (CHR '' '') (d + 1) @ '' '' @
        two_digits (CHR ''0'') (rest div 3600) @ '':'' @ two_digits (CHR ''0'') (rest mod 3600 div 60))"

definition typeLetter :: "u32 \<Rightarrow> char" where
  "typeLetter mode =
     (let t = mode AND ModeFmt in
      if t = ModeDir then CHR ''d'' else if t = ModeLink then CHR ''l'' else if t = ModeChar then CHR ''c''
      else if t = ModeBlock then CHR ''b'' else if t = ModeFifo then CHR ''p'' else if t = ModeSock then CHR ''s''
      else CHR ''-'')"

definition setBit :: "u32 \<Rightarrow> nat \<Rightarrow> u32 \<Rightarrow> char \<Rightarrow> char \<Rightarrow> string \<Rightarrow> string" where
  "setBit mode pos b on off out =
     (if mode AND b = 0 then out
      else if out ! pos = CHR ''x'' then out[pos := on]
      else out[pos := off])"

definition modeString :: "u32 \<Rightarrow> string" where
  "modeString mode =
     (let out = ''----------'';
          out = out[0 := typeLetter mode];
          out = foldl (\<lambda>out i. if mode AND push_bit (8 - i) 1 \<noteq> 0 then out[i + 1 := ''rwxrwxrwx'' ! i] else out) out [0..<9];
          out = setBit mode 3 0x800 (CHR ''s'') (CHR ''S'') out;
          out = setBit mode 6 0x400 (CHR ''s'') (CHR ''S'') out
      in setBit mode 9 0x200 (CHR ''t'') (CHR ''T'') out)"

definition longName :: "string \<Rightarrow> Attributes \<Rightarrow> string" where
  "longName name a =
     modeString (a_Permissions a) @ '' 1 '' @ decimal (unat (a_UID a)) @ '' '' @ decimal (unat (a_GID a)) @ '' '' @
     decimal (unat (a_Size a)) @ '' '' @ date_string (a_Mtime a) @ '' '' @ name"

text \<open>A \<^verbatim>\<open>time.Time\<close> at second resolution is its Unix time.\<close>

definition unixTime :: "u32 \<Rightarrow> int" where
  "unixTime sec = uint sec"

subsection \<open>Attributes\<close>

lemma attrsFromStat_ok: "attrs_ok c (attrsFromStat s st)"
proof -
  have "has (AttrSize OR AttrUIDGID OR AttrPermissions OR AttrACModTime) f"
    if "f \<in> {AttrSize, AttrUIDGID, AttrPermissions, AttrACModTime}" for f
    using that unfolding has_def by (elim insertE emptyE; hypsubst; code_simp)
  then show ?thesis
    by (simp add: attrs_ok_def attrs_mask_eq_iff attrsFromStat_def Let_def maxExtendedPairs_def
        del: AttrSize_def AttrUIDGID_def AttrPermissions_def AttrACModTime_def AttrExtended_def)
qed

lemma attrsFromStat_exts [simp]: "a_Extended (attrsFromStat s st) = []"
  by (simp add: attrsFromStat_def Let_def)

lemma attrsFromStat_ids [simp]: "a_UID (attrsFromStat s st) = 0" "a_GID (attrsFromStat s st) = 0"
  by (simp_all add: attrsFromStat_def Let_def)

definition stat_mode :: "Stat \<Rightarrow> u32" where
  "stat_mode st = (let mode = ucast (fi_Mode st) in if mode AND ModeFmt = 0 then mode OR ModeReg else mode)"

lemma attrsFromStat_perms:
  "a_Permissions (attrsFromStat s st) = (if sv_ro s then stat_mode st AND NOT 0x92 else stat_mode st)"
  by (simp add: attrsFromStat_def stat_mode_def Let_def)

lemma word_and_assoc_mask: "(m AND NOT 0x92) AND ModeFmt = m AND ModeFmt" for m :: u32
proof -
  have "(NOT 0x92) AND ModeFmt = (ModeFmt :: u32)" by code_simp
  then show ?thesis by (simp add: and.assoc del: ModeFmt_def)
qed

lemma stat_mode_type:
  "stat_mode st AND ModeFmt =
     (if ucast (fi_Mode st) AND ModeFmt = 0 then ModeReg else ucast (fi_Mode st) AND ModeFmt)"
proof -
  have "ModeReg AND ModeFmt = ModeReg" by code_simp
  then show ?thesis
    by (simp add: stat_mode_def Let_def bit.conj_disj_distrib2 del: ModeFmt_def ModeReg_def)
qed

subsection \<open>The mode string\<close>

lemma length_setBit [simp]: "length (setBit mode pos b on off out) = length out"
  by (simp add: setBit_def)

definition perm_char :: "bool \<Rightarrow> char \<Rightarrow> char" where
  "perm_char b c = (if b then c else CHR ''-'')"

definition exec_char :: "bool \<Rightarrow> bool \<Rightarrow> char \<Rightarrow> char \<Rightarrow> char" where
  "exec_char x special on off = (if special then if x then on else off else perm_char x (CHR ''x''))"

lemma special_bits:
  "mode AND 0x800 = 0 \<longleftrightarrow> \<not> bit mode 11" "mode AND 0x400 = 0 \<longleftrightarrow> \<not> bit mode 10"
  "mode AND 0x200 = 0 \<longleftrightarrow> \<not> bit mode 9" for mode :: u32
  using bit_iff_and_push_bit_not_eq_0 [of mode 11] bit_iff_and_push_bit_not_eq_0 [of mode 10]
    bit_iff_and_push_bit_not_eq_0 [of mode 9] by simp_all

lemma perm_bits: "mode AND push_bit k 1 = 0 \<longleftrightarrow> \<not> bit mode k" for mode :: u32
  by (simp add: bit_iff_and_push_bit_not_eq_0)

lemma if_update: "(if b then xs[i := v] else xs) = xs[i := (if b then v else xs ! i)]"
  by simp

lemma setBit_exec:
  "setBit mode 3 b on off (a0 # a1 # a2 # perm_char x (CHR ''x'') # out) =
     a0 # a1 # a2 # exec_char x (mode AND b \<noteq> 0) on off # out"
  "setBit mode 6 b on off (a0 # a1 # a2 # a3 # a4 # a5 # perm_char x (CHR ''x'') # out) =
     a0 # a1 # a2 # a3 # a4 # a5 # exec_char x (mode AND b \<noteq> 0) on off # out"
  "setBit mode 9 b on off (a0 # a1 # a2 # a3 # a4 # a5 # a6 # a7 # a8 # perm_char x (CHR ''x'') # out) =
     a0 # a1 # a2 # a3 # a4 # a5 # a6 # a7 # a8 # exec_char x (mode AND b \<noteq> 0) on off # out"
  by (simp_all add: setBit_def exec_char_def perm_char_def)

lemma modeString_eq:
  "modeString mode =
     [typeLetter mode,
      perm_char (bit mode 8) (CHR ''r''), perm_char (bit mode 7) (CHR ''w''),
      exec_char (bit mode 6) (bit mode 11) (CHR ''s'') (CHR ''S''),
      perm_char (bit mode 5) (CHR ''r''), perm_char (bit mode 4) (CHR ''w''),
      exec_char (bit mode 3) (bit mode 10) (CHR ''s'') (CHR ''S''),
      perm_char (bit mode 2) (CHR ''r''), perm_char (bit mode 1) (CHR ''w''),
      exec_char (bit mode 0) (bit mode 9) (CHR ''t'') (CHR ''T'')]"
proof -
  have upt: "[0..<9] = [0, 1, 2, 3, 4, 5, 6, 7, 8 :: nat]" by (simp add: upt_rec)
  have fold: "foldl (\<lambda>out i. if mode AND push_bit (8 - i) 1 \<noteq> 0 then out[i + 1 := ''rwxrwxrwx'' ! i] else out)
      (''----------''[0 := typeLetter mode]) [0..<9] =
    [typeLetter mode,
      perm_char (bit mode 8) (CHR ''r''), perm_char (bit mode 7) (CHR ''w''), perm_char (bit mode 6) (CHR ''x''),
      perm_char (bit mode 5) (CHR ''r''), perm_char (bit mode 4) (CHR ''w''), perm_char (bit mode 3) (CHR ''x''),
      perm_char (bit mode 2) (CHR ''r''), perm_char (bit mode 1) (CHR ''w''), perm_char (bit mode 0) (CHR ''x'')]"
    unfolding upt perm_bits not_not if_update by (simp add: perm_char_def del: if_split)
  show ?thesis
    unfolding modeString_def Let_def fold
    by (simp add: setBit_exec special_bits)
qed

lemma perm_char_inj:
  "c \<noteq> CHR ''-'' \<Longrightarrow> perm_char b c = perm_char b' c \<longleftrightarrow> b = b'"
  by (simp add: perm_char_def)

lemma exec_char_inj:
  "distinct [on, off, CHR ''x'', CHR ''-''] \<Longrightarrow>
     exec_char x y on off = exec_char x' y' on off \<longleftrightarrow> x = x' \<and> y = y'"
  by (auto simp: exec_char_def perm_char_def)

lemma num_12_less_32: "(12 :: nat) < 32"
  by simp

lemma low_bits_eq_iff: "m AND 0xFFF = m' AND 0xFFF \<longleftrightarrow> (\<forall>i < 12. bit m i = bit m' i)" for m m' :: u32
proof -
  have mask: "(0xFFF :: u32) = mask 12" by (simp add: mask_eq_exp_minus_1)
  have "m AND mask 12 = m' AND mask 12 \<longleftrightarrow> (\<forall>n < 32. n < 12 \<longrightarrow> bit m n = bit m' n)"
    by (auto simp: bit_eq_iff bit_simps)
  also have "\<dots> \<longleftrightarrow> (\<forall>i < 12. bit m i = bit m' i)" by (meson less_trans num_12_less_32)
  finally show ?thesis unfolding mask .
qed

lemma all_less_12: "(\<forall>i < 12 :: nat. P i) \<longleftrightarrow>
    P 0 \<and> P 1 \<and> P 2 \<and> P 3 \<and> P 4 \<and> P 5 \<and> P 6 \<and> P 7 \<and> P 8 \<and> P 9 \<and> P 10 \<and> P 11"
proof -
  have "(\<forall>i < 12. P i) \<longleftrightarrow> (\<forall>i \<in> set [0..<12]. P i)" by auto
  also have "[0..<12] = [0, 1, 2, 3, 4, 5, 6, 7, 8, 9, 10, 11 :: nat]" by (simp add: upt_rec)
  finally show ?thesis by (simp only: list.set ball_simps simp_thms)
qed

lemma modeString_inj:
  "modeString m = modeString m' \<longleftrightarrow> typeLetter m = typeLetter m' \<and> m AND 0xFFF = m' AND 0xFFF"
  unfolding low_bits_eq_iff all_less_12 modeString_eq list.inject
  by (auto simp: perm_char_inj exec_char_inj)

subsection \<open>The date\<close>

lemma month_of_spec:
  "d < sum_list ls \<Longrightarrow> month_of ls d = (m, r) \<Longrightarrow> m < length ls \<and> r < ls ! m \<and> d = sum_list (take m ls) + r"
proof (induction ls arbitrary: d m r)
  case (Cons l ls)
  show ?case
  proof (cases "d < l")
    case True
    with Cons.prems show ?thesis by auto
  next
    case False
    then obtain m' where m': "month_of ls (d - l) = (m', r)" "m = Suc m'"
      using Cons.prems(2) by (auto split: prod.splits)
    with Cons.IH [of "d - l" m' r] Cons.prems(1) False show ?thesis
      by (auto simp: le_imp_diff_is_add not_less add_ac)
  qed
qed simp

lemma sum_month_days: "sum_list (month_days y) = year_days y"
  by (simp add: month_days_def year_days_def)

lemma length_month_days [simp]: "length (month_days y) = 12"
  by (simp add: month_days_def)

lemma year_of_spec:
  "year_of y d = (y', r) \<Longrightarrow> y \<le> y' \<and> r < year_days y' \<and> d = sum_list (map year_days [y..<y']) + r"
proof (induction y d arbitrary: r rule: year_of.induct)
  case (1 y d)
  show ?case
  proof (cases "d < year_days y")
    case True
    with 1(2) show ?thesis by (simp add: year_of.simps [of y d])
  next
    case False
    with 1(2) have "year_of (Suc y) (d - year_days y) = (y', r)" by (simp add: year_of.simps [of y d])
    from 1(1) [OF False this] False show ?thesis
      by (auto simp: upt_conv_Cons)
  qed
qed

lemma civil_spec:
  assumes "civil days = (y, m, d)"
  shows "1970 \<le> y \<and> m < 12 \<and> d < month_days y ! m
    \<and> days = sum_list (map year_days [1970..<y]) + sum_list (take m (month_days y)) + d"
proof -
  obtain r where r: "year_of 1970 days = (y, r)" "month_of (month_days y) r = (m, d)"
    using assms by (auto simp: civil_def split: prod.splits)
  from year_of_spec [OF r(1)] month_of_spec [OF _ r(2)] show ?thesis
    by (simp add: sum_month_days)
qed

lemma month_days_le: "m < 12 \<Longrightarrow> month_days y ! m \<le> 31"
  unfolding month_days_def by (auto simp: less_Suc_eq numeral_eq_Suc)

lemma length_decimal: "n < 10 ^ k \<Longrightarrow> 0 < k \<Longrightarrow> length (decimal n) \<le> k"
proof (induction k arbitrary: n)
  case (Suc k)
  show ?case
  proof (cases "n < 10")
    case True
    then show ?thesis by (simp add: decimal.simps)
  next
    case False
    with Suc.prems have "n div 10 < 10 ^ k" "0 < k" by (auto intro: ccontr)
    with Suc.IH [of "n div 10"] False show ?thesis by (simp add: decimal.simps [of n])
  qed
qed simp

lemma length_two_digits: "n < 100 \<Longrightarrow> length (two_digits pad n) = 2"
  by (auto simp: two_digits_def decimal.simps)

lemma length_month_names: "m < 12 \<Longrightarrow> length (month_names ! m) = 3"
  unfolding month_names_def by (auto simp: less_Suc_eq numeral_eq_Suc)

lemma length_date_string: "length (date_string t) = 12"
proof -
  obtain y m d where c: "civil (unat t div 86400) = (y, m, d)" by (metis prod.exhaust)
  from civil_spec [OF c] month_days_le [of m y] have "m < 12" "d < 31" by auto
  moreover have "unat t mod 86400 div 3600 < 24" by simp
  ultimately show ?thesis
    by (simp add: date_string_def Let_def c length_two_digits length_month_names)
qed

lemma length_modeString: "length (modeString mode) = 10"
  by (simp add: modeString_eq)

lemma length_longName:
  "a_UID a = 0 \<Longrightarrow> a_GID a = 0 \<Longrightarrow> length (longName name a) \<le> length name + 51"
proof -
  assume "a_UID a = 0" "a_GID a = 0"
  moreover have "length (decimal (unat (a_Size a))) \<le> 20"
    using unsigned_less [of "a_Size a", where 'a = nat] by (intro length_decimal) simp_all
  moreover have "decimal 0 = [digit 0]" by (simp add: decimal.simps)
  ultimately show ?thesis
    by (simp add: longName_def length_modeString length_date_string)
qed

subsection \<open>Properties\<close>

text \<open>C37: What a client is told about a file is canonical and consistent with the export. The
attributes built from any \<^verbatim>\<open>Stat\<close> announce exactly the fields they carry, so they survive the wire
unchanged; they always name a file type, the driver's own when it reported one; a read-only export never
shows a write permission, and shows every other mode bit as the driver reported it.\<close>

theorem attrsFromStat_sound:
  "attrs_ok c (attrsFromStat s st)
   \<and> a_Permissions (attrsFromStat s st) AND ModeFmt \<noteq> 0
   \<and> (ucast (fi_Mode st) AND ModeFmt \<noteq> (0 :: u32) \<longrightarrow>
        a_Permissions (attrsFromStat s st) AND ModeFmt = ucast (fi_Mode st) AND ModeFmt
        \<and> a_Permissions (attrsFromStat s st) AND NOT 0x92 = ucast (fi_Mode st) AND NOT 0x92)
   \<and> (ReadOnly s \<longrightarrow> a_Permissions (attrsFromStat s st) AND 0x92 = 0)"
proof -
  have type: "a_Permissions (attrsFromStat s st) AND ModeFmt = stat_mode st AND ModeFmt"
    by (cases "sv_ro s") (simp_all only: attrsFromStat_perms word_and_assoc_mask if_True if_False)
  have "(NOT 0x92 :: u32) AND 0x92 = 0" by code_simp
  then have ro: "ReadOnly s \<longrightarrow> a_Permissions (attrsFromStat s st) AND 0x92 = 0"
    by (cases "sv_ro s") (simp_all only: attrsFromStat_perms ReadOnly_def and.assoc if_True and_zero_eq simp_thms)
  have keep: "a_Permissions (attrsFromStat s st) AND NOT 0x92 = stat_mode st AND NOT 0x92"
    by (cases "sv_ro s") (simp_all only: attrsFromStat_perms and.assoc and.idem if_True if_False)
  have some: "stat_mode st AND ModeFmt \<noteq> 0" "ucast (fi_Mode st) AND ModeFmt \<noteq> (0 :: u32) \<longrightarrow> stat_mode st = ucast (fi_Mode st)"
    unfolding stat_mode_type by (simp_all add: stat_mode_def Let_def)
  show ?thesis
    unfolding type keep using ro some by (intro conjI impI attrsFromStat_ok) (auto simp only: simp_thms)
qed

theorem attrsFromStat_sound_witness:
  "a_Permissions (attrsFromStat \<lparr>sv_fsys = bareFS, sv_opener = None, sv_ro = True, sv_maxPacket = 0, sv_start = 0,
      sv_maxInFlight = 0, sv_maxTotal = 0, sv_packetWait = 0, sv_pathConcurrent = False\<rparr>
      \<lparr>fi_Mode = 0x41FF, fi_Size = 0, fi_ModTime = None\<rparr>) AND ModeFmt = ModeDir"
proof -
  let ?srv = "\<lparr>sv_fsys = bareFS, sv_opener = None, sv_ro = True, sv_maxPacket = 0, sv_start = 0,
      sv_maxInFlight = 0, sv_maxTotal = 0, sv_packetWait = 0, sv_pathConcurrent = False\<rparr>"
  let ?st = "\<lparr>fi_Mode = 0x41FF, fi_Size = 0, fi_ModTime = None\<rparr>"
  have "ucast (fi_Mode ?st) AND ModeFmt = (ModeDir :: u32)" "(ModeDir :: u32) \<noteq> 0" by code_simp+
  with attrsFromStat_sound [of 0 ?srv ?st] show ?thesis by metis
qed

text \<open>The mode column of a listing loses nothing. It has ten characters, and two modes are shown
alike exactly when they are the same kind of file and agree on all twelve permission bits, set-uid, set-gid
and sticky included.\<close>

lemma modeString_faithful:
  "length (modeString m) = 10
   \<and> (modeString m = modeString m' \<longleftrightarrow> typeLetter m = typeLetter m' \<and> m AND 0xFFF = m' AND 0xFFF)"
  using length_modeString modeString_inj by simp

text \<open>The date of a listing is right: the year, month and day found for a number of days are a
valid date of the Gregorian calendar, and that date lies exactly that many days after 1 January 1970.\<close>

lemma listing_date_correct:
  "\<exists>y m d. civil days = (y, m, d) \<and> 1970 \<le> y \<and> m < 12 \<and> d < month_days y ! m
     \<and> days = sum_list (map year_days [1970..<y]) + sum_list (take m (month_days y)) + d"
  using civil_spec by (metis prod.exhaust)

end
