(* ===== verification/Paths.thy ===== *)
theory Paths
  imports Sftp_Prelude
begin

text \<open>
  Path resolution, \<^verbatim>\<open>path.go\<close>. A path is a byte string; the model reads it as the list of its
  components. \<open>resolved\<close> is the well-formedness invariant of everything \<^verbatim>\<open>clean\<close> returns: an
  absolute path whose components are proper names, so that nothing above the root can be named.
\<close>

abbreviation NUL :: char where
  "NUL \<equiv> CHR 0x00"

abbreviation slash :: char where
  "slash \<equiv> CHR ''/''"

definition maxPath :: nat where
  "maxPath = 4096"

definition clean_part :: "string list \<Rightarrow> string \<Rightarrow> string list" where
  "clean_part out part =
     (if part = '''' \<or> part = ''.'' then out
      else if part = ''..'' then (if length out > 0 then take (length out - 1) out else out)
      else out @ [part])"

definition clean :: "string \<Rightarrow> string option" where
  "clean p =
     (if NUL \<in> set p then None
      else if length p > maxPath then None
      else Some (''/'' @ join_with slash (foldl clean_part [] (split_at slash p))))"

text \<open>\<^verbatim>\<open>strings.LastIndexByte\<close>.\<close>

primrec LastIndexByte :: "string \<Rightarrow> char \<Rightarrow> int" where
  "LastIndexByte [] c = -1"
| "LastIndexByte (x # xs) c =
     (let i = LastIndexByte xs c in if i \<ge> 0 then i + 1 else if x = c then 0 else -1)"

definition parent :: "string \<Rightarrow> string" where
  "parent p = (let i = LastIndexByte p slash in if i \<le> 0 then ''/'' else take (nat i) p)"

definition base :: "string \<Rightarrow> string" where
  "base p = (if p = ''/'' then ''/'' else drop (nat (LastIndexByte p slash + 1)) p)"

definition join :: "string \<Rightarrow> string \<Rightarrow> string option" where
  "join dir name =
     (if name = '''' \<or> name = ''.'' \<or> name = ''..'' \<or> slash \<in> set name \<or> NUL \<in> set name then None
      else if dir = ''/'' then Some (''/'' @ name)
      else let full = dir @ ''/'' @ name in if length full > maxPath then None else Some full)"

subsection \<open>Paths as lists of names\<close>

definition name_ok :: "string \<Rightarrow> bool" where
  "name_ok x \<longleftrightarrow> x \<noteq> '''' \<and> x \<noteq> ''.'' \<and> x \<noteq> ''..'' \<and> slash \<notin> set x \<and> NUL \<notin> set x"

definition path_of :: "string list \<Rightarrow> string" where
  "path_of xs = ''/'' @ join_with slash xs"

definition comps :: "string \<Rightarrow> string list" where
  "comps p = foldl clean_part [] (split_at slash p)"

definition resolved :: "string \<Rightarrow> bool" where
  "resolved p \<longleftrightarrow> list_all name_ok (comps p) \<and> p = path_of (comps p)"

lemma clean_eq:
  "clean p = (if NUL \<notin> set p \<and> length p \<le> maxPath then Some (path_of (comps p)) else None)"
  by (auto simp: clean_def path_of_def comps_def)

lemma name_ok_simps [simp]: "\<not> name_ok ''''" "\<not> name_ok ''.''" "\<not> name_ok ''..''"
  by (simp_all add: name_ok_def)

lemma clean_part_simps [simp]:
  "clean_part out '''' = out"
  "clean_part out ''.'' = out"
  "clean_part out ''..'' = butlast out"
  "name_ok x \<Longrightarrow> clean_part out x = out @ [x]"
  by (auto simp: clean_part_def butlast_conv_take)

lemma clean_part_names:
  "list_all name_ok out \<Longrightarrow> slash \<notin> set part \<Longrightarrow> NUL \<notin> set part \<Longrightarrow>
     list_all name_ok (clean_part out part)"
  by (auto simp: clean_part_def name_ok_def list_all_iff dest: in_set_takeD)

lemma foldl_clean_names:
  "list_all name_ok out \<Longrightarrow> \<forall>x \<in> set parts. slash \<notin> set x \<and> NUL \<notin> set x \<Longrightarrow>
     list_all name_ok (foldl clean_part out parts)"
  by (induction parts arbitrary: out) (auto simp: clean_part_names)

lemma comps_names: "NUL \<notin> set p \<Longrightarrow> list_all name_ok (comps p)"
  unfolding comps_def
  by (rule foldl_clean_names) (auto dest: split_at_no_sep split_at_chars)

lemma foldl_clean_ok: "list_all name_ok xs \<Longrightarrow> foldl clean_part out xs = out @ xs"
  by (induction xs arbitrary: out) auto

lemma comps_append: "comps (p @ ''/'' @ r) = foldl clean_part (comps p) (split_at slash r)"
  by (simp add: comps_def split_at_append_sep)

lemma comps_slash: "comps (''/'' @ p) = comps p"
  by (simp add: comps_def)

lemma split_path_of:
  "list_all name_ok xs \<Longrightarrow> split_at slash (path_of xs) = (if xs = [] then ['''', ''''] else '''' # xs)"
  by (auto simp: path_of_def name_ok_def list_all_iff split_at_join)

lemma comps_path_of [simp]: "list_all name_ok xs \<Longrightarrow> comps (path_of xs) = xs"
  by (simp add: comps_def split_path_of foldl_clean_ok)

lemma path_of_Nil [simp]: "path_of [] = ''/''"
  by (simp add: path_of_def)

lemma path_of_snoc: "path_of (xs @ [x]) = (if xs = [] then ''/'' @ x else path_of xs @ ''/'' @ x)"
  by (simp add: path_of_def join_with_append)

lemma NUL_path_of: "list_all name_ok xs \<Longrightarrow> NUL \<notin> set (path_of xs)"
  using set_join_with [of slash xs] by (auto simp: path_of_def name_ok_def list_all_iff)

lemma resolved_iff: "resolved p \<longleftrightarrow> (\<exists>xs. list_all name_ok xs \<and> p = path_of xs)"
  by (auto simp: resolved_def)

lemma resolved_path_of [intro, simp]: "list_all name_ok xs \<Longrightarrow> resolved (path_of xs)"
  by (auto simp: resolved_iff)

lemma resolvedE:
  assumes "resolved p"
  obtains xs where "list_all name_ok xs" "p = path_of xs"
  using assms by (auto simp: resolved_iff)

lemma resolved_root [simp]: "resolved ''/''"
  using resolved_path_of [of "[]"] by simp

lemma clean_resolved: "clean p = Some q \<Longrightarrow> resolved q"
  by (auto simp: clean_eq comps_names split: if_splits)

lemma clean_of_resolved: "resolved p \<Longrightarrow> clean p = (if length p \<le> maxPath then Some p else None)"
  by (elim resolvedE) (auto simp: clean_eq NUL_path_of)

lemma path_of_inj: "list_all name_ok xs \<Longrightarrow> list_all name_ok ys \<Longrightarrow> path_of xs = path_of ys \<longleftrightarrow> xs = ys"
  by (metis comps_path_of)

lemma path_of_root [simp]: "list_all name_ok xs \<Longrightarrow> path_of xs = ''/'' \<longleftrightarrow> xs = []"
  using path_of_inj [of xs "[]"] by simp

subsection \<open>The length of a resolved path\<close>

definition weight :: "string list \<Rightarrow> nat" where
  "weight xs = sum_list (map (\<lambda>x. Suc (length x)) xs)"

lemma weight_simps [simp]:
  "weight [] = 0" "weight (x # xs) = Suc (length x) + weight xs" "weight (xs @ ys) = weight xs + weight ys"
  by (simp_all add: weight_def)

lemma length_path_of: "length (path_of xs) = max 1 (weight xs)"
  by (induction xs rule: join_with.induct [of _ slash]) (auto simp: path_of_def)

lemma weight_split_at: "weight (split_at c s) = Suc (length s)"
proof (induction s)
  case (Cons a s)
  then show ?case by (cases "split_at c s") auto
qed simp

lemma weight_butlast: "weight (butlast xs) \<le> weight xs"
  by (induction xs) auto

lemma weight_clean_part: "weight (clean_part out part) \<le> weight out + Suc (length part)"
  using weight_butlast [of out] by (auto simp: clean_part_def butlast_conv_take)

lemma weight_foldl: "weight (foldl clean_part out parts) \<le> weight out + weight parts"
proof (induction parts arbitrary: out)
  case (Cons x parts)
  show ?case
    using Cons [of "clean_part out x"] weight_clean_part [of out x] by simp
qed simp

lemma weight_comps: "weight (comps p) \<le> Suc (length p)"
  using weight_foldl [of "[]" "split_at slash p"] by (simp add: comps_def weight_split_at)

lemma weight_comps_abs: "weight (comps (''/'' @ p)) \<le> Suc (length p)"
  using weight_comps [of p] by (simp only: comps_slash)

lemma clean_length: "clean p = Some q \<Longrightarrow> length q \<le> length p + 1"
  using weight_comps [of p] by (auto simp: clean_eq length_path_of split: if_splits)

lemma clean_length_abs: "clean (''/'' @ p) = Some q \<Longrightarrow> length q \<le> Suc (length p)"
  using weight_comps_abs [of p] by (auto simp: clean_eq length_path_of split: if_splits)

subsection \<open>Parent, base and join\<close>

lemma LastIndexByte_none: "c \<notin> set s \<Longrightarrow> LastIndexByte s c = -1"
  by (induction s) auto

lemma LastIndexByte_last: "c \<notin> set x \<Longrightarrow> LastIndexByte (s @ c # x) c = int (length s)"
  by (induction s) (auto simp: Let_def LastIndexByte_none)

lemma path_of_snoc_split:
  obtains d where "path_of (xs @ [x]) = d @ slash # x" "d = (if xs = [] then [] else path_of xs)"
  by (simp add: path_of_snoc split: if_splits)

lemma parent_snoc: "list_all name_ok (xs @ [x]) \<Longrightarrow> parent (path_of (xs @ [x])) = path_of xs"
  by (rule path_of_snoc_split [of xs x])
    (auto simp: parent_def LastIndexByte_last name_ok_def Let_def path_of_def)

lemma base_snoc: "list_all name_ok (xs @ [x]) \<Longrightarrow> base (path_of (xs @ [x])) = x"
  by (rule path_of_snoc_split [of xs x])
    (auto simp: base_def LastIndexByte_last name_ok_def nat_add_distrib)

lemma join_path_of:
  assumes "list_all name_ok xs"
  shows "join (path_of xs) x = (if name_ok x \<and> (xs = [] \<or> length (path_of (xs @ [x])) \<le> maxPath)
    then Some (path_of (xs @ [x])) else None)"
  using assms by (auto simp: join_def name_ok_def [of x] Let_def path_of_snoc)

lemma join_resolved:
  assumes "resolved dir" "join dir name = Some full"
  shows "resolved full \<and> parent full = dir \<and> base full = name"
proof -
  obtain xs where xs: "list_all name_ok xs" "dir = path_of xs" using assms(1) by (elim resolvedE)
  then have "name_ok name" "full = path_of (xs @ [name])"
    using assms(2) by (auto simp: join_path_of split: if_splits)
  with xs show ?thesis using parent_snoc [of xs name] base_snoc [of xs name] by auto
qed

lemma parent_resolved: "resolved p \<Longrightarrow> resolved (parent p)"
proof (elim resolvedE)
  fix xs assume "list_all name_ok xs" "p = path_of xs"
  then show ?thesis
    by (cases xs rule: rev_cases) (auto simp: parent_snoc, simp add: parent_def Let_def)
qed

lemma join_parent_base:
  assumes "resolved p" "p \<noteq> ''/''" "length p \<le> maxPath"
  shows "join (parent p) (base p) = Some p"
proof -
  obtain xs where xs: "list_all name_ok xs" "p = path_of xs" using assms(1) by (elim resolvedE)
  with assms(2) obtain ys y where "xs = ys @ [y]" by (cases xs rule: rev_cases) auto
  with xs assms(3) show ?thesis by (simp add: parent_snoc base_snoc join_path_of)
qed

lemma comps_dotdot: "comps (concat (replicate k ''../'') @ p) = comps p"
proof (induction k)
  case (Suc k)
  have "comps (''..'' @ ''/'' @ concat (replicate k ''../'') @ p)
      = comps (concat (replicate k ''../'') @ p)"
    unfolding comps_append by (simp add: comps_def)
  with Suc show ?case by simp
qed simp

lemma clean_dotdot:
  "length (concat (replicate k ''../'') @ p) \<le> maxPath \<Longrightarrow>
     clean (concat (replicate k ''../'') @ p) = clean p"
  by (auto simp: clean_eq comps_dotdot)

lemma clean_append:
  assumes "clean p = Some q"
  shows "comps (q @ ''/'' @ r) = comps (p @ ''/'' @ r)"
  using assms unfolding comps_append by (auto simp: clean_eq comps_names split: if_splits)

lemma comps_atom: "slash \<notin> set x \<Longrightarrow> name_ok x \<Longrightarrow> comps x = [x]"
  by (simp add: comps_def split_at_single)

subsection \<open>Properties\<close>

text \<open>C19: Containment. \<^verbatim>\<open>clean\<close> refuses exactly the paths that hold a NUL or are longer than
\<^verbatim>\<open>maxPath\<close>. Whatever it accepts becomes an absolute path made of proper names only, none of them
empty, \<^verbatim>\<open>.\<close> or \<^verbatim>\<open>..\<close>, at most one byte longer than the input; and any number of leading
\<^verbatim>\<open>..\<close> is clamped at the root, so it changes nothing.\<close>

theorem clean_contained:
  "(clean p = None \<longleftrightarrow> NUL \<in> set p \<or> length p > maxPath)
   \<and> (\<forall>q. clean p = Some q \<longrightarrow> resolved q \<and> length q \<le> length p + 1)
   \<and> (length (concat (replicate k ''../'') @ p) \<le> maxPath \<longrightarrow>
        clean (concat (replicate k ''../'') @ p) = clean p)"
  using clean_resolved clean_length clean_dotdot by (auto simp: clean_eq)

theorem clean_contained_witness:
  "clean ''../../../etc/./passwd'' = Some ''/etc/passwd'' \<and> resolved ''/etc/passwd''"
proof -
  have c: "clean ''etc/./passwd'' = Some ''/etc/passwd''" by code_simp
  have l: "length (concat (replicate 3 ''../'') @ ''etc/./passwd'') \<le> maxPath" by code_simp
  have e: "concat (replicate 3 ''../'') @ ''etc/./passwd'' = ''../../../etc/./passwd''" by code_simp
  show ?thesis
    using clean_contained [of "''etc/./passwd''" 3] c l e by simp
qed

text \<open>Resolving is stable. A path that is already resolved comes back unchanged, so resolving
twice is resolving once, unless it is longer than \<^verbatim>\<open>maxPath\<close>, in which case it is refused.\<close>

lemma clean_stable:
  assumes "clean p = Some q"
  shows "clean q = (if length q \<le> maxPath then Some q else None)"
  using clean_of_resolved [OF clean_resolved [OF assms]] .

text \<open>C34: Resolving is compositional. Resolving a path below \<open>p\<close> gives the same answer when \<open>p\<close> is
first replaced by what it resolves to, so a client that asks for the canonical form of its working
directory and then appends relative paths to it reaches the same files as with the original name.\<close>

theorem clean_compositional:
  assumes "clean p = Some q"
    and "length (p @ ''/'' @ r) \<le> maxPath" and "length (q @ ''/'' @ r) \<le> maxPath"
  shows "clean (q @ ''/'' @ r) = clean (p @ ''/'' @ r)"
proof -
  have "NUL \<notin> set p" "NUL \<notin> set q"
    using assms(1) clean_resolved [OF assms(1)] NUL_path_of
    by (auto simp: clean_eq split: if_splits elim: resolvedE)
  then show ?thesis
    using assms(2,3) clean_append [OF assms(1), of r] by (simp add: clean_eq)
qed

theorem clean_compositional_witness:
  "clean (''/a'' @ ''/'' @ ''../b'') = clean (''a/x/..'' @ ''/'' @ ''../b'')"
proof -
  have "clean ''a/x/..'' = Some ''/a''" by code_simp
  from clean_compositional [OF this, of "''../b''"] show ?thesis by (simp add: maxPath_def)
qed

text \<open>C35: \<^verbatim>\<open>join\<close>, \<^verbatim>\<open>parent\<close> and \<^verbatim>\<open>base\<close> invert each other on resolved paths. A path that \<^verbatim>\<open>join\<close>
builds from a resolved directory and a name is resolved, its parent is that directory and its base that
name; and a resolved path other than the root, within \<^verbatim>\<open>maxPath\<close>, is the join of its parent and its
base.\<close>

theorem join_parent_base_inverse:
  assumes "resolved p"
  shows "(\<forall>name full. join p name = Some full \<longrightarrow> resolved full \<and> parent full = p \<and> base full = name)
    \<and> (p \<noteq> ''/'' \<and> length p \<le> maxPath \<longrightarrow> join (parent p) (base p) = Some p)"
  using join_resolved [OF assms] join_parent_base [OF assms] by simp

theorem join_parent_base_inverse_witness:
  "parent ''/a/b/c'' = ''/a/b'' \<and> base ''/a/b/c'' = ''c''"
proof -
  have "resolved ''/a/b''" "join ''/a/b'' ''c'' = Some ''/a/b/c''" by code_simp+
  with join_parent_base_inverse [of "''/a/b''"] show ?thesis by blast
qed

text \<open>The bound on resolved paths has two gaps. A relative path of exactly \<^verbatim>\<open>maxPath\<close> bytes
resolves to one of \<^verbatim>\<open>maxPath + 1\<close> bytes, which does not resolve again; and \<^verbatim>\<open>join\<close> at the root checks
no length at all, so it lists an entry under a path that \<^verbatim>\<open>clean\<close> refuses, where every other directory
skips it.\<close>

lemma resolved_path_bound_gaps:
  "let long = replicate maxPath (CHR ''a'') in
     clean long = Some (''/'' @ long) \<and> clean (''/'' @ long) = None
     \<and> join ''/'' long = Some (''/'' @ long) \<and> join ''/d'' long = None"
proof -
  let ?long = "replicate maxPath (CHR ''a'')"
  have ok: "name_ok ?long" by (auto simp: name_ok_def maxPath_def numeral_eq_Suc)
  have "comps ?long = [?long]" using ok by (intro comps_atom) auto
  then have "clean ?long = Some (''/'' @ ?long)"
    by (simp add: clean_eq path_of_def)
  moreover have "clean (''/'' @ ?long) = None" by (simp add: clean_eq)
  moreover have "join ''/'' ?long = Some (''/'' @ ?long)" "join ''/d'' ?long = None"
    using join_path_of [of "[]" ?long] join_path_of [of "[''d'']" ?long] ok
    by (simp_all add: path_of_def name_ok_def)
  ultimately show ?thesis by (simp add: Let_def)
qed

end
