(* ===== verification/Ops.thy ===== *)
theory Ops
  imports Handles Attr Paths
begin

text \<open>
  The request handlers, \<^verbatim>\<open>ops.go\<close> and \<^verbatim>\<open>copydata.go\<close>, and the two jobs of \<^verbatim>\<open>concurrent.go\<close>. A handler
  is an action on the session's state that ends with a reply; \<open>Panic\<close> stands for a run-time panic of the
  Go program. \<^verbatim>\<open>defer unlock()\<close> after \<^verbatim>\<open>lock()\<close> is one of the three brackets below around the rest of the
  handler.
\<close>

datatype reply = Answer message | Panic

definition readdirBatchSize :: nat where
  "readdirBatchSize = 64"

definition errReadOnly :: string where
  "errReadOnly = ''export is read-only''"

definition status_msg :: "u32 \<Rightarrow> status \<Rightarrow> string \<Rightarrow> message" where
  "status_msg rid code msg = StatusMsg \<lparr>st_ID = rid, st_Code = code, st_Message = msg, st_Lang = ''''\<rparr>"

abbreviation answer :: "u32 \<Rightarrow> status \<Rightarrow> string \<Rightarrow> ('w, reply) act" where
  "answer rid code msg \<equiv> ret (Answer (status_msg rid code msg))"

text \<open>\<^verbatim>\<open>return status(id, statusFor(err, fallback), errText(err))\<close>.\<close>

abbreviation failure :: "u32 \<Rightarrow> error \<Rightarrow> status \<Rightarrow> ('w, reply) act" where
  "failure rid err fallback \<equiv> answer rid (statusFor err fallback) (errText err)"

subsection \<open>Locks and driver calls\<close>

definition with_lock :: "('w, 'a) act \<Rightarrow> ('w, 'a) act" where
  "with_lock body = do { emit EvLock; r \<leftarrow> body; emit EvUnlock; ret r }"

definition with_rlock :: "('w, 'a) act \<Rightarrow> ('w, 'a) act" where
  "with_rlock body = do { emit EvLockPath; r \<leftarrow> body; emit EvUnlockPath; ret r }"

definition with_IO :: "('w, 'a) act \<Rightarrow> ('w, 'a) act" where
  "with_IO body = do { emit EvLockIO; r \<leftarrow> body; emit EvUnlockIO; ret r }"

definition do_Stat :: "'w Server \<Rightarrow> string \<Rightarrow> ('w, Stat option \<times> error) act" where
  "do_Stat srv p = call (F_Stat (sv_fsys srv) p) (\<lambda>_. EvStat p)"

definition do_ReadFile :: "'w Server \<Rightarrow> string \<Rightarrow> ('w, bytes \<times> error) act" where
  "do_ReadFile srv p = call (F_ReadFile (sv_fsys srv) p) (\<lambda>_. EvReadFile p)"

definition do_ListDir :: "'w Server \<Rightarrow> string \<Rightarrow> ('w, DirEntry list \<times> error) act" where
  "do_ListDir srv p = call (F_ListDir (sv_fsys srv) p) (\<lambda>_. EvListDir p)"

definition do_ReadLink :: "'w Server \<Rightarrow> string \<Rightarrow> ('w, string \<times> error) act" where
  "do_ReadLink srv p = call (F_ReadLink (sv_fsys srv) p) (\<lambda>_. EvReadLink p)"

definition do_WriteFile :: "'w Server \<Rightarrow> string \<Rightarrow> bytes \<Rightarrow> u32 \<Rightarrow> ('w, error) act" where
  "do_WriteFile srv p d perm = call (F_WriteFile (sv_fsys srv) p d perm) (\<lambda>_. EvWriteFile p d perm)"

definition do_MkDir :: "'w Server \<Rightarrow> string \<Rightarrow> u32 \<Rightarrow> ('w, error) act" where
  "do_MkDir srv p perm = call (F_MkDir (sv_fsys srv) p perm) (\<lambda>_. EvMkDir p perm)"

definition do_DeleteFile :: "'w Server \<Rightarrow> string \<Rightarrow> ('w, error) act" where
  "do_DeleteFile srv p = call (F_DeleteFile (sv_fsys srv) p) (\<lambda>_. EvDeleteFile p)"

definition do_DeleteDir :: "'w Server \<Rightarrow> string \<Rightarrow> ('w, error) act" where
  "do_DeleteDir srv p = call (F_DeleteDir (sv_fsys srv) p) (\<lambda>_. EvDeleteDir p)"

definition do_Rename :: "'w Server \<Rightarrow> string \<Rightarrow> string \<Rightarrow> ('w, error) act" where
  "do_Rename srv p q = call (F_Rename (sv_fsys srv) p q) (\<lambda>_. EvRename p q)"

definition do_Size :: "'w Server \<Rightarrow> File \<Rightarrow> ('w, i64) act" where
  "do_Size srv f = call (F_Size (sv_fsys srv) f) (\<lambda>_. EvSize f)"

definition do_ReadAt :: "'w Server \<Rightarrow> File \<Rightarrow> nat \<Rightarrow> i64 \<Rightarrow> ('w, int \<times> bytes \<times> error) act" where
  "do_ReadAt srv f n off = call (F_ReadAt (sv_fsys srv) f n off) (\<lambda>_. EvReadAt f n off)"

definition do_WriteAt :: "'w Server \<Rightarrow> File \<Rightarrow> bytes \<Rightarrow> i64 \<Rightarrow> ('w, int \<times> error) act" where
  "do_WriteAt srv f d off = call (F_WriteAt (sv_fsys srv) f d off) (\<lambda>_. EvWriteAt f d off)"

definition do_FileTruncate :: "'w Server \<Rightarrow> File \<Rightarrow> i64 \<Rightarrow> ('w, error) act" where
  "do_FileTruncate srv f n = call (F_FileTruncate (sv_fsys srv) f n) (\<lambda>_. EvFileTruncate f n)"

definition do_Sync :: "'w Server \<Rightarrow> File \<Rightarrow> ('w, error) act" where
  "do_Sync srv f = call (F_Sync (sv_fsys srv) f) (\<lambda>_. EvSync f)"

subsection \<open>Metadata\<close>

definition resolve :: "u32 \<Rightarrow> string \<Rightarrow> message + string" where
  "resolve rid p = (case clean p of
     None \<Rightarrow> Inl (status_msg rid StatusFailure ''invalid path'')
   | Some c \<Rightarrow> Inr c)"

definition opStat :: "'w Server \<Rightarrow> PathRequest \<Rightarrow> ('w, reply) act" where
  "opStat srv m =
     (case resolve (p_ID m) (p_Path m) of
        Inl bad \<Rightarrow> ret (Answer bad)
      | Inr path \<Rightarrow> with_rlock (do {
          (st, err) \<leftarrow> do_Stat srv path;
          if err \<noteq> None then failure (p_ID m) err StatusNoSuchFile
          else (case st of
                  None \<Rightarrow> answer (p_ID m) StatusFailure ''driver returned no stat''
                | Some st \<Rightarrow> ret (Answer (AttrsMsg \<lparr>ar_ID = p_ID m, ar_Attrs = attrsFromStat srv st\<rparr>)))
        }))"

definition opFstat :: "'w Server \<Rightarrow> HandleRequest \<Rightarrow> ('w, reply) act" where
  "opFstat srv m =
     do {
       t \<leftarrow> the_handles;
       case handles_get t (hr_Handle m) of
         None \<Rightarrow> answer (hr_ID m) StatusFailure ''unknown handle''
       | Some h \<Rightarrow> opStat srv \<lparr>p_PacketType = 0, p_ID = hr_ID m, p_Path = of_path h\<rparr>
     }"

text \<open>
  The rest of \<^verbatim>\<open>opSetstat\<close> after each of its early returns is a definition of its own, from the last to
  the first.
\<close>

definition setstat_times :: "'w MetadataSetter \<Rightarrow> u32 \<Rightarrow> string \<Rightarrow> Attributes \<Rightarrow> ('w, reply) act" where
  "setstat_times ms rid path a =
     (if has (a_Flags a) AttrACModTime then do {
        err \<leftarrow> call (ms_Chtimes ms path (unixTime (a_Atime a)) (unixTime (a_Mtime a)))
                 (\<lambda>_. EvChtimes path (unixTime (a_Atime a)) (unixTime (a_Mtime a)));
        if err \<noteq> None then failure rid err StatusFailure else answer rid StatusOK ''''
      } else answer rid StatusOK '''')"

definition setstat_owner :: "'w MetadataSetter \<Rightarrow> u32 \<Rightarrow> string \<Rightarrow> Attributes \<Rightarrow> ('w, reply) act" where
  "setstat_owner ms rid path a =
     (if has (a_Flags a) AttrUIDGID then do {
        err \<leftarrow> call (ms_Chown ms path (a_UID a) (a_GID a)) (\<lambda>_. EvChown path (a_UID a) (a_GID a));
        if err \<noteq> None then failure rid err StatusFailure else setstat_times ms rid path a
      } else setstat_times ms rid path a)"

definition setstat_meta :: "'w Server \<Rightarrow> u32 \<Rightarrow> string \<Rightarrow> Attributes \<Rightarrow> ('w, reply) act" where
  "setstat_meta srv rid path a =
     (case F_MetadataSetter (sv_fsys srv) of
        None \<Rightarrow> answer rid StatusOK ''''
      | Some ms \<Rightarrow>
          if has (a_Flags a) AttrPermissions then do {
            err \<leftarrow> call (ms_Chmod ms path (a_Permissions a AND ModePerm))
                     (\<lambda>_. EvChmod path (a_Permissions a AND ModePerm));
            if err \<noteq> None then failure rid err StatusFailure else setstat_owner ms rid path a
          } else setstat_owner ms rid path a)"

definition opSetstat :: "'w Server \<Rightarrow> u32 \<Rightarrow> string \<Rightarrow> Attributes \<Rightarrow> ('w, reply) act" where
  "opSetstat srv rid path a =
     (if sv_ro srv then answer rid StatusPermissionDenied errReadOnly
      else with_lock (
        if has (a_Flags a) AttrSize then
          (case F_Truncater (sv_fsys srv) of
             None \<Rightarrow> answer rid StatusOpUnsupported ''driver cannot truncate''
           | Some trunc \<Rightarrow>
               if uint (a_Size a) > 2 ^ 63 - 1 then answer rid StatusFailure ''size beyond what a file can hold''
               else do {
                 err \<leftarrow> call (trunc path (a_Size a)) (\<lambda>_. EvTruncate path (a_Size a));
                 if err \<noteq> None then failure rid err StatusFailure else setstat_meta srv rid path a
               })
        else setstat_meta srv rid path a))"

subsection \<open>Directories\<close>

definition opOpendir :: "'w Env \<Rightarrow> 'w Server \<Rightarrow> PathRequest \<Rightarrow> ('w, reply) act" where
  "opOpendir E srv m =
     (case resolve (p_ID m) (p_Path m) of
        Inl bad \<Rightarrow> ret (Answer bad)
      | Inr path \<Rightarrow> do {
          t \<leftarrow> the_handles;
          if handles_full t then answer (p_ID m) StatusFailure errTooManyHandles
          else with_rlock (do {
            (st, err) \<leftarrow> do_Stat srv path;
            if err \<noteq> None then failure (p_ID m) err StatusNoSuchFile
            else (case st of
              None \<Rightarrow> answer (p_ID m) StatusFailure ''driver returned no stat''
            | Some st \<Rightarrow>
                if (ucast (fi_Mode st) :: u32) AND ModeFmt \<noteq> ModeDir
                then answer (p_ID m) StatusFailure ''not a directory''
                else do {
                  (entries, err) \<leftarrow> do_ListDir srv path;
                  if err \<noteq> None then failure (p_ID m) err StatusFailure
                  else do {
                    r \<leftarrow> handles_add E \<lparr>of_path = path, of_dir = True, of_entries = entries, of_pos = 0,
                           of_file = None, of_writable = None, of_write = False\<rparr>;
                    case r of
                      Inl err \<Rightarrow> answer (p_ID m) StatusFailure (errText (Some err))
                    | Inr tok \<Rightarrow> ret (Answer (HandleReplyMsg \<lparr>hl_ID = p_ID m, hl_Handle = tok\<rparr>))
                  }
                })
          })
        })"

fun readdirBatch :: "'w Server \<Rightarrow> openFile \<Rightarrow> DirEntry list \<Rightarrow> ('w, NameItem list) act" where
  "readdirBatch srv h [] = ret []"
| "readdirBatch srv h (e # es) =
     (case join (of_path h) (de_Name e) of
        None \<Rightarrow> readdirBatch srv h es
      | Some full \<Rightarrow> do {
          (st, err) \<leftarrow> do_Stat srv full;
          case (err, st) of
            (None, Some st) \<Rightarrow> do {
              items \<leftarrow> readdirBatch srv h es;
              let a = attrsFromStat srv st;
              ret (\<lparr>ni_Filename = de_Name e, ni_Longname = longName (de_Name e) a, ni_Attrs = a\<rparr> # items)
            }
          | _ \<Rightarrow> readdirBatch srv h es
        })"

text \<open>The loop of \<^verbatim>\<open>opReaddir\<close>: each round moves the cursor of the handle, which is a pointer.\<close>

function readdir_loop :: "'w Server \<Rightarrow> u32 \<Rightarrow> string \<Rightarrow> openFile \<Rightarrow> ('w, reply) act" where
  "readdir_loop srv rid tok h =
     (if of_pos h < length (of_entries h) then
        let stop = min (of_pos h + readdirBatchSize) (length (of_entries h)) in
        (case slice (of_pos h) stop (of_entries h) of
           None \<Rightarrow> ret Panic
         | Some batch \<Rightarrow> do {
             t \<leftarrow> the_handles;
             set_handles (handles_put tok (h\<lparr>of_pos := stop\<rparr>) t);
             items \<leftarrow> readdirBatch srv (h\<lparr>of_pos := stop\<rparr>) batch;
             if length items > 0 then ret (Answer (NameMsg \<lparr>nr_ID = rid, nr_Items = items\<rparr>))
             else readdir_loop srv rid tok (h\<lparr>of_pos := stop\<rparr>)
           })
      else answer rid StatusEOF '''')"
  by auto

termination
  by (relation "measure (\<lambda>(srv, rid, tok, h). length (of_entries h) - of_pos h)")
    (auto simp: readdirBatchSize_def)

declare readdir_loop.simps [simp del]

definition opReaddir :: "'w Server \<Rightarrow> HandleRequest \<Rightarrow> ('w, reply) act" where
  "opReaddir srv m =
     do {
       t \<leftarrow> the_handles;
       case handles_get t (hr_Handle m) of
         None \<Rightarrow> answer (hr_ID m) StatusFailure ''unknown handle''
       | Some h \<Rightarrow>
           if \<not> of_dir h then answer (hr_ID m) StatusFailure ''handle is not a directory''
           else with_rlock (readdir_loop srv (hr_ID m) (hr_Handle m) h)
     }"

definition one_name :: "u32 \<Rightarrow> string \<Rightarrow> message" where
  "one_name rid name =
     NameMsg \<lparr>nr_ID = rid, nr_Items = [\<lparr>ni_Filename = name, ni_Longname = name, ni_Attrs = noAttributes\<rparr>]\<rparr>"

definition opRealpath :: "PathRequest \<Rightarrow> ('w, reply) act" where
  "opRealpath m =
     (case resolve (p_ID m) (p_Path m) of
        Inl bad \<Rightarrow> ret (Answer bad)
      | Inr path \<Rightarrow> ret (Answer (one_name (p_ID m) path)))"

definition opMkdir :: "'w Server \<Rightarrow> SetstatRequest \<Rightarrow> ('w, reply) act" where
  "opMkdir srv m =
     (if sv_ro srv then answer (ss_ID m) StatusPermissionDenied errReadOnly
      else (case resolve (ss_ID m) (ss_Path m) of
        Inl bad \<Rightarrow> ret (Answer bad)
      | Inr path \<Rightarrow>
          let perm = (if has (a_Flags (ss_Attrs m)) AttrPermissions
                      then a_Permissions (ss_Attrs m) AND ModePerm else 0x1ED)
          in with_lock (do {
            err \<leftarrow> do_MkDir srv path perm;
            if err \<noteq> None then failure (ss_ID m) err StatusFailure else answer (ss_ID m) StatusOK ''''
          })))"

definition opRemove :: "'w Server \<Rightarrow> PathRequest \<Rightarrow> ('w, reply) act" where
  "opRemove srv m =
     (if sv_ro srv then answer (p_ID m) StatusPermissionDenied errReadOnly
      else (case resolve (p_ID m) (p_Path m) of
        Inl bad \<Rightarrow> ret (Answer bad)
      | Inr path \<Rightarrow> with_lock (do {
          err \<leftarrow> (if p_PacketType m = FxpRmdir then do_DeleteDir srv path else do_DeleteFile srv path);
          if err \<noteq> None then failure (p_ID m) err StatusNoSuchFile else answer (p_ID m) StatusOK ''''
        })))"

definition opRename :: "'w Server \<Rightarrow> RenameRequest \<Rightarrow> ('w, reply) act" where
  "opRename srv m =
     (if sv_ro srv then answer (rn_ID m) StatusPermissionDenied errReadOnly
      else (case resolve (rn_ID m) (rn_OldPath m) of
        Inl bad \<Rightarrow> ret (Answer bad)
      | Inr oldPath \<Rightarrow>
          (case resolve (rn_ID m) (rn_NewPath m) of
             Inl bad \<Rightarrow> ret (Answer bad)
           | Inr newPath \<Rightarrow> with_lock (do {
               err \<leftarrow> do_Rename srv oldPath newPath;
               if err \<noteq> None then failure (rn_ID m) err StatusFailure else answer (rn_ID m) StatusOK ''''
             }))))"

definition opReadlink :: "'w Server \<Rightarrow> PathRequest \<Rightarrow> ('w, reply) act" where
  "opReadlink srv m =
     (case resolve (p_ID m) (p_Path m) of
        Inl bad \<Rightarrow> ret (Answer bad)
      | Inr path \<Rightarrow> with_rlock (do {
          (target, err) \<leftarrow> do_ReadLink srv path;
          if err \<noteq> None then failure (p_ID m) err StatusNoSuchFile
          else ret (Answer (one_name (p_ID m) target))
        }))"

definition opSymlink :: "'w Server \<Rightarrow> SymlinkRequest \<Rightarrow> ('w, reply) act" where
  "opSymlink srv m =
     (if sv_ro srv then answer (sl_ID m) StatusPermissionDenied errReadOnly
      else (case resolve (sl_ID m) (sl_LinkPath m) of
        Inl bad \<Rightarrow> ret (Answer bad)
      | Inr linkPath \<Rightarrow>
          (case F_Symlinker (sv_fsys srv) of
             None \<Rightarrow> answer (sl_ID m) StatusOpUnsupported ''driver cannot create symlinks''
           | Some symlink \<Rightarrow> with_lock (do {
               err \<leftarrow> call (symlink (sl_TargetPath m) linkPath) (\<lambda>_. EvSymlink (sl_TargetPath m) linkPath);
               if err \<noteq> None then failure (sl_ID m) err StatusFailure else answer (sl_ID m) StatusOK ''''
             }))))"

subsection \<open>Opening and closing files\<close>

definition wantsWrite :: "u32 \<Rightarrow> bool" where
  "wantsWrite pflags \<longleftrightarrow> has pflags (FxfWrite OR FxfAppend OR FxfCreat OR FxfTrunc OR FxfExcl)"

text \<open>The end of \<^verbatim>\<open>finishOpen\<close>, once the file of the handle is settled.\<close>

definition register_handle :: "'w Env \<Rightarrow> 'w Server \<Rightarrow> u32 \<Rightarrow> openFile \<Rightarrow> ('w, reply) act" where
  "register_handle E srv rid h =
     do {
       r \<leftarrow> handles_add E h;
       case r of
         Inl err \<Rightarrow>
           (case of_file h of
              None \<Rightarrow> answer rid StatusFailure (errText (Some err))
            | Some f \<Rightarrow> do { do_Close srv f; answer rid StatusFailure (errText (Some err)) })
       | Inr tok \<Rightarrow> ret (Answer (HandleReplyMsg \<lparr>hl_ID = rid, hl_Handle = tok\<rparr>))
     }"

definition finishOpen :: "'w Env \<Rightarrow> 'w Server \<Rightarrow> u32 \<Rightarrow> string \<Rightarrow> bool \<Rightarrow> ('w, reply) act" where
  "finishOpen E srv rid path write =
     (let h = \<lparr>of_path = path, of_dir = False, of_entries = [], of_pos = 0, of_file = None,
            of_writable = None, of_write = write\<rparr> in
      case sv_opener srv of
        None \<Rightarrow> register_handle E srv rid h
      | Some OpenFile \<Rightarrow> do {
          (f, err) \<leftarrow> call (OpenFile path) (\<lambda>(f, err). EvOpenFile path (if err = None then f else None));
          if err \<noteq> None then failure rid err StatusFailure
          else (case f of
            None \<Rightarrow> answer rid StatusFailure ''driver returned no file''
          | Some f \<Rightarrow>
              if \<not> write then register_handle E srv rid (h\<lparr>of_file := Some f\<rparr>)
              else if fl_Writable f then register_handle E srv rid (h\<lparr>of_file := Some f, of_writable := Some f\<rparr>)
              else do {
                err \<leftarrow> do_Close srv f;
                if err \<noteq> None then failure rid err StatusFailure
                else register_handle E srv rid h
              })
        })"

definition opOpen :: "'w Env \<Rightarrow> 'w Server \<Rightarrow> OpenRequest \<Rightarrow> ('w, reply) act" where
  "opOpen E srv m =
     (case resolve (or_ID m) (or_Path m) of
        Inl bad \<Rightarrow> ret (Answer bad)
      | Inr path \<Rightarrow>
          let write = wantsWrite (or_PFlags m) in
          if write \<and> sv_ro srv then answer (or_ID m) StatusPermissionDenied errReadOnly
          else do {
            t \<leftarrow> the_handles;
            if handles_full t then answer (or_ID m) StatusFailure errTooManyHandles
            else with_lock (do {
              (st, statErr) \<leftarrow> do_Stat srv path;
              let there = (statErr = None \<and> st \<noteq> None);
              if there \<and> (ucast (fi_Mode (the st)) :: u32) AND ModeFmt = ModeDir
              then answer (or_ID m) StatusFailure ''is a directory''
              else if \<not> write then
                (if \<not> there then failure (or_ID m) statErr StatusNoSuchFile
                 else finishOpen E srv (or_ID m) path False)
              else
                let perm = (if has (a_Flags (or_Attrs m)) AttrPermissions
                            then a_Permissions (or_Attrs m) AND ModePerm else 0x1A4)
                in if there \<and> has (or_PFlags m) FxfExcl
                   then answer (or_ID m) StatusFailure ''file already exists''
                   else if \<not> there \<and> \<not> has (or_PFlags m) FxfCreat
                   then failure (or_ID m) statErr StatusNoSuchFile
                   else if \<not> there \<or> has (or_PFlags m) FxfTrunc
                   then do {
                     err \<leftarrow> do_WriteFile srv path [] perm;
                     if err \<noteq> None then failure (or_ID m) err StatusFailure
                     else finishOpen E srv (or_ID m) path True
                   }
                   else finishOpen E srv (or_ID m) path True
            })
          })"

text \<open>\<^verbatim>\<open>h.file.Close()\<close> at the end of \<^verbatim>\<open>opClose\<close>.\<close>

definition close_file :: "'w Server \<Rightarrow> u32 \<Rightarrow> openFile \<Rightarrow> ('w, reply) act" where
  "close_file srv rid h =
     (case of_file h of
        None \<Rightarrow> answer rid StatusOK ''''
      | Some f \<Rightarrow> do {
          err \<leftarrow> do_Close srv f;
          if err \<noteq> None then failure rid err StatusFailure else answer rid StatusOK ''''
        })"

definition opClose :: "'w Server \<Rightarrow> HandleRequest \<Rightarrow> ('w, reply) act" where
  "opClose srv m =
     do {
       r \<leftarrow> handles_remove (hr_Handle m);
       case r of
         None \<Rightarrow> answer (hr_ID m) StatusFailure ''unknown handle''
       | Some h \<Rightarrow> with_lock (
           case of_writable h of
             None \<Rightarrow> close_file srv (hr_ID m) h
           | Some w \<Rightarrow> do {
               err \<leftarrow> do_Sync srv w;
               if err \<noteq> None then
                 (case of_file h of
                    None \<Rightarrow> ret Panic
                  | Some f \<Rightarrow> do { do_Close srv f; failure (hr_ID m) err StatusFailure })
               else close_file srv (hr_ID m) h
             })
     }"

end
