(* ===== verification/File_IO.thy ===== *)
theory File_IO
  imports Ops
begin

text \<open>
  Reading and writing file contents: \<^verbatim>\<open>READ\<close> and \<^verbatim>\<open>WRITE\<close> of \<^verbatim>\<open>ops.go\<close>, which become jobs that may run
  beside others, and \<^verbatim>\<open>copy-data\<close> of \<^verbatim>\<open>copydata.go\<close>. A job carries the byte range it touches, which is
  what the \<^verbatim>\<open>inflight\<close> module orders it by, and the action that answers it, whose argument is the read
  buffer of its request slot up to its capacity, as the previous request left it.
\<close>

datatype span = ReadRange string u64 u64 | WriteRange string u64 u64 | WriteAll string

record 'w job =
  j_span :: span
  j_run :: "bytes \<Rightarrow> ('w, reply) act"

definition MaxInt64 :: int where
  "MaxInt64 = 2 ^ 63 - 1"

definition satAdd :: "u64 \<Rightarrow> u64 \<Rightarrow> u64" where
  "satAdd a b = (if a > -1 - b then -1 else a + b)"

subsection \<open>READ\<close>

definition readAt :: "'w Server \<Rightarrow> u32 \<Rightarrow> File \<Rightarrow> u64 \<Rightarrow> nat \<Rightarrow> bytes \<Rightarrow> ('w, reply) act" where
  "readAt srv rid f off n slot =
     (if uint off > MaxInt64 then answer rid StatusEOF ''''
      else let slot = (if length slot < n then replicate n 0 else slot) in do {
        (got, content, err) \<leftarrow> do_ReadAt srv f n off;
        let buf = overlay (take n content) slot;
        if got > 0 then
          (case slice 0 (nat got) buf of
             None \<Rightarrow> ret Panic
           | Some d \<Rightarrow> ret (Answer (DataMsg \<lparr>dr_ID = rid, dr_Data = d\<rparr>)))
        else if err = None \<or> errors_Is (the err) io_EOF then answer rid StatusEOF ''''
        else failure rid err StatusFailure
      })"

definition readWhole :: "'w Server \<Rightarrow> u32 \<Rightarrow> string \<Rightarrow> u64 \<Rightarrow> nat \<Rightarrow> ('w, reply) act" where
  "readWhole srv rid path off n =
     do {
       (data, err) \<leftarrow> do_ReadFile srv path;
       if err \<noteq> None then failure rid err StatusFailure
       else if unat off \<ge> length data then answer rid StatusEOF ''''
       else let stop = min (unat (satAdd off (word_of_nat n))) (length data) in
         (case slice (unat off) stop data of
            None \<Rightarrow> ret Panic
          | Some d \<Rightarrow> ret (Answer (DataMsg \<lparr>dr_ID = rid, dr_Data = d\<rparr>)))
     }"

definition readJob :: "'w Server \<Rightarrow> ReadRequest \<Rightarrow> handle_table \<Rightarrow> message + 'w job" where
  "readJob srv m t =
     (case handles_get t (rr_Handle m) of
        None \<Rightarrow> Inl (status_msg (rr_ID m) StatusFailure ''unknown handle'')
      | Some h \<Rightarrow>
          if of_dir h then Inl (status_msg (rr_ID m) StatusFailure ''handle is a directory'')
          else if rr_Length m = 0 then Inl (DataMsg \<lparr>dr_ID = rr_ID m, dr_Data = []\<rparr>)
          else let n = nat (min (uint (rr_Length m)) (readLength srv)) in
            Inr \<lparr>j_span = ReadRange (of_path h) (rr_Offset m) (word_of_nat n),
                 j_run = (\<lambda>slot. case of_file h of
                   Some f \<Rightarrow> with_IO (readAt srv (rr_ID m) f (rr_Offset m) n slot)
                 | None \<Rightarrow> with_rlock (readWhole srv (rr_ID m) (of_path h) (rr_Offset m) n))\<rparr>)"

subsection \<open>WRITE\<close>

definition maxSpliceGrowth :: int where
  "maxSpliceGrowth = 8 * 2 ^ 20"

definition maxFileSplice :: int where
  "maxFileSplice = 2 ^ 30"

definition writeSplice :: "'w Server \<Rightarrow> u32 \<Rightarrow> string \<Rightarrow> u64 \<Rightarrow> bytes \<Rightarrow> ('w, reply) act" where
  "writeSplice srv rid path off data =
     do {
       (old, err) \<leftarrow> do_ReadFile srv path;
       if err \<noteq> None then failure rid err StatusFailure
       else let stop = off + word_of_nat (length data) in
         if stop < off \<or> (uint stop > int (length old) \<and>
              (uint stop - int (length old) > maxSpliceGrowth \<or> uint stop > maxFileSplice))
         then answer rid StatusFailure ''write beyond what rewriting the whole file can hold''
         else let buf = (if uint stop > int (length old) then overlay old (replicate (unat stop) 0) else old) in
           (case slice (unat off) (length buf) buf of
              None \<Rightarrow> ret Panic
            | Some tail \<Rightarrow> do {
                err \<leftarrow> do_WriteFile srv path (take (unat off) buf @ overlay data tail) 0x1A4;
                if err \<noteq> None then failure rid err StatusFailure else answer rid StatusOK ''''
              })
     }"

definition writeJob :: "'w Server \<Rightarrow> WriteRequest \<Rightarrow> handle_table \<Rightarrow> message + 'w job" where
  "writeJob srv m t =
     (case handles_get t (wr_Handle m) of
        None \<Rightarrow> Inl (status_msg (wr_ID m) StatusFailure ''unknown handle'')
      | Some h \<Rightarrow>
          if of_dir h then Inl (status_msg (wr_ID m) StatusFailure ''handle is a directory'')
          else if sv_ro srv then Inl (status_msg (wr_ID m) StatusPermissionDenied errReadOnly)
          else if \<not> of_write h then Inl (status_msg (wr_ID m) StatusPermissionDenied ''handle not opened for writing'')
          else if uint (wr_Offset m) > MaxInt64
          then Inl (status_msg (wr_ID m) StatusFailure ''offset beyond what a file can hold'')
          else Inr (case of_writable h of
            Some w \<Rightarrow>
              \<lparr>j_span = WriteRange (of_path h) (wr_Offset m) (word_of_nat (length (wr_Data m))),
               j_run = (\<lambda>slot. with_IO (do {
                 (put, err) \<leftarrow> do_WriteAt srv w (wr_Data m) (wr_Offset m);
                 if err \<noteq> None then failure (wr_ID m) err StatusFailure else answer (wr_ID m) StatusOK ''''
               }))\<rparr>
          | None \<Rightarrow>
              \<lparr>j_span = WriteAll (of_path h),
               j_run = (\<lambda>slot. with_lock (writeSplice srv (wr_ID m) (of_path h) (wr_Offset m) (wr_Data m)))\<rparr>))"

subsection \<open>copy-data\<close>

fun werr_text :: "werr \<Rightarrow> string" where
  "werr_text ErrShort = ''wire: buffer too short''"
| "werr_text ErrLimit = ''wire: length exceeds limit''"
| "werr_text ErrTrailing = ''wire: trailing bytes after message''"
| "werr_text RuntimePanic = ''''"

text \<open>The first error of the five reads, which are all made whether or not an earlier one failed.\<close>

fun first_error :: "(werr + unit) list \<Rightarrow> werr option" where
  "first_error [] = None"
| "first_error (Inl e # rs) = Some e"
| "first_error (Inr _ # rs) = first_error rs"

abbreviation read_result :: "werr + 'a \<Rightarrow> werr + unit" where
  "read_result r \<equiv> map_sum id (\<lambda>_. ()) r"

text \<open>The copy itself, under the filesystem lock. Offsets and lengths are \<^verbatim>\<open>int64\<close>: sums wrap.\<close>

definition copy_range :: "'w Env \<Rightarrow> 'w Server \<Rightarrow> u32 \<Rightarrow> File \<Rightarrow> File \<Rightarrow> u64 \<Rightarrow> u64 \<Rightarrow> u64 \<Rightarrow> ('w, reply) act" where
  "copy_range E srv rid src dst fromOff len toOff =
     do {
       sz \<leftarrow> do_Size srv src;
       let n = (if len = 0 \<or> sint (fromOff + len) > sint sz
                then (if sint (sz - fromOff) > 0 then sz - fromOff else 0) else len);
       let stop = toOff + n;
       dsz \<leftarrow> do_Size srv dst;
       terr \<leftarrow> (if sint stop > sint dsz then do_FileTruncate srv dst stop else ret None);
       if terr \<noteq> None then failure rid terr StatusFailure
       else do {
         (copied, err) \<leftarrow> call (E_Range E dst src toOff fromOff n) (\<lambda>_. EvRange dst src toOff fromOff n);
         if err \<noteq> None then failure rid err StatusFailure else answer rid StatusOK ''''
       }
     }"

definition copyData :: "'w Env \<Rightarrow> 'w Server \<Rightarrow> u32 \<Rightarrow> bytes \<Rightarrow> ('w, reply) act" where
  "copyData E srv rid data =
     (let d = NewDecoder data;
          (from, d) = Decoder_String d;
          (fromOff, d) = Decoder_Uint64 d;
          (len, d) = Decoder_Uint64 d;
          (dest, d) = Decoder_String d;
          (toOff, d) = Decoder_Uint64 d
      in case first_error
          [read_result from, read_result fromOff, read_result len, read_result dest, read_result toOff] of
        Some RuntimePanic \<Rightarrow> ret Panic
      | Some e \<Rightarrow> answer rid StatusBadMessage (''copy-data: '' @ werr_text e)
      | None \<Rightarrow>
          let fromOff = projr fromOff; len = projr len; toOff = projr toOff in
          if \<not> copiesData srv
          then answer rid StatusOpUnsupported (''unsupported extension: '' @ copyDataExtension)
          else do {
            t \<leftarrow> the_handles;
            case (handles_get t (projr from), handles_get t (projr dest)) of
              (Some src, Some dst) \<Rightarrow>
                if of_dir src \<or> of_dir dst then answer rid StatusFailure ''handle is a directory''
                else if of_path src = of_path dst then answer rid StatusFailure ''copy-data within one file''
                else if \<not> of_write dst
                then answer rid StatusPermissionDenied ''write-to handle was not opened for writing''
                else (case (of_file src, of_writable dst) of
                  (Some s, Some w) \<Rightarrow>
                    if uint fromOff > 2 ^ 62 \<or> uint len > 2 ^ 62 \<or> uint toOff > 2 ^ 62
                    then answer rid StatusFailure ''copy-data: offset or length out of range''
                    else with_lock (copy_range E srv rid s w fromOff len toOff)
                | _ \<Rightarrow> answer rid StatusOpUnsupported
                         ''copy-data needs files the driver opens and writes in place'')
            | _ \<Rightarrow> answer rid StatusFailure ''unknown handle''
          })"

end
