(* ===== verification/Session.thy ===== *)
theory Session
  imports File_IO
begin

text \<open>
  One session, \<^verbatim>\<open>session.go\<close>: negotiation, dispatch and the request loop, together with \<^verbatim>\<open>prepare\<close> of
  \<^verbatim>\<open>concurrent.go\<close> and \<^verbatim>\<open>Serve\<close> of \<^verbatim>\<open>server.go\<close>. The loop is that of a session with one request in flight,
  the behaviour \<^verbatim>\<open>WithMaxInFlight(1)\<close> selects: each request is answered and its reply written before the
  next packet is read. The read buffer a request finds in its slot is arbitrary.
\<close>

datatype sesserr = ErrNoInit | ErrVersion | SessPacket perr | SessWire werr

definition requestID :: "bytes \<Rightarrow> u32" where
  "requestID payload = (if length payload < 4 then 0 else be_val (take 4 payload))"

definition badMessage :: "u32 \<Rightarrow> werr \<Rightarrow> message" where
  "badMessage rid err = status_msg rid StatusBadMessage (errText (Some (new_error (werr_text err))))"

definition bad :: "u32 \<Rightarrow> werr \<Rightarrow> reply" where
  "bad rid err = (if err = RuntimePanic then Panic else Answer (badMessage rid err))"

definition opFsetstat :: "'w Server \<Rightarrow> FsetstatRequest \<Rightarrow> ('w, reply) act" where
  "opFsetstat srv m =
     do {
       t \<leftarrow> the_handles;
       case handles_get t (fs_Handle m) of
         None \<Rightarrow> answer (fs_ID m) StatusFailure ''unknown handle''
       | Some h \<Rightarrow> opSetstat srv (fs_ID m) (of_path h) (fs_Attrs m)
     }"

definition opExtended :: "'w Env \<Rightarrow> 'w Server \<Rightarrow> ExtendedRequest \<Rightarrow> ('w, reply) act" where
  "opExtended E srv m =
     (if er_Name m = limitsExtension then ret (Answer (limitsReply srv (er_ID m)))
      else if er_Name m = copyDataExtension then copyData E srv (er_ID m) (er_Data m)
      else answer (er_ID m) StatusOpUnsupported (''unsupported extension: '' @ er_Name m))"

text \<open>The shape of every case of \<^verbatim>\<open>dispatch\<close>: decode, answer a bad message, or run the handler.\<close>

definition handle :: "bytes \<Rightarrow> werr + 'm \<Rightarrow> ('m \<Rightarrow> ('w, reply) act) \<Rightarrow> ('w, reply) act" where
  "handle payload r f = (case r of Inl err \<Rightarrow> ret (bad (requestID payload) err) | Inr m \<Rightarrow> f m)"

definition dispatch :: "'w Env \<Rightarrow> 'w Server \<Rightarrow> byte \<Rightarrow> bytes \<Rightarrow> ('w, reply) act" where
  "dispatch E srv t payload =
     (if t = FxpOpen then handle payload (DecodeOpen payload) (opOpen E srv)
      else if t = FxpClose then handle payload (DecodeHandle t payload) (opClose srv)
      else if t = FxpLstat \<or> t = FxpStat then handle payload (DecodePath t payload) (opStat srv)
      else if t = FxpFstat then handle payload (DecodeHandle t payload) (opFstat srv)
      else if t = FxpSetstat then
        handle payload (DecodeSetstat t payload) (\<lambda>m. opSetstat srv (ss_ID m) (ss_Path m) (ss_Attrs m))
      else if t = FxpFsetstat then handle payload (DecodeFsetstat payload) (opFsetstat srv)
      else if t = FxpOpendir then handle payload (DecodePath t payload) (opOpendir E srv)
      else if t = FxpReaddir then handle payload (DecodeHandle t payload) (opReaddir srv)
      else if t = FxpRemove \<or> t = FxpRmdir then handle payload (DecodePath t payload) (opRemove srv)
      else if t = FxpMkdir then handle payload (DecodeSetstat t payload) (opMkdir srv)
      else if t = FxpRealpath then handle payload (DecodePath t payload) opRealpath
      else if t = FxpRename then handle payload (DecodeRename payload) (opRename srv)
      else if t = FxpReadlink then handle payload (DecodePath t payload) (opReadlink srv)
      else if t = FxpSymlink then handle payload (DecodeSymlink payload) (opSymlink srv)
      else if t = FxpExtended then handle payload (DecodeExtended payload) (opExtended E srv)
      else answer (requestID payload) StatusOpUnsupported ''unsupported request type'')"

text \<open>What \<^verbatim>\<open>prepare\<close> returns: a job, a reply to send at once, or neither for a barrier.\<close>

datatype 'w prepared = Job "'w job" | Early reply | Barrier

definition prepare_as :: "bytes \<Rightarrow> werr + 'm \<Rightarrow> ('m \<Rightarrow> message + 'w job) \<Rightarrow> 'w prepared" where
  "prepare_as payload r f =
     (case r of
        Inl err \<Rightarrow> Early (bad (requestID payload) err)
      | Inr m \<Rightarrow> (case f m of Inl early \<Rightarrow> Early (Answer early) | Inr j \<Rightarrow> Job j))"

definition prepare :: "'w Server \<Rightarrow> byte \<Rightarrow> bytes \<Rightarrow> handle_table \<Rightarrow> 'w prepared" where
  "prepare srv t payload tbl =
     (if t = FxpRead then prepare_as payload (DecodeRead payload) (\<lambda>m. readJob srv m tbl)
      else if t = FxpWrite then prepare_as payload (DecodeWrite payload) (\<lambda>m. writeJob srv m tbl)
      else Barrier)"

definition serve_packet :: "'w Env \<Rightarrow> 'w Server \<Rightarrow> bytes \<Rightarrow> byte \<Rightarrow> bytes \<Rightarrow> ('w, reply) act" where
  "serve_packet E srv slot t payload =
     do {
       tbl \<leftarrow> the_handles;
       case prepare srv t payload tbl of
         Job j \<Rightarrow> j_run j slot
       | Early early \<Rightarrow> ret early
       | Barrier \<Rightarrow> dispatch E srv t payload
     }"

subsection \<open>Negotiation\<close>

definition negotiate :: "'w Server \<Rightarrow> reader \<Rightarrow> writer \<Rightarrow> sesserr option \<times> reader \<times> writer" where
  "negotiate srv r w =
     (case ReadPacket r 0 (packetLimit srv) of
        (Inl err, _, r) \<Rightarrow> (Some (SessPacket err), r, w)
      | (Inr (t, payload), _, r) \<Rightarrow>
          if t \<noteq> FxpInit then (Some ErrNoInit, r, w)
          else (case DecodeInit payload of
            Inl err \<Rightarrow> (Some (SessWire err), r, w)
          | Inr init \<Rightarrow>
              if ir_Version init < Version then (Some ErrVersion, r, w)
              else (case Send w (VersionMsg \<lparr>vr_Version = Version, vr_Extensions = extensions srv\<rparr>) 0 of
                ((_, err), w) \<Rightarrow> (map_option SessPacket err, r, w))))"

subsection \<open>The request loop\<close>

lemma ReadPacket_shrinks:
  "ReadPacket r cap lim = (Inr p, cap', r') \<Longrightarrow> length (rd_data r') < length (rd_data r)"
  by (cases p) (auto dest!: ReadPacket_consumes)

definition endOfInput :: "perr \<Rightarrow> sesserr option" where
  "endOfInput err = (if err = ErrIO EOF then None else Some (SessPacket err))"

datatype outcome = Ended "sesserr option" | Crashed

text \<open>
  \<open>slots i\<close> is the read buffer the \<open>i\<close>-th request finds in its slot. The first test is \<^verbatim>\<open>br.Peek(1)\<close>. Every
  round takes at least five bytes off the stream, so the loop ends.
\<close>

function run_loop ::
  "'w Env \<Rightarrow> 'w Server \<Rightarrow> (nat \<Rightarrow> bytes) \<Rightarrow> nat \<Rightarrow> reader \<Rightarrow> writer \<Rightarrow> 'w sess \<Rightarrow> outcome \<times> writer \<times> 'w sess" where
  "run_loop E srv slots i r w s =
     (if rd_data r = [] then (Ended (endOfInput (ErrIO (rd_err r))), w, s)
      else (case ReadPacket r 0 (packetLimit srv) of
        (Inl err, _, r') \<Rightarrow> (Ended (endOfInput err), w, s)
      | (Inr (t, payload), _, r') \<Rightarrow>
          (case run_state (serve_packet E srv (slots i) t payload) s of
             (Panic, s') \<Rightarrow> (Crashed, w, s')
           | (Answer m, s') \<Rightarrow>
               (case Send w m 0 of
                  ((_, Some err), w') \<Rightarrow> (Ended (Some (SessPacket err)), w', s')
                | ((_, None), w') \<Rightarrow> run_loop E srv slots (Suc i) r' w' s'))))"
  by auto

termination
  by (relation "measure (\<lambda>(E, srv, slots, i, r, w, s). length (rd_data r))")
    (auto dest!: ReadPacket_shrinks [OF sym])

declare run_loop.simps [simp del]

definition Serve ::
  "'w Env \<Rightarrow> 'w Server \<Rightarrow> (nat \<Rightarrow> bytes) \<Rightarrow> (handle_table \<Rightarrow> string list) \<Rightarrow> reader \<Rightarrow> writer \<Rightarrow> 'w \<Rightarrow>
     outcome \<times> writer \<times> 'w sess" where
  "Serve E srv slots order r w world =
     (let s = \<lparr>se_world = world, se_handles = newHandles, se_trace = []\<rparr>;
          (out, w, s) = (case negotiate srv r w of
            (Some err, r, w) \<Rightarrow> (Ended (Some err), w, s)
          | (None, r, w) \<Rightarrow> run_loop E srv slots 0 r w s)
      in if out = Crashed then (out, w, s)
         else (out, w, snd (run_state (closeAll srv (order (se_handles s))) s)))"

end
