(* ===== verification/Discipline.thy ===== *)
theory Discipline
  imports Session "HOL-Library.Multiset"
begin

text \<open>
  What a session may ask of its driver. \<open>monitor\<close> is an abstract specification of the conversation
  between the server and the driver: which calls are allowed while which lock is held, with which paths,
  and which of them a read-only export may make. The theory shows that every handler, and so every
  session, keeps to it. \<open>opens_run\<close> follows the driver's open files through the same trace: it fails on the
  use of a file that is not open. Both are established together, with the reply each handler ends with.
\<close>

subsection \<open>The specification\<close>

datatype mode = Free | Excl | PathShared | IOShared

fun permitted :: "bool \<Rightarrow> mode \<Rightarrow> event \<Rightarrow> bool" where
  "permitted ro m (EvStat p) \<longleftrightarrow> (m = Excl \<or> m = PathShared) \<and> resolved p"
| "permitted ro m (EvReadFile p) \<longleftrightarrow> (m = Excl \<or> m = PathShared) \<and> resolved p"
| "permitted ro m (EvListDir p) \<longleftrightarrow> (m = Excl \<or> m = PathShared) \<and> resolved p"
| "permitted ro m (EvReadLink p) \<longleftrightarrow> (m = Excl \<or> m = PathShared) \<and> resolved p"
| "permitted ro m (EvWriteFile p d perm) \<longleftrightarrow> m = Excl \<and> \<not> ro \<and> resolved p"
| "permitted ro m (EvMkDir p perm) \<longleftrightarrow> m = Excl \<and> \<not> ro \<and> resolved p"
| "permitted ro m (EvDeleteFile p) \<longleftrightarrow> m = Excl \<and> \<not> ro \<and> resolved p"
| "permitted ro m (EvDeleteDir p) \<longleftrightarrow> m = Excl \<and> \<not> ro \<and> resolved p"
| "permitted ro m (EvRename p q) \<longleftrightarrow> m = Excl \<and> \<not> ro \<and> resolved p \<and> resolved q"
| "permitted ro m (EvSymlink target p) \<longleftrightarrow> m = Excl \<and> \<not> ro \<and> resolved p"
| "permitted ro m (EvTruncate p n) \<longleftrightarrow> m = Excl \<and> \<not> ro"
| "permitted ro m (EvChmod p perm) \<longleftrightarrow> m = Excl \<and> \<not> ro"
| "permitted ro m (EvChown p u g) \<longleftrightarrow> m = Excl \<and> \<not> ro"
| "permitted ro m (EvChtimes p a b) \<longleftrightarrow> m = Excl \<and> \<not> ro"
| "permitted ro m (EvOpenFile p f) \<longleftrightarrow> m = Excl \<and> resolved p"
| "permitted ro m (EvSize f) \<longleftrightarrow> m = Excl \<and> \<not> ro"
| "permitted ro m (EvReadAt f n off) \<longleftrightarrow> m = IOShared"
| "permitted ro m (EvWriteAt f d off) \<longleftrightarrow> m = IOShared \<and> \<not> ro"
| "permitted ro m (EvFileTruncate f n) \<longleftrightarrow> m = Excl \<and> \<not> ro"
| "permitted ro m (EvSync f) \<longleftrightarrow> m = Excl \<and> \<not> ro"
| "permitted ro m (EvClose f) \<longleftrightarrow> m = Excl"
| "permitted ro m (EvRange dst src a b n) \<longleftrightarrow> m = Excl \<and> \<not> ro"
| "permitted ro m _ \<longleftrightarrow> False"

fun monitor :: "bool \<Rightarrow> mode \<Rightarrow> event \<Rightarrow> mode option" where
  "monitor ro m EvLock = (if m = Free then Some Excl else None)"
| "monitor ro m EvUnlock = (if m = Excl then Some Free else None)"
| "monitor ro m EvLockPath = (if m = Free then Some PathShared else None)"
| "monitor ro m EvUnlockPath = (if m = PathShared then Some Free else None)"
| "monitor ro m EvLockIO = (if m = Free then Some IOShared else None)"
| "monitor ro m EvUnlockIO = (if m = IOShared then Some Free else None)"
| "monitor ro m (EvRand tok) = (if m = Excl \<or> m = PathShared then Some m else None)"
| "monitor ro m e = (if permitted ro m e then Some m else None)"

fun monitor_run :: "bool \<Rightarrow> mode \<Rightarrow> event list \<Rightarrow> mode option" where
  "monitor_run ro m [] = Some m"
| "monitor_run ro m (e # es) = (case monitor ro m e of None \<Rightarrow> None | Some m' \<Rightarrow> monitor_run ro m' es)"

lemma monitor_run_append:
  "monitor_run ro m (es @ fs) = (case monitor_run ro m es of None \<Rightarrow> None | Some m' \<Rightarrow> monitor_run ro m' fs)"
  by (induction es arbitrary: m) (auto split: option.splits)

lemma monitor_permitted: "permitted ro m e \<Longrightarrow> monitor ro m e = Some m"
  by (cases e) auto

definition handle_ok :: "bool \<Rightarrow> openFile \<Rightarrow> bool" where
  "handle_ok ro h \<longleftrightarrow> resolved (of_path h) \<and> (of_write h \<longrightarrow> \<not> ro) \<and> (of_writable h \<noteq> None \<longrightarrow> of_write h)
     \<and> (of_writable h \<noteq> None \<longrightarrow> of_file h = of_writable h) \<and> of_pos h \<le> length (of_entries h)"

definition table_ok :: "bool \<Rightarrow> handle_table \<Rightarrow> bool" where
  "table_ok ro t \<longleftrightarrow> table_invar t \<and> length t \<le> maxOpenHandles \<and> (\<forall>h \<in> ran (handles_get t). handle_ok ro h)"

subsection \<open>Open files\<close>

fun files_used :: "event \<Rightarrow> File list" where
  "files_used (EvSize f) = [f]"
| "files_used (EvReadAt f n off) = [f]"
| "files_used (EvWriteAt f d off) = [f]"
| "files_used (EvFileTruncate f n) = [f]"
| "files_used (EvSync f) = [f]"
| "files_used (EvClose f) = [f]"
| "files_used (EvRange dst src a b n) = [dst, src]"
| "files_used _ = []"

fun opens_after :: "event \<Rightarrow> File multiset \<Rightarrow> File multiset" where
  "opens_after (EvOpenFile p (Some f)) fs = add_mset f fs"
| "opens_after (EvClose f) fs = fs - {#f#}"
| "opens_after _ fs = fs"

fun opens_run :: "File multiset \<Rightarrow> event list \<Rightarrow> File multiset option" where
  "opens_run fs [] = Some fs"
| "opens_run fs (e # es) =
     (if set (files_used e) \<subseteq> set_mset fs then opens_run (opens_after e fs) es else None)"

fun token_drawn :: "event \<Rightarrow> string list" where
  "token_drawn (EvRand (Some tok)) = [tok]"
| "token_drawn _ = []"

definition tokens :: "event list \<Rightarrow> string list" where
  "tokens es = concat (map token_drawn es)"

definition file_of_handle :: "openFile \<Rightarrow> File multiset" where
  "file_of_handle h = (case of_file h of None \<Rightarrow> {#} | Some f \<Rightarrow> {#f#})"

primrec held :: "handle_table \<Rightarrow> File multiset" where
  "held [] = {#}"
| "held (e # t) = file_of_handle (snd e) + held t"

lemma opens_run_append:
  "opens_run fs (es @ es') = (case opens_run fs es of None \<Rightarrow> None | Some fs' \<Rightarrow> opens_run fs' es')"
  by (induction es arbitrary: fs) auto

lemma tokens_append [simp]: "tokens (es @ es') = tokens es @ tokens es'"
  by (simp add: tokens_def)

lemma tokens_single: "tokens [e] = token_drawn e"
  by (simp add: tokens_def)

lemma permitted_no_token: "permitted ro m e \<Longrightarrow> token_drawn e = []"
  by (cases e) auto

lemma held_put_new: "handles_get t tok = None \<Longrightarrow> held (handles_put tok h t) = held t + file_of_handle h"
  unfolding handles_get_def handles_put_def by (induction t) auto

lemma held_put_old:
  "handles_get t tok = Some h0 \<Longrightarrow> of_file h = of_file h0 \<Longrightarrow> held (handles_put tok h t) = held t"
  unfolding handles_get_def handles_put_def by (induction t) (auto simp: file_of_handle_def)

lemma held_delete:
  "table_invar t \<Longrightarrow> handles_get t tok = Some h \<Longrightarrow> held t = held (handles_delete tok t) + file_of_handle h"
  unfolding handles_get_def handles_delete_def
proof (induction t)
  case (Cons e t)
  show ?case
  proof (cases "fst e = tok")
    case True
    with Cons.prems have "AList.delete tok t = t" "h = snd e"
      by (auto simp: delete_id split: if_splits)
    with True show ?thesis by (cases e) simp
  next
    case False
    with Cons show ?thesis by (cases e) simp
  qed
qed simp

lemma held_member: "handles_get t tok = Some h \<Longrightarrow> of_file h = Some f \<Longrightarrow> f \<in># held t"
  unfolding handles_get_def by (induction t) (auto simp: file_of_handle_def split: if_splits)

subsection \<open>The state of a session\<close>

text \<open>
  \<open>at_state ro m t fs\<close>: the trace so far was accepted and leaves the lock in mode \<open>m\<close>, the table is
  \<open>t\<close>, and, as long as the random source has not repeated a token, the driver's open files are \<open>fs\<close>.
\<close>

definition at_state :: "bool \<Rightarrow> mode \<Rightarrow> handle_table \<Rightarrow> File multiset \<Rightarrow> 'w sess \<Rightarrow> bool" where
  "at_state ro m t fs s \<longleftrightarrow>
     monitor_run ro Free (se_trace s) = Some m \<and> se_handles s = t \<and>
     (distinct (tokens (se_trace s)) \<longrightarrow>
        opens_run {#} (se_trace s) = Some fs \<and> fst ` set t \<subseteq> set (tokens (se_trace s)))"

text \<open>A handler ends with a reply that satisfies \<open>R\<close>, a sound table, and only its files open.\<close>

definition settled :: "bool \<Rightarrow> mode \<Rightarrow> ('a \<Rightarrow> bool) \<Rightarrow> 'a \<Rightarrow> 'w sess \<Rightarrow> bool" where
  "settled ro m R r s \<longleftrightarrow> R r \<and> (\<exists>t. table_ok ro t \<and> at_state ro m t (held t) s)"

named_theorems disc

lemma disc_ret [disc]:
  "R x \<Longrightarrow> table_ok ro t \<Longrightarrow> fs = held t \<Longrightarrow> triple (at_state ro m t fs) (ret x) (settled ro m R)"
  by (auto simp: triple_def settled_def)

lemma disc_if [disc]:
  "(b \<Longrightarrow> triple P m Q) \<Longrightarrow> (\<not> b \<Longrightarrow> triple P n Q) \<Longrightarrow> triple P (if b then m else n) Q"
  by simp

lemma disc_option [disc]:
  "(x = None \<Longrightarrow> triple P m Q) \<Longrightarrow> (\<And>a. x = Some a \<Longrightarrow> triple P (f a) Q) \<Longrightarrow>
     triple P (case x of None \<Rightarrow> m | Some a \<Rightarrow> f a) Q"
  by (cases x) auto

lemma disc_sum [disc]:
  "(\<And>a. x = Inl a \<Longrightarrow> triple P (f a) Q) \<Longrightarrow> (\<And>b. x = Inr b \<Longrightarrow> triple P (g b) Q) \<Longrightarrow>
     triple P (case x of Inl a \<Rightarrow> f a | Inr b \<Rightarrow> g b) Q"
  by (cases x) auto

lemma disc_prod [disc]: "(\<And>a b. x = (a, b) \<Longrightarrow> triple P (f a b) Q) \<Longrightarrow> triple P (case x of (a, b) \<Rightarrow> f a b) Q"
  by (cases x) auto

lemma disc_let [disc]: "(\<And>x. x = a \<Longrightarrow> triple P (f x) Q) \<Longrightarrow> triple P (let x = a in f x) Q"
  by simp

lemma disc_bind_if [disc]:
  "(b \<Longrightarrow> triple P (m \<bind> f) Q) \<Longrightarrow> (\<not> b \<Longrightarrow> triple P (n \<bind> f) Q) \<Longrightarrow> triple P ((if b then m else n) \<bind> f) Q"
  by simp

lemma disc_handles [disc]:
  "triple (at_state ro m t fs) (f t) Q \<Longrightarrow> triple (at_state ro m t fs) (the_handles \<bind> f) Q"
  by (auto simp: triple_def at_state_def)

lemma disc_call [disc]:
  assumes "\<And>a. permitted ro m (ev a)" "\<And>a. set (files_used (ev a)) \<subseteq> set_mset fs"
    and "\<And>a w w'. g w = (a, w') \<Longrightarrow> triple (at_state ro m t (opens_after (ev a) fs)) (f a) Q"
  shows "triple (at_state ro m t fs) (call g ev \<bind> f) Q"
proof (rule tripleI)
  fix s r s'
  assume s: "at_state ro m t fs s" and run: "run_state (call g ev \<bind> f) s = (r, s')"
  obtain a w where g: "g (se_world s) = (a, w)" by fastforce
  let ?s = "s\<lparr>se_world := w, se_trace := se_trace s @ [ev a]\<rparr>"
  have "at_state ro m t (opens_after (ev a) fs) ?s"
    using s assms(1,2) [of a] monitor_permitted [OF assms(1) [of a]] permitted_no_token [OF assms(1) [of a]]
    by (auto simp: at_state_def monitor_run_append opens_run_append tokens_single)
  moreover have "run_state (f a) ?s = (r, s')"
    using run g by simp
  ultimately show "Q r s'"
    using assms(3) [OF g] by (blast dest: tripleD)
qed

lemma disc_put_old [disc]:
  assumes "handles_get t tok = Some h0" "of_file h = of_file h0"
    and "triple (at_state ro m (handles_put tok h t) fs) (f ()) Q"
  shows "triple (at_state ro m t fs) (set_handles (handles_put tok h t) \<bind> f) Q"
proof -
  have "insert tok (fst ` set t) = fst ` set t"
    using assms(1) by (auto simp: handles_get_def dest!: map_of_SomeD intro: rev_image_eqI)
  then show ?thesis
    using assms(3) by (auto simp: triple_def at_state_def handles_put_def dom_update)
qed

lemma disc_add [disc]:
  assumes "m = Excl \<or> m = PathShared" "fs = held t + file_of_handle h"
    and "\<And>e. triple (at_state ro m t fs) (f (Inl e)) Q"
    and "\<And>tok. triple (at_state ro m (handles_put tok h t) (held (handles_put tok h t))) (f (Inr tok)) Q"
  shows "triple (at_state ro m t fs) (handles_add E h \<bind> f) Q"
proof (rule tripleI)
  fix s r s'
  assume s: "at_state ro m t fs s" and run: "run_state (handles_add E h \<bind> f) s = (r, s')"
  obtain b err w where rnd: "E_randRead E (se_world s) = ((b, err), w)" by (metis prod.exhaust)
  show "Q r s'"
  proof (cases err)
    case None
    let ?tok = "token_of b" and ?t = "handles_put (token_of b) h t"
    let ?s = "s\<lparr>se_world := w, se_trace := se_trace s @ [EvRand (Some ?tok)], se_handles := ?t\<rparr>"
    have "run_state (f (Inr ?tok)) ?s = (r, s')"
      using run rnd None s by (simp add: handles_add_def at_state_def Let_def)
    moreover have "at_state ro m ?t (held ?t) ?s"
    proof -
      have fresh: "handles_get t ?tok = None" if "distinct (tokens (se_trace s @ [EvRand (Some ?tok)]))"
        using that s by (auto simp: at_state_def tokens_single handles_get_def map_of_eq_None_iff)
      have keys: "fst ` set ?t = insert ?tok (fst ` set t)"
        by (simp add: handles_put_def dom_update)
      show ?thesis
        using s assms(1,2) fresh
        by (auto simp: at_state_def monitor_run_append opens_run_append tokens_single keys held_put_new)
    qed
    ultimately show ?thesis using assms(4) by (blast dest: tripleD)
  next
    case (Some e)
    let ?s = "s\<lparr>se_world := w, se_trace := se_trace s @ [EvRand None]\<rparr>"
    have "run_state (f (Inl e)) ?s = (r, s')"
      using run rnd Some by (simp add: handles_add_def)
    moreover have "at_state ro m t fs ?s"
      using s assms(1) by (auto simp: at_state_def monitor_run_append opens_run_append tokens_single)
    ultimately show ?thesis using assms(3) by (blast dest: tripleD)
  qed
qed

lemma disc_remove:
  assumes "table_invar t"
    and "handles_get t tok = None \<Longrightarrow> triple (at_state ro m t (held t)) (f None) Q"
    and "\<And>h. handles_get t tok = Some h \<Longrightarrow>
      triple (at_state ro m (handles_delete tok t) (held (handles_delete tok t) + file_of_handle h)) (f (Some h)) Q"
  shows "triple (at_state ro m t (held t)) (handles_remove tok \<bind> f) Q"
proof (cases "handles_get t tok")
  case None
  then show ?thesis
    using assms(2) by (auto simp: triple_def handles_remove_def at_state_def)
next
  case (Some h)
  have keys: "fst ` set (handles_delete tok t) \<subseteq> fst ` set t"
    by (simp add: handles_delete_def dom_delete_subset)
  show ?thesis
  proof (rule tripleI)
    fix s r s'
    assume s: "at_state ro m t (held t) s" and run: "run_state (handles_remove tok \<bind> f) s = (r, s')"
    let ?s = "s\<lparr>se_handles := handles_delete tok t\<rparr>"
    have "run_state (f (Some h)) ?s = (r, s')"
      using run s Some by (simp add: handles_remove_def at_state_def)
    moreover have "at_state ro m (handles_delete tok t) (held (handles_delete tok t) + file_of_handle h) ?s"
      using s keys unfolding at_state_def held_delete [OF assms(1) Some, symmetric] by auto
    ultimately show "Q r s'" using assms(3) [OF Some] by (blast dest: tripleD)
  qed
qed

lemma with_bracket:
  assumes "monitor ro Free enter = Some m" "monitor ro m leave = Some Free"
    and "token_drawn enter = []" "token_drawn leave = []" "files_used enter = []" "files_used leave = []"
    and "\<And>fs. opens_after enter fs = fs" "\<And>fs. opens_after leave fs = fs"
    and "triple (at_state ro m t fs) body (settled ro m R)"
  shows "triple (at_state ro Free t fs) (do { emit enter; r \<leftarrow> body; emit leave; ret r }) (settled ro Free R)"
proof (rule tripleI)
  fix s a s'
  assume s: "at_state ro Free t fs s"
    and run: "run_state (do { emit enter; r \<leftarrow> body; emit leave; ret r }) s = (a, s')"
  obtain r s1 where body: "run_state body (s\<lparr>se_trace := se_trace s @ [enter]\<rparr>) = (r, s1)" by fastforce
  have "at_state ro m t fs (s\<lparr>se_trace := se_trace s @ [enter]\<rparr>)"
    using s assms by (auto simp: at_state_def monitor_run_append opens_run_append tokens_single)
  with assms(9) body have "settled ro m R r s1" by (blast dest: tripleD)
  moreover have "a = r" "s' = s1\<lparr>se_trace := se_trace s1 @ [leave]\<rparr>"
    using run body by simp_all
  ultimately show "settled ro Free R a s'"
    using assms(2,4,6) unfolding settled_def at_state_def
    by (simp add: monitor_run_append opens_run_append tokens_single assms(8))
qed

lemma disc_with_lock [disc]:
  "triple (at_state ro Excl t fs) body (settled ro Excl R) \<Longrightarrow>
     triple (at_state ro Free t fs) (with_lock body) (settled ro Free R)"
  unfolding with_lock_def by (rule with_bracket) simp_all

lemma disc_with_rlock [disc]:
  "triple (at_state ro PathShared t fs) body (settled ro PathShared R) \<Longrightarrow>
     triple (at_state ro Free t fs) (with_rlock body) (settled ro Free R)"
  unfolding with_rlock_def by (rule with_bracket) simp_all

lemma disc_with_IO [disc]:
  "triple (at_state ro IOShared t fs) body (settled ro IOShared R) \<Longrightarrow>
     triple (at_state ro Free t fs) (with_IO body) (settled ro Free R)"
  unfolding with_IO_def by (rule with_bracket) simp_all

lemmas do_defs = do_Stat_def do_ReadFile_def do_ListDir_def do_ReadLink_def do_WriteFile_def do_MkDir_def
  do_DeleteFile_def do_DeleteDir_def do_Rename_def do_Size_def do_ReadAt_def do_WriteAt_def
  do_FileTruncate_def do_Sync_def do_Close_def

subsection \<open>Tables and handles\<close>

lemma table_okD: "table_ok ro t \<Longrightarrow> handles_get t tok = Some h \<Longrightarrow> handle_ok ro h"
  by (auto simp: table_ok_def ranI)

lemma table_ok_put_new:
  "table_ok ro t \<Longrightarrow> \<not> handles_full t \<Longrightarrow> handle_ok ro h \<Longrightarrow> table_ok ro (handles_put tok h t)"
  by (auto simp: table_ok_def handles_full_def handles.invar_put handles.count_put
      dest: handles.put_all [rotated 2])

lemma table_ok_put_old:
  "table_ok ro t \<Longrightarrow> handles_get t tok = Some h0 \<Longrightarrow> handle_ok ro h \<Longrightarrow> table_ok ro (handles_put tok h t)"
  by (auto simp: table_ok_def handles.invar_put handles.count_put dest: handles.put_all [rotated 2])

lemma table_ok_delete: "table_ok ro t \<Longrightarrow> table_ok ro (handles_delete tok t)"
  by (auto simp: table_ok_def handles.invar_del handles.count_del dest: handles.del_all)

lemma resolve_Inr: "resolve rid p = Inr path \<Longrightarrow> resolved path"
  by (auto simp: resolve_def split: option.splits dest: clean_resolved)

end
