(* ===== verification/Handlers.thy ===== *)
theory Handlers
  imports Discipline
begin

text \<open>
  Every handler keeps to the specification of \<open>Discipline\<close> and answers the request it was given: the
  reply carries the request's id. The locale \<open>driver_contract\<close> is what the server relies on for the
  second part: \<^verbatim>\<open>ReadAt\<close> never claims more bytes than the buffer it was given holds, which the
  documentation of \<^verbatim>\<open>io.ReaderAt\<close> demands.
\<close>

fun reply_id :: "message \<Rightarrow> u32 option" where
  "reply_id (StatusMsg m) = Some (st_ID m)"
| "reply_id (HandleReplyMsg m) = Some (hl_ID m)"
| "reply_id (DataMsg m) = Some (dr_ID m)"
| "reply_id (NameMsg m) = Some (nr_ID m)"
| "reply_id (AttrsMsg m) = Some (ar_ID m)"
| "reply_id (ExtendedReplyMsg m) = Some (xr_ID m)"
| "reply_id _ = None"

definition answers :: "u32 \<Rightarrow> reply \<Rightarrow> bool" where
  "answers rid r \<longleftrightarrow> (\<exists>m. r = Answer m \<and> reply_id m = Some rid)"

lemma answers_simps [simp]:
  "answers rid (Answer m) \<longleftrightarrow> reply_id m = Some rid" "\<not> answers rid Panic"
  by (simp_all add: answers_def)

lemma reply_id_simps [simp]:
  "reply_id (status_msg rid code msg) = Some rid" "reply_id (one_name rid name) = Some rid"
  "reply_id (limitsReply srv rid) = Some rid"
  by (simp_all add: status_msg_def one_name_def limitsReply_def Let_def)

lemma resolve_Inl: "resolve rid p = Inl m \<Longrightarrow> reply_id m = Some rid"
  by (auto simp: resolve_def split: option.splits)

text \<open>What is shown of a handler: from a settled session it answers and settles again.\<close>

abbreviation serves :: "'w Server \<Rightarrow> mode \<Rightarrow> handle_table \<Rightarrow> u32 \<Rightarrow> ('w, reply) act \<Rightarrow> bool" where
  "serves srv m t rid act \<equiv>
     triple (at_state (sv_ro srv) m t (held t)) act (settled (sv_ro srv) m (answers rid))"

lemmas resolve_dests = resolve_Inr resolve_Inl

subsection \<open>Metadata\<close>

lemma opStat_ok: "table_ok (sv_ro srv) t \<Longrightarrow> serves srv Free t (p_ID m) (opStat srv m)"
  unfolding opStat_def do_defs by (intro disc) (auto dest: resolve_dests)

lemma opFstat_ok: "table_ok (sv_ro srv) t \<Longrightarrow> serves srv Free t (hr_ID m) (opFstat srv m)"
  unfolding opFstat_def
  using opStat_ok [of srv t "\<lparr>p_PacketType = 0, p_ID = hr_ID m, p_Path = of_path h\<rparr>" for h]
  by (intro disc) auto

abbreviation serves_rw :: "handle_table \<Rightarrow> u32 \<Rightarrow> ('w, reply) act \<Rightarrow> bool" where
  "serves_rw t rid act \<equiv> triple (at_state False Excl t (held t)) act (settled False Excl (answers rid))"

lemma setstat_times_ok: "table_ok False t \<Longrightarrow> serves_rw t rid (setstat_times ms rid path a)"
  unfolding setstat_times_def by (intro disc) auto

lemma setstat_owner_ok: "table_ok False t \<Longrightarrow> serves_rw t rid (setstat_owner ms rid path a)"
  unfolding setstat_owner_def by (intro disc) (auto intro: setstat_times_ok)

lemma setstat_meta_ok: "table_ok False t \<Longrightarrow> serves_rw t rid (setstat_meta srv rid path a)"
  unfolding setstat_meta_def by (intro disc) (auto intro: setstat_owner_ok)

lemma opSetstat_ok: "table_ok (sv_ro srv) t \<Longrightarrow> serves srv Free t rid (opSetstat srv rid path a)"
  unfolding opSetstat_def by (intro disc) (auto intro: setstat_meta_ok)

lemma opFsetstat_ok: "table_ok (sv_ro srv) t \<Longrightarrow> serves srv Free t (fs_ID m) (opFsetstat srv m)"
  unfolding opFsetstat_def by (intro disc opSetstat_ok) auto

subsection \<open>Directories\<close>

lemma handle_ok_new:
  "resolved path \<Longrightarrow> (write \<longrightarrow> \<not> ro) \<Longrightarrow> (w \<noteq> None \<longrightarrow> write \<and> f = w) \<Longrightarrow>
     handle_ok ro \<lparr>of_path = path, of_dir = d, of_entries = es, of_pos = 0, of_file = f, of_writable = w, of_write = write\<rparr>"
  by (simp add: handle_ok_def)

lemma opOpendir_ok: "table_ok (sv_ro srv) t \<Longrightarrow> serves srv Free t (p_ID m) (opOpendir E srv m)"
  unfolding opOpendir_def do_defs
  by (intro disc table_ok_put_new handle_ok_new) (auto dest: resolve_dests simp: file_of_handle_def)

lemma disc_readdirBatch:
  assumes "resolved (of_path h)" "\<And>items. triple (at_state ro PathShared t fs) (f items) Q"
  shows "triple (at_state ro PathShared t fs) (readdirBatch srv h es \<bind> f) Q"
  using assms(2)
proof (induction es arbitrary: f)
  case (Cons e es)
  have full: "resolved full" if "join (of_path h) (de_Name e) = Some full" for full
    using join_resolved [OF assms(1) that] by simp
  show ?case
  proof (cases "join (of_path h) (de_Name e)")
    case None
    with Cons show ?thesis by simp
  next
    case (Some full)
    have "triple (at_state ro PathShared t fs) (call (F_Stat (sv_fsys srv) full) (\<lambda>_. EvStat full) \<bind> g) Q"
      if "\<And>st err. triple (at_state ro PathShared t fs) (g (st, err)) Q" for g
      using that full [OF Some] by (intro disc_call) auto
    with Some Cons show ?thesis
      by (auto simp: do_defs Let_def split: option.splits)
  qed
qed simp

lemma readdir_loop_ok:
  "table_ok (sv_ro srv) t \<Longrightarrow> handles_get t tok = Some h \<Longrightarrow>
     serves srv PathShared t rid (readdir_loop srv rid tok h)"
proof (induction srv rid tok h arbitrary: t rule: readdir_loop.induct)
  case (1 srv rid tok h)
  note ok = table_okD [OF 1(2,3)]
  show ?case
  proof (cases "of_pos h < length (of_entries h)")
    case False
    with 1(2) show ?thesis by (subst readdir_loop.simps) (auto intro: disc)
  next
    case True
    define stop where "stop = min (of_pos h + readdirBatchSize) (length (of_entries h))"
    define h' where "h' = h\<lparr>of_pos := stop\<rparr>"
    let ?t = "handles_put tok h' t"
    obtain batch where batch: "slice (of_pos h) stop (of_entries h) = Some batch"
      using True by (simp add: stop_def slice_def)
    have h': "handle_ok (sv_ro srv) h'" "of_file h' = of_file h" "resolved (of_path h')"
      using ok by (auto simp: h'_def handle_ok_def stop_def)
    have t': "table_ok (sv_ro srv) ?t" "handles_get ?t tok = Some h'" "held ?t = held t"
      using table_ok_put_old [OF 1(2,3) h'(1)] held_put_old [OF 1(3) h'(2)] 1(2)
      by (auto simp: table_ok_def handles.lookup_put)
    have rec: "serves srv PathShared ?t rid (readdir_loop srv rid tok h')"
      using 1(1) [OF True stop_def batch _ t'(1)] t'(2) unfolding h'_def by blast
    have "serves srv PathShared t rid (do {
        set_handles (handles_put tok h' t);
        items \<leftarrow> readdirBatch srv h' batch;
        if length items > 0 then ret (Answer (NameMsg \<lparr>nr_ID = rid, nr_Items = items\<rparr>))
        else readdir_loop srv rid tok h' })"
      using rec h' t' by (intro disc disc_readdirBatch disc_put_old [OF 1(3)]) auto
    then show ?thesis
      unfolding readdir_loop.simps [of srv rid tok h] Let_def stop_def [symmetric] h'_def [symmetric] batch
      using True by (simp add: disc_handles)
  qed
qed

lemma opReaddir_ok: "table_ok (sv_ro srv) t \<Longrightarrow> serves srv Free t (hr_ID m) (opReaddir srv m)"
  unfolding opReaddir_def by (intro disc readdir_loop_ok) auto

lemma opRealpath_ok: "table_ok (sv_ro srv) t \<Longrightarrow> serves srv Free t (p_ID m) (opRealpath m)"
  unfolding opRealpath_def by (intro disc) (auto dest: resolve_dests)

lemma opMkdir_ok: "table_ok (sv_ro srv) t \<Longrightarrow> serves srv Free t (ss_ID m) (opMkdir srv m)"
  unfolding opMkdir_def do_defs by (intro disc) (auto dest: resolve_dests)

lemma opRemove_ok: "table_ok (sv_ro srv) t \<Longrightarrow> serves srv Free t (p_ID m) (opRemove srv m)"
  unfolding opRemove_def do_defs by (intro disc) (auto dest: resolve_dests)

lemma opRename_ok: "table_ok (sv_ro srv) t \<Longrightarrow> serves srv Free t (rn_ID m) (opRename srv m)"
  unfolding opRename_def do_defs by (intro disc) (auto dest: resolve_dests)

lemma opReadlink_ok: "table_ok (sv_ro srv) t \<Longrightarrow> serves srv Free t (p_ID m) (opReadlink srv m)"
  unfolding opReadlink_def do_defs by (intro disc) (auto dest: resolve_dests)

lemma opSymlink_ok: "table_ok (sv_ro srv) t \<Longrightarrow> serves srv Free t (sl_ID m) (opSymlink srv m)"
  unfolding opSymlink_def do_defs by (intro disc) (auto dest: resolve_dests)

subsection \<open>Opening and closing\<close>

lemma register_handle_ok:
  assumes "table_ok ro t" "\<not> handles_full t" "handle_ok ro h" "fs = held t + file_of_handle h"
  shows "triple (at_state ro Excl t fs) (register_handle E srv rid h) (settled ro Excl (answers rid))"
  unfolding register_handle_def do_defs
  using assms by (intro disc table_ok_put_new) (auto simp: file_of_handle_def)

lemma finishOpen_ok:
  assumes "table_ok ro t" "\<not> handles_full t" "resolved path" "write \<longrightarrow> \<not> ro"
  shows "triple (at_state ro Excl t (held t)) (finishOpen E srv rid path write) (settled ro Excl (answers rid))"
  unfolding finishOpen_def do_defs
  using assms
  by (intro disc register_handle_ok) (auto intro!: register_handle_ok simp: handle_ok_def file_of_handle_def)

lemma opOpen_ok: "table_ok (sv_ro srv) t \<Longrightarrow> serves srv Free t (or_ID m) (opOpen E srv m)"
  unfolding opOpen_def do_defs
  by (intro disc finishOpen_ok) (auto dest: resolve_dests intro: finishOpen_ok)

lemma close_file_ok:
  assumes "table_ok ro t" "fs = held t + file_of_handle h"
  shows "triple (at_state ro Excl t fs) (close_file srv rid h) (settled ro Excl (answers rid))"
  unfolding close_file_def do_defs
  using assms by (intro disc) (auto simp: file_of_handle_def)

lemma opClose_ok:
  assumes t: "table_ok (sv_ro srv) t"
  shows "serves srv Free t (hr_ID m) (opClose srv m)"
  unfolding opClose_def
proof (rule disc_remove)
  show "table_invar t" using t by (simp add: table_ok_def)
  fix h
  assume "handles_get t (hr_Handle m) = Some h"
  then have "handle_ok (sv_ro srv) h" using t by (blast dest: table_okD)
  moreover have "table_ok (sv_ro srv) (handles_delete (hr_Handle m) t)"
    using t by (rule table_ok_delete)
  ultimately show "triple (at_state (sv_ro srv) Free (handles_delete (hr_Handle m) t)
        (held (handles_delete (hr_Handle m) t) + file_of_handle h))
      (case Some h of None \<Rightarrow> answer (hr_ID m) StatusFailure ''unknown handle''
       | Some h \<Rightarrow> with_lock (case of_writable h of
           None \<Rightarrow> close_file srv (hr_ID m) h
         | Some w \<Rightarrow> do {
             err \<leftarrow> do_Sync srv w;
             if err \<noteq> None then
               (case of_file h of
                  None \<Rightarrow> ret Panic
                | Some f \<Rightarrow> do { do_Close srv f; failure (hr_ID m) err StatusFailure })
             else close_file srv (hr_ID m) h }))
      (settled (sv_ro srv) Free (answers (hr_ID m)))"
    unfolding do_defs
    by (simp, intro disc close_file_ok) (auto simp: handle_ok_def file_of_handle_def intro: close_file_ok)
qed (use t in \<open>auto intro!: disc\<close>)

end
