(* ===== verification/Serving.thy ===== *)
theory Serving
  imports Handlers
begin

text \<open>
  From handlers to requests: the jobs of \<^verbatim>\<open>READ\<close> and \<^verbatim>\<open>WRITE\<close>, \<^verbatim>\<open>copy-data\<close>, dispatch, and the request
  loop. The result is one contract for a request, \<open>serve_packet_ok\<close>, and one for a session.
\<close>

lemma unat_satAdd: "unat (satAdd a b) = min (2 ^ 64 - 1) (unat a + unat b)"
proof -
  have m: "unat (-1 :: u64) = 2 ^ 64 - 1"
    by (simp add: unsigned_minus_1_eq_mask mask_eq_exp_minus_1)
  have b: "b \<le> -1" by simp
  have sub: "unat (-1 - b) = 2 ^ 64 - 1 - unat b"
    using unat_sub [OF b] by (simp only: m)
  have lt: "unat a < 2 ^ 64" "unat b < 2 ^ 64" using unsigned_less [of b, where 'a = nat] unsigned_less [of a, where 'a = nat] by simp_all
  show ?thesis
  proof (cases "a > -1 - b")
    case True
    then have "unat a > 2 ^ 64 - 1 - unat b" unfolding word_less_nat_alt sub .
    with True lt show ?thesis unfolding satAdd_def by (simp add: m)
  next
    case False
    then have "unat a + unat b < 2 ^ 64" using lt unfolding word_less_nat_alt sub by simp
    with False show ?thesis unfolding satAdd_def by (simp add: unat_word_ariths)
  qed
qed
lemma unat_u64: "unat (a :: u64) \<le> 18446744073709551615"
  using unsigned_less [of a, where 'a = nat] by simp

lemma disc_bind_ret [disc]: "triple P (f x) Q \<Longrightarrow> triple P (ret x \<bind> f) Q"
  by simp

subsection \<open>What the driver promises\<close>

locale driver_contract =
  fixes fs :: "'w Filesystem"
  assumes ReadAt_bound: "F_ReadAt fs f n off w = ((got, content, err), w') \<Longrightarrow> got \<le> int n"
begin

lemma readAt_ok:
  assumes "sv_fsys srv = fs" "table_ok ro t" "f \<in># held t"
  shows "triple (at_state ro IOShared t (held t)) (readAt srv rid f off n slot) (settled ro IOShared (answers rid))"
proof -
  have "got \<le> int n" if "F_ReadAt (sv_fsys srv) f n off w = ((got, content, err), w')" for w got content err w'
    using that assms(1) ReadAt_bound by blast
  then show ?thesis
    unfolding readAt_def do_defs
    using assms by (intro disc) (force simp: slice_def split: if_splits)+
qed

lemma readJob_ok:
  assumes "sv_fsys srv = fs" "table_ok (sv_ro srv) t" "readJob srv m t = Inr j"
  shows "serves srv Free t (rr_ID m) (j_run j slot)"
proof -
  obtain h n where h: "handles_get t (rr_Handle m) = Some h"
    and run: "j_run j slot = (case of_file h of
        Some f \<Rightarrow> with_IO (readAt srv (rr_ID m) f (rr_Offset m) n slot)
      | None \<Rightarrow> with_rlock (readWhole srv (rr_ID m) (of_path h) (rr_Offset m) n))"
    using assms(3) by (auto simp: readJob_def Let_def split: option.splits if_splits)
  have "serves srv PathShared t (rr_ID m) (readWhole srv (rr_ID m) (of_path h) (rr_Offset m) n)"
    unfolding readWhole_def do_defs
    using assms(2) table_okD [OF assms(2) h]
    by (intro disc) (auto simp: handle_ok_def slice_def unat_satAdd unat_u64 split: if_splits)
  moreover have "serves srv IOShared t (rr_ID m) (readAt srv (rr_ID m) f (rr_Offset m) n slot)"
    if "of_file h = Some f" for f
    using readAt_ok [OF assms(1,2) held_member [OF h that]] .
  ultimately show ?thesis
    unfolding run by (intro disc) auto
qed

end

lemma readJob_early: "readJob srv m t = Inl early \<Longrightarrow> reply_id early = Some (rr_ID m)"
  by (auto simp: readJob_def Let_def split: option.splits if_splits)

subsection \<open>WRITE\<close>

lemmas disc_goals = permitted.simps files_used.simps opens_after.simps answers_simps reply_id_simps
  list.set empty_subsetI insert_subset simp_thms

lemma splice_slice:
  fixes off stop :: u64
  assumes "\<not> stop < off"
  shows "slice (unat off)
      (length (if int (length old) < uint stop then overlay old (replicate (unat stop) 0) else old))
      (if int (length old) < uint stop then overlay old (replicate (unat stop) 0) else old) \<noteq> None"
proof -
  have "unat off \<le> unat stop" using assms by (simp add: word_less_nat_alt)
  moreover have "int (length old) < uint stop \<longleftrightarrow> length old < unat stop"
    using zless_nat_eq_int_zless [of "length old" "uint stop"] by simp
  ultimately show ?thesis by (simp add: slice_def)
qed

lemma writeSplice_ok:
  assumes "table_ok False t" "resolved path"
  shows "serves_rw t rid (writeSplice srv rid path off data)"
  unfolding writeSplice_def do_defs
  using assms by (intro disc) (simp_all only: disc_goals splice_slice de_Morgan_disj)

lemma writeJob_ok:
  assumes "table_ok (sv_ro srv) t" "writeJob srv m t = Inr j"
  shows "serves srv Free t (wr_ID m) (j_run j slot)"
proof -
  obtain h where h: "handles_get t (wr_Handle m) = Some h" and ro: "\<not> sv_ro srv"
    using assms(2) by (auto simp: writeJob_def split: option.splits if_splits)
  note ok = table_okD [OF assms(1) h]
  show ?thesis
  proof (cases "of_writable h")
    case None
    then have "j_run j slot = with_lock (writeSplice srv (wr_ID m) (of_path h) (wr_Offset m) (wr_Data m))"
      using assms(2) h by (auto simp: writeJob_def split: if_splits)
    then show ?thesis
      using writeSplice_ok [of t "of_path h"] assms(1) ok ro by (auto simp: handle_ok_def intro!: disc)
  next
    case (Some w)
    then have run: "j_run j slot = with_IO (do {
        (put, err) \<leftarrow> do_WriteAt srv w (wr_Data m) (wr_Offset m);
        if err \<noteq> None then failure (wr_ID m) err StatusFailure else answer (wr_ID m) StatusOK '''' })"
      using assms(2) h by (auto simp: writeJob_def split: if_splits)
    have "w \<in># held t"
      using ok Some h by (auto simp: handle_ok_def intro: held_member)
    then show ?thesis
      unfolding run do_defs using assms(1) ro by (intro disc) auto
  qed
qed

lemma writeJob_early: "writeJob srv m t = Inl early \<Longrightarrow> reply_id early = Some (wr_ID m)"
  by (auto simp: writeJob_def split: option.splits if_splits)

subsection \<open>copy-data\<close>

lemma copy_range_ok:
  assumes "table_ok False t" "src \<in># held t" "dst \<in># held t"
  shows "serves_rw t rid (copy_range E srv rid src dst fromOff len toOff)"
  unfolding copy_range_def do_defs using assms by (intro disc) (simp_all only: disc_goals)

lemma String_step:
  obtains r pre' xs' where "Decoder_String (dec_at pre xs l) = (r, dec_at pre' xs' l)" "r \<noteq> Inl RuntimePanic"
proof (cases "Decoder_String (dec_at pre xs l)")
  case (Pair r d')
  then show ?thesis
    using str.enc_dec [of pre xs l _ d'] str.dec_err [of pre xs l _ d'] that by (cases r) blast+
qed

lemma Uint64_step:
  obtains r pre' xs' where "Decoder_Uint64 (dec_at pre xs l) = (r, dec_at pre' xs' l)" "r \<noteq> Inl RuntimePanic"
proof (cases "Decoder_Uint64 (dec_at pre xs l)")
  case (Pair r d')
  then show ?thesis
    using u64.enc_dec [of pre xs l _ d'] u64.dec_err [of pre xs l _ d'] that by (cases r) blast+
qed

lemma first_error_panic:
  "first_error rs = Some RuntimePanic \<Longrightarrow> Inl RuntimePanic \<in> set rs"
  by (induction rs rule: first_error.induct) auto

lemma copyData_ok:
  assumes t: "table_ok (sv_ro srv) t"
  shows "serves srv Free t rid (copyData E srv rid data)"
proof -
  obtain frm pre1 xs1 where 1: "Decoder_String (dec_at [] data 0) = (frm, dec_at pre1 xs1 0)" "frm \<noteq> Inl RuntimePanic"
    by (rule String_step)
  obtain fromOff pre2 xs2 where 2: "Decoder_Uint64 (dec_at pre1 xs1 0) = (fromOff, dec_at pre2 xs2 0)"
    "fromOff \<noteq> Inl RuntimePanic" by (rule Uint64_step)
  obtain len pre3 xs3 where 3: "Decoder_Uint64 (dec_at pre2 xs2 0) = (len, dec_at pre3 xs3 0)"
    "len \<noteq> Inl RuntimePanic" by (rule Uint64_step)
  obtain dest pre4 xs4 where 4: "Decoder_String (dec_at pre3 xs3 0) = (dest, dec_at pre4 xs4 0)"
    "dest \<noteq> Inl RuntimePanic" by (rule String_step)
  obtain toOff pre5 xs5 where 5: "Decoder_Uint64 (dec_at pre4 xs4 0) = (toOff, dec_at pre5 xs5 0)"
    "toOff \<noteq> Inl RuntimePanic" by (rule Uint64_step)
  let ?rs = "[read_result frm, read_result fromOff, read_result len, read_result dest, read_result toOff]"
  have no_panic: "first_error ?rs \<noteq> Some RuntimePanic"
  proof
    assume "first_error ?rs = Some RuntimePanic"
    then have "Inl RuntimePanic \<in> set ?rs" by (rule first_error_panic)
    then show False
      using 1(2) 2(2) 3(2) 4(2) 5(2) by (simp add: map_sum_eq_panic eq_commute [of "Inl RuntimePanic"])
  qed
  have ro: "\<not> sv_ro srv" if "copiesData srv" using that by (simp add: copiesData_def)
  have range: "serves srv Excl t rid (copy_range E srv rid f w a b c)"
    if "copiesData srv" "handles_get t x = Some src" "handles_get t y = Some dst"
      "of_file src = Some f" "of_writable dst = Some w" for x y src dst f w a b c
  proof -
    have "w \<in># held t"
      using that(3,5) table_okD [OF t that(3)] by (auto simp: handle_ok_def intro: held_member)
    moreover have "f \<in># held t" using that(2,4) by (rule held_member)
    ultimately show ?thesis using copy_range_ok [of t f w] ro [OF that(1)] t by simp
  qed
  show ?thesis
  proof (cases "first_error ?rs")
    case (Some e)
    with no_panic t show ?thesis
      unfolding copyData_def Let_def NewDecoder_at 1 prod.case 2 3 4 5
      by (cases e) (auto intro: disc_ret)
  next
    case None
    show ?thesis
      unfolding copyData_def Let_def NewDecoder_at 1 prod.case 2 3 4 5 None option.case
      by (intro disc range t refl) (simp_all only: disc_goals)
  qed
qed

lemma opExtended_ok: "table_ok (sv_ro srv) t \<Longrightarrow> serves srv Free t (er_ID m) (opExtended E srv m)"
  unfolding opExtended_def by (intro disc copyData_ok) auto

subsection \<open>Requests\<close>

lemma requestID_enc [simp]: "requestID (enc_u32 i @ xs) = i"
  by (simp add: requestID_def enc_u32_eq)

text \<open>A request that decodes carries the id that would be recovered from it if it had not.\<close>

lemma Decode_ids:
  "DecodeOpen payload = Inr m1 \<Longrightarrow> or_ID m1 = requestID payload"
  "DecodeHandle ty payload = Inr m2 \<Longrightarrow> hr_ID m2 = requestID payload"
  "DecodePath ty payload = Inr m3 \<Longrightarrow> p_ID m3 = requestID payload"
  "DecodeSetstat ty payload = Inr m4 \<Longrightarrow> ss_ID m4 = requestID payload"
  "DecodeFsetstat payload = Inr m5 \<Longrightarrow> fs_ID m5 = requestID payload"
  "DecodeRename payload = Inr m6 \<Longrightarrow> rn_ID m6 = requestID payload"
  "DecodeSymlink payload = Inr m7 \<Longrightarrow> sl_ID m7 = requestID payload"
  "DecodeExtended payload = Inr m8 \<Longrightarrow> er_ID m8 = requestID payload"
  "DecodeRead payload = Inr m9 \<Longrightarrow> rr_ID m9 = requestID payload"
  "DecodeWrite payload = Inr m10 \<Longrightarrow> wr_ID m10 = requestID payload"
  by (auto simp: Decode_iff payload_defs)

lemma bad_answers: "err \<noteq> RuntimePanic \<Longrightarrow> answers rid (bad rid err)"
  by (simp add: bad_def badMessage_def)

lemma handle_ok_rule:
  assumes "table_ok ro t" "r \<noteq> Inl RuntimePanic"
    and "\<And>m. r = Inr m \<Longrightarrow> triple (at_state ro Free t (held t)) (f m) (settled ro Free (answers (requestID payload)))"
  shows "triple (at_state ro Free t (held t)) (handle payload r f) (settled ro Free (answers (requestID payload)))"
  unfolding handle_def using assms by (intro disc bad_answers) auto

lemma dispatch_ok:
  assumes t: "table_ok (sv_ro srv) t"
  shows "serves srv Free t (requestID payload) (dispatch E srv ty payload)"
proof -
  note ops = opOpen_ok opClose_ok opStat_ok opFstat_ok opSetstat_ok opFsetstat_ok opOpendir_ok opReaddir_ok
    opRemove_ok opMkdir_ok opRealpath_ok opRename_ok opReadlink_ok opSymlink_ok opExtended_ok
  show ?thesis
    unfolding dispatch_def
    by (intro disc_if handle_ok_rule disc_ret t refl Decode_no_panic)
      (auto simp: Decode_ids [symmetric] intro: t ops)
qed

context driver_contract
begin

lemma serve_packet_ok:
  assumes fs: "sv_fsys srv = fs" and t: "table_ok (sv_ro srv) t"
  shows "serves srv Free t (requestID payload) (serve_packet E srv slot ty payload)"
proof -
  have early: "answers (requestID payload) r" if "prepare srv ty payload t = Early r" for r
    using that Decode_no_panic(4,5) [of payload] readJob_early writeJob_early
    by (auto simp: prepare_def prepare_as_def Decode_ids [symmetric] split: if_splits sum.splits intro!: bad_answers)
  have job: "serves srv Free t (requestID payload) (j_run j slot)" if "prepare srv ty payload t = Job j" for j
    using that readJob_ok [OF fs t] writeJob_ok [OF t]
    by (auto simp: prepare_def prepare_as_def Decode_ids [symmetric] split: if_splits sum.splits)
  show ?thesis
    unfolding serve_packet_def
    by (rule disc_handles, cases "prepare srv ty payload t")
      (auto simp: job early t intro: disc_ret dispatch_ok)
qed

end

end
