(* ===== verification/Session_Safety.thy ===== *)
theory Session_Safety
  imports Serving
begin

text \<open>
  Whole sessions. The request loop keeps a session settled and answers every packet with one reply, in
  order; \<^verbatim>\<open>closeAll\<close> then releases what is still open. What the specification of \<open>Discipline\<close> says about
  single events becomes containment and read-only safety of everything a session ever asks of its driver.
\<close>

definition settled_session :: "bool \<Rightarrow> 'w sess \<Rightarrow> bool" where
  "settled_session ro s \<longleftrightarrow> (\<exists>t. table_ok ro t \<and> at_state ro Free t (held t) s)"

definition new_session :: "'w \<Rightarrow> 'w sess" where
  "new_session world = \<lparr>se_world = world, se_handles = newHandles, se_trace = []\<rparr>"

lemma settled_new_session: "settled_session ro (new_session world)"
  by (auto simp: settled_session_def new_session_def newHandles_def at_state_def table_ok_def tokens_def
      handles_get_def [abs_def] maxOpenHandles_def intro!: exI [of _ "[]"])

subsection \<open>The packets of a stream\<close>

function packets :: "int \<Rightarrow> reader \<Rightarrow> (byte \<times> bytes) list" where
  "packets lim r =
     (case ReadPacket r 0 lim of
        (Inl _, _, _) \<Rightarrow> []
      | (Inr p, _, r') \<Rightarrow> p # packets lim r')"
  by auto

termination
  by (relation "measure (\<lambda>(lim, r). length (rd_data r))") (auto dest!: ReadPacket_shrinks [OF sym])

declare packets.simps [simp del]

lemma packets_empty: "rd_data r = [] \<Longrightarrow> packets lim r = []"
  by (subst packets.simps) (simp add: ReadPacket_def ReadFull_def Let_def)

text \<open>The error of the first read that gives no packet.\<close>

function stream_end :: "int \<Rightarrow> reader \<Rightarrow> perr" where
  "stream_end lim r =
     (case ReadPacket r 0 lim of
        (Inl e, _, _) \<Rightarrow> e
      | (Inr p, _, r') \<Rightarrow> stream_end lim r')"
  by auto

termination
  by (relation "measure (\<lambda>(lim, r). length (rd_data r))") (auto dest!: ReadPacket_shrinks [OF sym])

declare stream_end.simps [simp del]

lemma stream_end_empty: "rd_data r = [] \<Longrightarrow> stream_end lim r = ErrIO (rd_err r)"
  by (subst stream_end.simps) (simp add: ReadPacket_def ReadFull_def Let_def)

lemma packets_frames:
  assumes "\<forall>(t, payload) \<in> set ps. int (1 + length payload) \<le> min MaxPacket (limit_of lim)"
    and "rd_data r = concat (map (\<lambda>(t, payload). frame_of t payload) ps)"
  shows "packets lim r = ps \<and> stream_end lim r = ErrIO (rd_err r)"
  using assms
proof (induction ps arbitrary: r)
  case (Cons p ps)
  obtain t payload where p: "p = (t, payload)" by (cases p)
  have "ReadPacket r 0 lim = (Inr (t, payload), 1 + length payload,
      r\<lparr>rd_data := concat (map (\<lambda>(t, payload). frame_of t payload) ps)\<rparr>)"
    using Cons.prems p by (subst ReadPacket_frame) auto
  with Cons p show ?case by (simp add: packets.simps [of _ r] stream_end.simps [of _ r])
qed (simp add: packets_empty stream_end_empty)

subsection \<open>The request loop\<close>

abbreviation frame_msg :: "message \<Rightarrow> bytes" where
  "frame_msg m \<equiv> frame_of (Message_Type m) (payload_of m)"

lemma Send_cases:
  obtains (large) cap where "int (1 + length (payload_of m)) > MaxPacket" "Send w m c = ((cap, Some ErrPacketTooLarge), w)"
  | (sent) cap where "int (1 + length (payload_of m)) \<le> MaxPacket"
      "Send w m c = ((cap, map_option ErrIO (w_err w)), w\<lparr>w_calls := w_calls w @ [frame_msg m]\<rparr>)"
proof (cases "int (1 + length (payload_of m)) > MaxPacket")
  case True
  then show ?thesis by (intro large [of c]) (simp_all add: Send_def WritePacket_def Encoder_Bytes_def)
next
  case False
  then show ?thesis
    by (intro sent) (auto simp: Send_def WritePacket_def Encoder_Bytes_def Let_def)
qed

definition answered :: "message \<Rightarrow> byte \<times> bytes \<Rightarrow> bool" where
  "answered m p \<longleftrightarrow> reply_id m = Some (requestID (snd p)) \<and> int (1 + length (payload_of m)) \<le> MaxPacket"

context driver_contract
begin

lemma serve_packet_settled:
  assumes "sv_fsys srv = fs" "settled_session (sv_ro srv) s"
    and "run_state (serve_packet E srv slot ty payload) s = (r, s')"
  shows "settled_session (sv_ro srv) s' \<and> (\<exists>m. r = Answer m \<and> reply_id m = Some (requestID payload))"
proof -
  obtain t where t: "table_ok (sv_ro srv) t" "at_state (sv_ro srv) Free t (held t) s"
    using assms(2) by (auto simp: settled_session_def)
  from tripleD [OF serve_packet_ok [OF assms(1) t(1)] t(2) assms(3)] show ?thesis
    by (auto simp: settled_def settled_session_def answers_def)
qed

lemma run_loop_settled:
  assumes "sv_fsys srv = fs" "settled_session (sv_ro srv) s"
    and "run_loop E srv slots i r w s = (out, w', s')"
  shows "out \<noteq> Crashed \<and> settled_session (sv_ro srv) s' \<and> w_err w' = w_err w \<and>
    (w_err w = None \<longrightarrow> out = Ended (endOfInput (stream_end (packetLimit srv) r)) \<or>
       out = Ended (Some (SessPacket ErrPacketTooLarge))) \<and>
    (\<exists>ms. w_calls w' = w_calls w @ map frame_msg ms \<and>
       list_all2 answered ms (take (length ms) (packets (packetLimit srv) r)) \<and>
       (w_err w = None \<and> out \<noteq> Ended (Some (SessPacket ErrPacketTooLarge)) \<longrightarrow>
          length ms = length (packets (packetLimit srv) r)))"
  using assms(2,1,3)
proof (induction E srv slots i r w s rule: run_loop.induct)
  case (1 E srv slots i r w s)
  note IH = 1(1) and settled = 1(2) and fs = 1(3) and run = 1(4)
  show ?case
  proof (cases "rd_data r = []")
    case True
    with settled run show ?thesis
      by (auto simp: run_loop.simps [of E srv] packets_empty stream_end_empty intro!: exI [of _ "[]"])
  next
    case False
    obtain pkt cap r' where pkt: "ReadPacket r 0 (packetLimit srv) = (pkt, cap, r')" by (metis prod.exhaust)
    show ?thesis
    proof (cases pkt)
      case (Inl e)
      then have "packets (packetLimit srv) r = []" "stream_end (packetLimit srv) r = e"
        using pkt by (simp_all add: packets.simps [of _ r] stream_end.simps [of _ r])
      with Inl False settled run pkt show ?thesis
        by (auto simp: run_loop.simps [of E srv] intro!: exI [of _ "[]"])
    next
      case (Inr tp)
      obtain ty payload where tp: "tp = (ty, payload)" by (cases tp)
      have ps: "packets (packetLimit srv) r = (ty, payload) # packets (packetLimit srv) r'"
        using pkt Inr tp by (simp add: packets.simps [of _ r])
      have se: "stream_end (packetLimit srv) r = stream_end (packetLimit srv) r'"
        using pkt Inr tp by (simp add: stream_end.simps [of _ r])
      obtain rep s1 where serve: "run_state (serve_packet E srv (slots i) ty payload) s = (rep, s1)"
        by (metis prod.exhaust)
      from serve_packet_settled [OF fs settled serve] obtain m
        where s1: "settled_session (sv_ro srv) s1" and m: "rep = Answer m" "reply_id m = Some (requestID payload)"
        by blast
      note step = run_loop.simps [of E srv slots i r w s, unfolded pkt Inr tp prod.case sum.case serve m(1) reply.case]
      show ?thesis
      proof (cases rule: Send_cases [of m w 0])
        case (large c)
        with run False s1 step show ?thesis by (auto intro!: exI [of _ "[]"])
      next
        case (sent c)
        have ans: "answered m (ty, payload)" using m sent(1) by (simp add: answered_def)
        show ?thesis
        proof (cases "w_err w")
          case (Some e)
          with sent run False s1 step ans ps show ?thesis by (auto intro!: exI [of _ "[m]"])
        next
          case None
          let ?w = "w\<lparr>w_calls := w_calls w @ [frame_msg m]\<rparr>"
          have rec: "run_loop E srv slots (Suc i) r' ?w s1 = (out, w', s')"
            using run False step sent(2) None by simp
          have "out \<noteq> Crashed \<and> settled_session (sv_ro srv) s' \<and> w_err w' = w_err ?w \<and>
              (w_err ?w = None \<longrightarrow> out = Ended (endOfInput (stream_end (packetLimit srv) r')) \<or>
                out = Ended (Some (SessPacket ErrPacketTooLarge))) \<and>
              (\<exists>ms. w_calls w' = w_calls ?w @ map frame_msg ms \<and>
                list_all2 answered ms (take (length ms) (packets (packetLimit srv) r')) \<and>
                (w_err ?w = None \<and> out \<noteq> Ended (Some (SessPacket ErrPacketTooLarge)) \<longrightarrow>
                  length ms = length (packets (packetLimit srv) r')))"
            by (rule IH [OF False pkt [symmetric] Inr tp [symmetric] refl serve [symmetric] m(1) sent(2) [symmetric] refl _ s1 fs rec])
              (use None in simp)
          then obtain ms where "out \<noteq> Crashed \<and> settled_session (sv_ro srv) s'" "w_err w' = w_err w"
            "out = Ended (endOfInput (stream_end (packetLimit srv) r)) \<or> out = Ended (Some (SessPacket ErrPacketTooLarge))"
            "w_calls w' = w_calls w @ map frame_msg (m # ms)"
            "list_all2 answered ms (take (length ms) (packets (packetLimit srv) r'))"
            "out \<noteq> Ended (Some (SessPacket ErrPacketTooLarge)) \<longrightarrow> length ms = length (packets (packetLimit srv) r')"
            unfolding se using None by auto
          with ans ps show ?thesis by (intro conjI exI [of _ "m # ms"]) auto
        qed
      qed
    qed
  qed
qed

end

subsection \<open>The end of a session\<close>

definition only_held :: "'w sess \<Rightarrow> bool" where
  "only_held s \<longleftrightarrow> table_invar (se_handles s) \<and>
     (distinct (tokens (se_trace s)) \<longrightarrow> opens_run {#} (se_trace s) = Some (held (se_handles s)))"

lemma settled_only_held: "settled_session ro s \<Longrightarrow> only_held s"
  by (auto simp: settled_session_def at_state_def only_held_def table_ok_def)

lemma closeAll_range_spec:
  assumes "only_held s" "run_state (closeAll_range srv first toks) s = (e, s')"
  shows "only_held s' \<and> fst ` set (se_handles s') = fst ` set (se_handles s) - set toks
    \<and> (\<exists>fs. se_trace s' = se_trace s @ map EvClose fs \<and> held (se_handles s) = held (se_handles s') + mset fs)"
  using assms
proof (induction srv first toks arbitrary: s rule: closeAll_range.induct)
  case (1 srv first)
  then show ?case by (auto intro: exI [of _ "[]"])
next
  case (2 srv first tok toks)
  let ?t = "se_handles s"
  have inv: "table_invar ?t" using 2 by (simp add: only_held_def)
  have keys: "fst ` set (handles_delete tok ?t) = fst ` set ?t - {tok}"
    using arg_cong [OF delete_keys [of tok ?t], of set] by (simp add: handles_delete_def)
  show ?case
  proof (cases "handles_get ?t tok")
    case None
    then have "tok \<notin> fst ` set ?t" by (simp add: handles_get_def map_of_eq_None_iff)
    moreover have "run_state (closeAll_range srv first toks) s = (e, s')" using 2(5) None by simp
    from 2(1) [OF None 2(4) this] have "only_held s' \<and> fst ` set (se_handles s') = fst ` set ?t - set toks
        \<and> (\<exists>fs. se_trace s' = se_trace s @ map EvClose fs \<and> held ?t = held (se_handles s') + mset fs)" .
    ultimately show ?thesis by auto
  next
    case (Some h)
    note held = held_delete [OF inv Some]
    show ?thesis
    proof (cases "of_file h")
      case None
      let ?s = "s\<lparr>se_handles := handles_delete tok ?t\<rparr>"
      have "only_held ?s"
        using 2(4) held [symmetric] None handles.invar_del [OF inv] by (simp add: only_held_def file_of_handle_def)
      moreover have "run_state (closeAll_range srv first toks) ?s = (e, s')"
        using 2(5) Some None by simp
      ultimately have "only_held s' \<and> fst ` set (se_handles s') = fst ` set (se_handles ?s) - set toks
          \<and> (\<exists>fs. se_trace s' = se_trace ?s @ map EvClose fs \<and> held (se_handles ?s) = held (se_handles s') + mset fs)"
        by (rule 2(2) [OF Some None])
      moreover have "held ?t = held (handles_delete tok ?t)"
        using held None by (simp only: file_of_handle_def option.case empty_neutral)
      ultimately show ?thesis using keys by auto
    next
      case (Some f)
      obtain err w where close: "F_Close (sv_fsys srv) f (se_world s) = (err, w)" by fastforce
      let ?s = "s\<lparr>se_world := w, se_trace := se_trace s @ [EvClose f], se_handles := handles_delete tok ?t\<rparr>"
      let ?first = "if err \<noteq> None \<and> first = None then err else first"
      have "f \<in># held ?t" "held ?t - {#f#} = held (handles_delete tok ?t)"
        unfolding held using Some by (simp_all add: file_of_handle_def)
      then have "only_held ?s"
        using 2(4) handles.invar_del [OF inv]
        by (simp add: only_held_def file_of_handle_def tokens_single opens_run_append)
      moreover have "run_state (closeAll_range srv ?first toks) ?s = (e, s')"
        using 2(5) \<open>handles_get ?t tok = Some h\<close> Some close by (simp add: do_Close_def)
      ultimately have "only_held s' \<and> fst ` set (se_handles s') = fst ` set (se_handles ?s) - set toks
          \<and> (\<exists>fs. se_trace s' = se_trace ?s @ map EvClose fs \<and> held (se_handles ?s) = held (se_handles s') + mset fs)"
        by (rule 2(3) [OF \<open>handles_get ?t tok = Some h\<close> Some])
      then obtain fs where "only_held s'" "fst ` set (se_handles s') = fst ` set ?t - {tok} - set toks"
        "se_trace s' = se_trace s @ map EvClose (f # fs)"
        "held (handles_delete tok ?t) = held (se_handles s') + mset fs" using keys by auto
      moreover from this(4) have "held ?t = held (se_handles s') + mset (f # fs)"
        unfolding held using Some by (simp add: file_of_handle_def)
      ultimately show ?thesis by (intro conjI exI [of _ "f # fs"]) auto
    qed
  qed
qed

subsection \<open>Negotiation\<close>

abbreviation version_msg :: "'w Server \<Rightarrow> message" where
  "version_msg srv \<equiv> VersionMsg \<lparr>vr_Version = Version, vr_Extensions = extensions srv\<rparr>"

lemma version_msg_fits: "int (1 + length (payload_of (version_msg srv))) \<le> MaxPacket"
proof -
  have "int (1 + length (payload_of (VersionMsg \<lparr>vr_Version = Version, vr_Extensions = es\<rparr>))) \<le> MaxPacket"
    if "es = [\<lparr>ep_Type = limitsExtension, ep_Data = ''1''\<rparr>]
      \<or> es = [\<lparr>ep_Type = limitsExtension, ep_Data = ''1''\<rparr>, \<lparr>ep_Type = copyDataExtension, ep_Data = ''1''\<rparr>]" for es
    using that by (elim disjE; hypsubst; code_simp)
  from this [of "extensions srv"] show ?thesis by (simp add: extensions_def Let_def)
qed

lemma Send_version:
  "w_err w = None \<Longrightarrow> \<exists>cap. Send w (version_msg srv) c =
     ((cap, None), w\<lparr>w_calls := w_calls w @ [frame_msg (version_msg srv)]\<rparr>)"
  by (cases rule: Send_cases [of "version_msg srv" w c]) (use version_msg_fits [of srv] in auto)

lemma negotiate_init:
  assumes "rd_data r = frame_msg (InitMsg i) @ rest" "message_ok 262144 (InitMsg i)" "Version \<le> ir_Version i"
    and "int (1 + length (payload_of (InitMsg i))) \<le> min MaxPacket (packetLimit srv)" "w_err w = None"
  shows "negotiate srv r w =
    (None, r\<lparr>rd_data := rest\<rparr>, w\<lparr>w_calls := w_calls w @ [frame_msg (version_msg srv)]\<rparr>)"
proof -
  have "limit_of (packetLimit srv) = packetLimit srv"
    using packetLimit_pos [of srv] by (simp add: limit_of_def)
  then obtain cap where rd: "ReadPacket r 0 (packetLimit srv)
      = (Inr (FxpInit, payload_of (InitMsg i)), cap, r\<lparr>rd_data := rest\<rparr>)"
    using ReadPacket_frame [of "payload_of (InitMsg i)" "packetLimit srv" r FxpInit rest 0] assms(1,4)
    by (simp del: EncodePayload.simps)
  have "decode_as FxpInit (payload_of (InitMsg i)) = Some (Inr (InitMsg i))"
    using assms(2) by (simp add: decode_as_Inr del: EncodePayload.simps)
  then have "DecodeInit (payload_of (InitMsg i)) = Inr i"
    by (auto simp: decode_as_def map_sum_eq_Inr simp del: EncodePayload.simps)
  with assms(3,5) Send_version [OF assms(5), of srv 0] show ?thesis
    unfolding negotiate_def rd prod.case sum.case by auto
qed

lemma negotiate_cases:
  assumes "negotiate srv r w = (err, r', w')" "w_err w = None"
  shows "(err = None \<and> w' = w\<lparr>w_calls := w_calls w @ [frame_msg (version_msg srv)]\<rparr>
      \<and> (\<exists>i. rd_data r = frame_msg (InitMsg i) @ rd_data r' \<and> Version \<le> ir_Version i))
    \<or> (err \<noteq> None \<and> w' = w)"
proof (cases "ReadPacket r 0 (packetLimit srv)")
  case (fields pkt cap r1)
  show ?thesis
  proof (cases pkt)
    case (Inl e)
    with assms fields show ?thesis by (auto simp: negotiate_def)
  next
    case (Inr tp)
    obtain t payload where tp: "tp = (t, payload)" by (cases tp)
    note rd = fields [unfolded Inr tp]
    show ?thesis
    proof (cases "DecodeInit payload")
      case (Inl e)
      with assms(1) rd show ?thesis by (auto simp: negotiate_def split: if_splits)
    next
      case (Inr i)
      then have "decode_as FxpInit payload = Some (Inr (InitMsg i))" by (simp add: decode_as_def)
      then have "payload = payload_of (InitMsg i)" by (simp add: decode_as_Inr del: EncodePayload.simps)
      with ReadPacket_consumes [OF rd] assms(1) Send_version [OF assms(2), of srv 0] rd Inr show ?thesis
        by (auto simp: negotiate_def simp del: EncodePayload.simps split: if_splits)
    qed
  qed
qed

lemma closeAll_spec:
  assumes "only_held s" "set order = fst ` set (se_handles s)" "run_state (closeAll srv order) s = (e, s')"
  shows "se_handles s' = [] \<and> (distinct (tokens (se_trace s')) \<longrightarrow> opens_run {#} (se_trace s') = Some {#})
    \<and> (\<exists>fs. se_trace s' = se_trace s @ map EvClose fs \<and> mset fs = held (se_handles s))"
  using closeAll_range_spec [OF assms(1), of srv None order e s'] assms(2,3)
  by (auto simp: closeAll_def only_held_def)

text \<open>\<open>covers order\<close>: the iteration over a map visits every key of it.\<close>

definition covers :: "(handle_table \<Rightarrow> string list) \<Rightarrow> bool" where
  "covers order \<longleftrightarrow> (\<forall>t. set (order t) = fst ` set t)"

context driver_contract
begin

lemma Serve_spec:
  assumes "sv_fsys srv = fs" "covers order" "Serve E srv slots order r w world = (out, w', s')"
  shows "out \<noteq> Crashed \<and> se_handles s' = []
    \<and> (distinct (tokens (se_trace s')) \<longrightarrow> opens_run {#} (se_trace s') = Some {#})
    \<and> (\<exists>tr files. se_trace s' = tr @ map EvClose files \<and> monitor_run (sv_ro srv) Free tr = Some Free)"
proof -
  obtain err r1 w1 where neg: "negotiate srv r w = (err, r1, w1)" by (metis prod.exhaust)
  obtain out1 w2 s1 where mid: "(case err of Some e \<Rightarrow> (Ended (Some e), w1, new_session world)
      | None \<Rightarrow> run_loop E srv slots 0 r1 w1 (new_session world)) = (out1, w2, s1)" by (metis prod.exhaust)
  have s1: "out1 \<noteq> Crashed" "settled_session (sv_ro srv) s1"
    using mid settled_new_session run_loop_settled [OF assms(1) settled_new_session]
    by (auto split: option.splits)
  obtain e s2 where close: "run_state (closeAll srv (order (se_handles s1))) s1 = (e, s2)" by fastforce
  have "out = out1" "s' = s2"
    using assms(3) neg mid s1 close unfolding Serve_def new_session_def [symmetric]
    by (auto split: option.splits)
  moreover have "set (order (se_handles s1)) = fst ` set (se_handles s1)"
    using assms(2) by (simp add: covers_def)
  moreover have "monitor_run (sv_ro srv) Free (se_trace s1) = Some Free"
    using s1(2) by (auto simp: settled_session_def at_state_def)
  ultimately show ?thesis
    using s1 closeAll_spec [OF settled_only_held [OF s1(2)] _ close] by blast
qed

lemma Serve_conversation:
  assumes "sv_fsys srv = fs" "Serve E srv slots order r w world = (out, w', s')" "w_err w = None"
    and "negotiate srv r w = (None, r1, w1)"
  shows "\<exists>ms. w_calls w' = w_calls w1 @ map frame_msg ms
    \<and> list_all2 answered ms (take (length ms) (packets (packetLimit srv) r1))
    \<and> (out = Ended (Some (SessPacket ErrPacketTooLarge))
       \<or> out = Ended (endOfInput (stream_end (packetLimit srv) r1)) \<and> length ms = length (packets (packetLimit srv) r1))"
proof -
  obtain out1 w2 s1 where loop: "run_loop E srv slots 0 r1 w1 (new_session world) = (out1, w2, s1)"
    by (metis prod.exhaust)
  have "w_err w1 = None" using negotiate_cases [OF assms(4,3)] assms(3) by auto
  moreover note run_loop_settled [OF assms(1) settled_new_session loop]
  moreover from this have "out = out1 \<and> w' = w2"
    using assms(2,4) loop unfolding Serve_def new_session_def [symmetric] by (auto simp: Let_def)
  ultimately show ?thesis by blast
qed

end

subsection \<open>What the specification says about single events\<close>

text \<open>
  The paths an event hands to the driver to be resolved. The target of a symbolic link is data; the
  paths of the four calls of \<^verbatim>\<open>SETSTAT\<close> are left out, since that handler does not resolve its path.
\<close>

fun paths_of :: "event \<Rightarrow> string list" where
  "paths_of (EvStat p) = [p]"
| "paths_of (EvReadFile p) = [p]"
| "paths_of (EvListDir p) = [p]"
| "paths_of (EvReadLink p) = [p]"
| "paths_of (EvWriteFile p d perm) = [p]"
| "paths_of (EvMkDir p perm) = [p]"
| "paths_of (EvDeleteFile p) = [p]"
| "paths_of (EvDeleteDir p) = [p]"
| "paths_of (EvRename p q) = [p, q]"
| "paths_of (EvSymlink target p) = [p]"
| "paths_of (EvOpenFile p f) = [p]"
| "paths_of _ = []"

fun mutating :: "event \<Rightarrow> bool" where
  "mutating (EvWriteFile p d perm) = True"
| "mutating (EvMkDir p perm) = True"
| "mutating (EvDeleteFile p) = True"
| "mutating (EvDeleteDir p) = True"
| "mutating (EvRename p q) = True"
| "mutating (EvSymlink target p) = True"
| "mutating (EvTruncate p n) = True"
| "mutating (EvChmod p perm) = True"
| "mutating (EvChown p u g) = True"
| "mutating (EvChtimes p a b) = True"
| "mutating (EvWriteAt f d off) = True"
| "mutating (EvFileTruncate f n) = True"
| "mutating (EvRange dst src a b n) = True"
| "mutating _ = False"

lemma monitor_event: "monitor ro m e = Some m' \<Longrightarrow> (\<forall>p \<in> set (paths_of e). resolved p) \<and> (ro \<longrightarrow> \<not> mutating e)"
  by (cases e) (auto split: if_splits)

lemma monitor_run_events:
  "monitor_run ro m es = Some m' \<Longrightarrow> e \<in> set es \<Longrightarrow>
     (\<forall>p \<in> set (paths_of e). resolved p) \<and> (ro \<longrightarrow> \<not> mutating e)"
proof (induction es arbitrary: m)
  case (Cons e' es)
  then show ?case using monitor_event [of ro m e'] by (auto split: option.splits)
qed simp

subsection \<open>The drivers of the tests keep the contract\<close>

lemma mem_ReadAt_bound: "mem_ReadAt f n off w = ((got, content, err), w') \<Longrightarrow> got \<le> int n"
  by (auto simp: mem_ReadAt_def Let_def split: option.splits if_splits)

interpretation bare: driver_contract bareFS
  by unfold_locales (auto simp: bareFS_def dest: mem_ReadAt_bound)

interpretation opener: driver_contract openerFS
  by unfold_locales (auto simp: openerFS_def memFS_fs_def bareFS_def dest: mem_ReadAt_bound)

interpretation writable: driver_contract writableFS
  by unfold_locales (auto simp: writableFS_def memFS_fs_def bareFS_def dest: mem_ReadAt_bound)

end
