(* ===== verification/Sessions.thy ===== *)
theory Sessions
  imports Session_Safety
begin

text \<open>
  The properties of whole sessions: what every reachable state satisfies, what a session asks of its
  driver, what it answers, and what it leaves behind. They hold for every driver that keeps the one law
  of \<open>driver_contract\<close>, for every byte stream a client may send, and for whatever other sessions do to the
  world between two requests of this one.
\<close>

subsection \<open>Reachable states\<close>

inductive reachable :: "'w Env \<Rightarrow> 'w Server \<Rightarrow> 'w sess \<Rightarrow> bool" for E srv where
  start: "reachable E srv (new_session world)"
| request: "reachable E srv s \<Longrightarrow> run_state (serve_packet E srv slot t payload) s = (r, s') \<Longrightarrow> reachable E srv s'"
| elsewhere: "reachable E srv s \<Longrightarrow> reachable E srv (s\<lparr>se_world := world\<rparr>)"

lemma settled_other_world: "settled_session ro s \<Longrightarrow> settled_session ro (s\<lparr>se_world := world\<rparr>)"
  by (simp add: settled_session_def at_state_def)

context driver_contract
begin

lemma reachable_settled: "reachable E srv s \<Longrightarrow> sv_fsys srv = fs \<Longrightarrow> settled_session (sv_ro srv) s"
proof (induction rule: reachable.induct)
  case (request s slot t payload r s')
  then show ?case using serve_packet_settled by blast
qed (auto intro: settled_new_session settled_other_world)

lemma Serve_events:
  assumes "sv_fsys srv = fs" "covers order" "Serve E srv slots order r w world = (out, w', s')" "e \<in> set (se_trace s')"
  shows "(\<forall>p \<in> set (paths_of e). resolved p) \<and> (sv_ro srv \<longrightarrow> \<not> mutating e)"
proof -
  obtain tr files where tr: "se_trace s' = tr @ map EvClose files" "monitor_run (sv_ro srv) Free tr = Some Free"
    using Serve_spec [OF assms(1-3)] by blast
  from tr(1) assms(4) consider "e \<in> set tr" | f where "e = EvClose f" by auto
  then show ?thesis
  proof cases
    case 1
    then show ?thesis by (rule monitor_run_events [OF tr(2)])
  qed simp
qed

end

lemma settled_table: "settled_session ro s \<Longrightarrow> table_ok ro (se_handles s)"
  by (auto simp: settled_session_def at_state_def)

lemma settled_trace: "settled_session ro s \<Longrightarrow> monitor_run ro Free (se_trace s) = Some Free"
  by (auto simp: settled_session_def at_state_def)

subsection \<open>A session to evaluate\<close>

text \<open>
  A client of a writable export makes a directory above the root, tries to write a file it never
  created, creates one, writes to it and leaves without closing it.
\<close>

definition example_server :: "bool \<Rightarrow> memFS Server" where
  "example_server ro = \<lparr>sv_fsys = writableFS, sv_opener = openerFor writableFS, sv_ro = ro, sv_maxPacket = 0,
     sv_start = 0, sv_maxInFlight = 1, sv_maxTotal = DefaultMaxInFlightTotal, sv_packetWait = 0,
     sv_pathConcurrent = False\<rparr>"

definition example_world :: memFS where
  "example_world = newMemFS\<lparr>m_rand := [[1, 2, 3, 4, 5, 6, 7, 8]]\<rparr>"

definition example_requests :: "message list" where
  "example_requests =
    [SetstatMsg \<lparr>ss_PacketType = FxpMkdir, ss_ID = 1, ss_Path = ''../d'', ss_Attrs = noAttributes\<rparr>,
     OpenMsg \<lparr>or_ID = 2, or_Path = ''d/f'', or_PFlags = FxfWrite, or_Attrs = noAttributes\<rparr>,
     OpenMsg \<lparr>or_ID = 3, or_Path = ''d/f'', or_PFlags = FxfWrite OR FxfCreat, or_Attrs = noAttributes\<rparr>,
     WriteMsg \<lparr>wr_ID = 4, wr_Handle = ''01020304050607080000000000000000'', wr_Offset = 1, wr_Data = [7, 8]\<rparr>]"

definition example_input :: reader where
  "example_input = \<lparr>rd_data = concat (map frame_msg
     (InitMsg \<lparr>ir_Version = 3, ir_Extensions = []\<rparr> # example_requests)), rd_err = EOF\<rparr>"

definition example_session :: "bool \<Rightarrow> outcome \<times> writer \<times> memFS sess" where
  "example_session ro = Serve memEnv (example_server ro) (\<lambda>i. []) (map fst) example_input
     \<lparr>w_calls = [], w_err = None\<rparr> example_world"

lemma example_trace:
  "se_trace (snd (snd (example_session False))) =
    [EvLock, EvMkDir ''/d'' 0x1ED, EvUnlock, EvLock, EvStat ''/d/f'', EvUnlock,
     EvLock, EvStat ''/d/f'', EvWriteFile ''/d/f'' [] 0x1A4,
       EvOpenFile ''/d/f'' (Some \<lparr>fl_Ref = 0, fl_Writable = True\<rparr>), EvRand (Some ''01020304050607080000000000000000''), EvUnlock,
     EvLockIO, EvWriteAt \<lparr>fl_Ref = 0, fl_Writable = True\<rparr> [7, 8] 1, EvUnlockIO,
     EvClose \<lparr>fl_Ref = 0, fl_Writable = True\<rparr>]"
  by code_simp

lemma example_outcome: "fst (example_session False) = Ended None"
  by code_simp

lemma covers_map_fst: "covers (map fst)"
  by (simp add: covers_def)

lemmas example_contract = writable.driver_contract_axioms

lemma example_reachable: "reachable memEnv (example_server False) (new_session example_world)"
  by (rule reachable.start)

lemma writable_contract: "driver_contract (sv_fsys (example_server ro))"
  by (simp add: example_server_def writable.driver_contract_axioms)

subsection \<open>Properties\<close>

text \<open>C1: In every state a session can reach, whatever packets it was sent and whatever other sessions did to
  the world in between, the handle table is sound: its tokens are distinct, it holds at most 1024 handles,
  every handle names a path below the root, only a writable export holds handles open for writing, and no
  directory cursor is past its listing; the locks are all released.\<close>

theorem session_invariant:
  assumes "driver_contract (sv_fsys srv)" "reachable E srv s"
  shows "table_ok (sv_ro srv) (se_handles s) \<and> monitor_run (sv_ro srv) Free (se_trace s) = Some Free"
  using driver_contract.reachable_settled [OF assms refl] by (simp add: settled_table settled_trace)

theorem session_invariant_witness:
  "table_ok False (se_handles (new_session example_world))"
  using session_invariant [OF writable_contract example_reachable]
  by (simp add: example_server_def)

text \<open>C2: Every packet gets exactly one reply and the reply carries the request id of the packet, in every
  reachable state and for every packet type and payload, malformed ones included; no request panics.\<close>

theorem request_answered:
  assumes "driver_contract (sv_fsys srv)" "reachable E srv s"
    and "run_state (serve_packet E srv slot t payload) s = (r, s')"
  shows "\<exists>m. r = Answer m \<and> reply_id m = Some (requestID payload)"
  using driver_contract.serve_packet_settled
    [OF assms(1) refl driver_contract.reachable_settled [OF assms(1,2) refl] assms(3)] by blast

theorem request_answered_witness:
  "fst (run_state (serve_packet memEnv (example_server False) [] 99 [0, 0, 0, 9, 1]) (new_session example_world))
     = Answer (status_msg 9 StatusOpUnsupported ''unsupported request type'')
   \<and> reply_id (status_msg 9 StatusOpUnsupported ''unsupported request type'') = Some (requestID [0, 0, 0, 9, 1])"
proof -
  have run: "fst (run_state (serve_packet memEnv (example_server False) [] 99 [0, 0, 0, 9, 1]) (new_session example_world))
     = Answer (status_msg 9 StatusOpUnsupported ''unsupported request type'')"
    by code_simp
  then obtain s' where "run_state (serve_packet memEnv (example_server False) [] 99 [0, 0, 0, 9, 1])
      (new_session example_world) = (Answer (status_msg 9 StatusOpUnsupported ''unsupported request type''), s')"
    by (metis prod.collapse)
  with run show ?thesis
    using request_answered [OF writable_contract example_reachable] by blast
qed

text \<open>C3: Containment. Every path a session hands to the driver to be resolved is a resolved one, below
  the root and without \<^verbatim>\<open>.\<close> or \<^verbatim>\<open>..\<close>, whatever bytes the client sends. The paths of \<^verbatim>\<open>SETSTAT\<close> are not among
  them.\<close>

theorem session_contained:
  assumes "driver_contract (sv_fsys srv)" "covers order"
    and "Serve E srv slots order r w world = (out, w', s')"
    and "e \<in> set (se_trace s')" "p \<in> set (paths_of e)"
  shows "resolved p"
  using driver_contract.Serve_events [OF assms(1) refl assms(2-4)] assms(5) by blast

theorem session_contained_witness: "resolved ''/d''"
proof -
  obtain out w' s' where ex: "example_session False = (out, w', s')" by (metis prod.exhaust)
  have "EvMkDir ''/d'' 0x1ED \<in> set (se_trace s')" using example_trace ex by simp
  then show ?thesis
    using session_contained [OF writable_contract covers_map_fst ex [unfolded example_session_def]] by simp
qed

text \<open>C4: A read-only export never asks its driver to change anything: no call a session makes creates,
  writes, truncates, renames, links, removes or changes the metadata of anything.\<close>

theorem read_only_session:
  assumes "driver_contract (sv_fsys srv)" "covers order" "sv_ro srv"
    and "Serve E srv slots order r w world = (out, w', s')"
  shows "list_all (\<lambda>e. \<not> mutating e) (se_trace s')"
  using driver_contract.Serve_events [OF assms(1) refl assms(2,4)] assms(3) by (simp add: list_all_iff)

theorem read_only_session_witness:
  "list_all (\<lambda>e. \<not> mutating e) (se_trace (snd (snd (example_session True))))
   \<and> \<not> list_all (\<lambda>e. \<not> mutating e) (se_trace (snd (snd (example_session False))))"
proof -
  obtain out w' s' where ex: "example_session True = (out, w', s')" by (metis prod.exhaust)
  have "sv_ro (example_server True)" by (simp add: example_server_def)
  from read_only_session [OF writable_contract covers_map_fst this ex [unfolded example_session_def]] ex
  show ?thesis by (simp add: example_trace)
qed

text \<open>C17: Lock discipline. Up to the final \<^verbatim>\<open>closeAll\<close>, every call of a session is made under a lock that
  permits it: changes and opens under the exclusive lock, lookups under the exclusive or the shared path lock,
  reads and writes of open files under the shared I/O lock; locks are never nested and all are released.\<close>

theorem session_lock_discipline:
  assumes "driver_contract (sv_fsys srv)" "covers order"
    and "Serve E srv slots order r w world = (out, w', s')"
  shows "\<exists>tr files. se_trace s' = tr @ map EvClose files \<and> monitor_run (sv_ro srv) Free tr = Some Free"
  using driver_contract.Serve_spec [OF assms(1) refl assms(2,3)] by blast

theorem session_lock_discipline_witness:
  "\<exists>tr files. se_trace (snd (snd (example_session False))) = tr @ map EvClose files
     \<and> monitor_run False Free tr = Some Free"
proof -
  obtain out w' s' where ex: "example_session False = (out, w', s')" by (metis prod.exhaust)
  show ?thesis
    using session_lock_discipline [OF writable_contract covers_map_fst ex [unfolded example_session_def]] ex
    by (simp add: example_server_def)
qed

text \<open>C5: Open files. As long as the random source has not handed out one token twice, a session uses a file of
  the driver only between opening and closing it, closes each exactly once, and leaves none open: when
  \<^verbatim>\<open>Serve\<close> returns, whether the client closed its handles or not, the table is empty.\<close>

theorem session_releases_files:
  assumes "driver_contract (sv_fsys srv)" "covers order"
    and "Serve E srv slots order r w world = (out, w', s')"
  shows "se_handles s' = [] \<and> (distinct (tokens (se_trace s')) \<longrightarrow> opens_run {#} (se_trace s') = Some {#})"
  using driver_contract.Serve_spec [OF assms(1) refl assms(2,3)] by blast

theorem session_releases_files_witness:
  "opens_run {#} (se_trace (snd (snd (example_session False)))) = Some {#}"
proof -
  obtain out w' s' where ex: "example_session False = (out, w', s')" by (metis prod.exhaust)
  have "distinct (tokens (se_trace s'))" using example_trace ex by (simp add: tokens_def)
  then show ?thesis
    using session_releases_files [OF writable_contract covers_map_fst ex [unfolded example_session_def]] ex
    by simp
qed





end
