(* ===== verification/File_Contents.thy ===== *)
theory File_Contents
  imports Sessions
begin

text \<open>
  What a client sees of a file. The abstract file is a list of bytes: a \<^verbatim>\<open>READ\<close> returns a slice of it and
  a \<^verbatim>\<open>WRITE\<close> splices bytes into it. The server implements that in two ways: on a driver with positioned
  access through \<^verbatim>\<open>ReadAt\<close> and \<^verbatim>\<open>WriteAt\<close>, and on any other by reading and rewriting the whole file. Two
  locales state what each kind of driver promises, and both ways refine the same abstract file.
\<close>

subsection \<open>The abstract file\<close>

definition splice_bytes :: "bytes \<Rightarrow> nat \<Rightarrow> bytes \<Rightarrow> bytes" where
  "splice_bytes old off data =
     map (\<lambda>i. if off \<le> i \<and> i < off + length data then data ! (i - off)
              else if i < length old then old ! i else 0) [0..<max (length old) (off + length data)]"

definition read_reply :: "u32 \<Rightarrow> bytes \<Rightarrow> nat \<Rightarrow> nat \<Rightarrow> message" where
  "read_reply rid c off n =
     (if length c \<le> off then status_msg rid StatusEOF ''''
      else DataMsg \<lparr>dr_ID = rid, dr_Data = take n (drop off c)\<rparr>)"

text \<open>One request on the abstract file; \<open>len\<close> is the most bytes one \<^verbatim>\<open>READ\<close> returns.\<close>

fun file_step :: "int \<Rightarrow> message \<Rightarrow> bytes \<Rightarrow> message \<times> bytes" where
  "file_step len (ReadMsg m) c =
     (if rr_Length m = 0 then DataMsg \<lparr>dr_ID = rr_ID m, dr_Data = []\<rparr>
      else read_reply (rr_ID m) c (unat (rr_Offset m)) (nat (min (uint (rr_Length m)) len)), c)"
| "file_step len (WriteMsg m) c =
     (status_msg (wr_ID m) StatusOK '''', splice_bytes c (unat (wr_Offset m)) (wr_Data m))"
| "file_step len m c = (m, c)"

fun file_run :: "int \<Rightarrow> message list \<Rightarrow> bytes \<Rightarrow> message list \<times> bytes" where
  "file_run len [] c = ([], c)"
| "file_run len (m # ms) c =
     (case file_step len m c of (r, c) \<Rightarrow> (case file_run len ms c of (rs, c) \<Rightarrow> (r # rs, c)))"

text \<open>Requests of the handle \<open>tok\<close>, each of them within the room the driver has when its turn comes.\<close>

fun file_request :: "string \<Rightarrow> message \<Rightarrow> bool" where
  "file_request tok (ReadMsg m) \<longleftrightarrow> rr_Handle m = tok \<and> message_ok 262144 (ReadMsg m)"
| "file_request tok (WriteMsg m) \<longleftrightarrow> wr_Handle m = tok \<and> message_ok 262144 (WriteMsg m)"
| "file_request tok m \<longleftrightarrow> False"

fun roomy :: "(bytes \<Rightarrow> nat \<Rightarrow> nat \<Rightarrow> bool) \<Rightarrow> message list \<Rightarrow> bytes \<Rightarrow> bool" where
  "roomy room [] c \<longleftrightarrow> True"
| "roomy room (WriteMsg m # ms) c \<longleftrightarrow>
     uint (wr_Offset m) \<le> MaxInt64 \<and> room c (unat (wr_Offset m)) (length (wr_Data m))
     \<and> roomy room ms (splice_bytes c (unat (wr_Offset m)) (wr_Data m))"
| "roomy room (m # ms) c \<longleftrightarrow> roomy room ms c"

text \<open>The server's side: the requests served one after the other.\<close>

fun exchange :: "'w Env \<Rightarrow> 'w Server \<Rightarrow> bytes \<Rightarrow> message list \<Rightarrow> ('w, reply list) act" where
  "exchange E srv slot [] = ret []"
| "exchange E srv slot (m # ms) = do {
     r \<leftarrow> serve_packet E srv slot (Message_Type m) (payload_of m);
     rs \<leftarrow> exchange E srv slot ms;
     ret (r # rs)
   }"

subsection \<open>Splicing\<close>

lemma length_splice [simp]: "length (splice_bytes old off data) = max (length old) (off + length data)"
  by (simp add: splice_bytes_def)

lemma nth_splice:
  "i < max (length old) (off + length data) \<Longrightarrow> splice_bytes old off data ! i =
     (if off \<le> i \<and> i < off + length data then data ! (i - off) else if i < length old then old ! i else 0)"
  by (simp add: splice_bytes_def)

lemma splice_overlay:
  assumes "buf = (if off + length data > length old then overlay old (replicate (off + length data) 0) else old)"
  shows "take off buf @ overlay data (drop off buf) = splice_bytes old off data"
proof (rule nth_equalityI)
  have len: "length buf = max (length old) (off + length data)" using assms by auto
  then show "length (take off buf @ overlay data (drop off buf)) = length (splice_bytes old off data)" by simp
  fix i assume "i < length (take off buf @ overlay data (drop off buf))"
  then have i: "i < max (length old) (off + length data)" using len by simp
  have "buf ! i = (if i < length old then old ! i else 0)"
    using i assms by (auto simp: nth_overlay)
  then show "(take off buf @ overlay data (drop off buf)) ! i = splice_bytes old off data ! i"
    using i len by (auto simp: nth_append nth_splice nth_overlay)
qed

lemma take_drop_splice: "take (length data) (drop off (splice_bytes old off data)) = data"
  by (rule nth_equalityI) (auto simp: nth_splice)

lemma splice_read: "data \<noteq> [] \<Longrightarrow> read_reply rid (splice_bytes old off data) off (length data)
    = DataMsg \<lparr>dr_ID = rid, dr_Data = data\<rparr>"
  by (simp add: read_reply_def take_drop_splice)

subsection \<open>What the two jobs do\<close>

definition job_read :: "'w Server \<Rightarrow> openFile \<Rightarrow> u32 \<Rightarrow> u64 \<Rightarrow> nat \<Rightarrow> bytes \<Rightarrow> ('w, reply) act" where
  "job_read srv h rid off n slot =
     (case of_file h of
        Some f \<Rightarrow> with_IO (readAt srv rid f off n slot)
      | None \<Rightarrow> with_rlock (readWhole srv rid (of_path h) off n))"

definition job_write :: "'w Server \<Rightarrow> openFile \<Rightarrow> u32 \<Rightarrow> u64 \<Rightarrow> bytes \<Rightarrow> ('w, reply) act" where
  "job_write srv h rid off data =
     (case of_writable h of
        Some w \<Rightarrow> with_IO (do {
          (put, err) \<leftarrow> do_WriteAt srv w data off;
          if err \<noteq> None then failure rid err StatusFailure else answer rid StatusOK ''''
        })
      | None \<Rightarrow> with_lock (writeSplice srv rid (of_path h) off data))"

lemma decoded_read:
  assumes "message_ok 262144 (ReadMsg m)"
  shows "DecodeRead (payload_of (ReadMsg m)) = Inr m"
proof -
  have "decode_as FxpRead (payload_of (ReadMsg m)) = Some (Inr (ReadMsg m))"
    using assms by (simp add: decode_as_Inr del: EncodePayload.simps)
  then show ?thesis
    by (auto simp: decode_as_def map_sum_eq_Inr packet_type_sets simp del: EncodePayload.simps)
qed

lemma decoded_write:
  assumes "message_ok 262144 (WriteMsg m)"
  shows "DecodeWrite (payload_of (WriteMsg m)) = Inr m"
proof -
  have "decode_as FxpWrite (payload_of (WriteMsg m)) = Some (Inr (WriteMsg m))"
    using assms by (simp add: decode_as_Inr del: EncodePayload.simps)
  then show ?thesis
    by (auto simp: decode_as_def map_sum_eq_Inr packet_type_sets simp del: EncodePayload.simps)
qed

lemma serve_read:
  assumes "message_ok 262144 (ReadMsg m)" "handles_get (se_handles s) (rr_Handle m) = Some h" "\<not> of_dir h"
  shows "run_state (serve_packet E srv slot (Message_Type (ReadMsg m)) (payload_of (ReadMsg m))) s =
    (if rr_Length m = 0 then (Answer (DataMsg \<lparr>dr_ID = rr_ID m, dr_Data = []\<rparr>), s)
     else run_state (job_read srv h (rr_ID m) (rr_Offset m) (nat (min (uint (rr_Length m)) (readLength srv))) slot) s)"
  using decoded_read [OF assms(1)] assms(2,3)
  by (simp add: serve_packet_def prepare_def prepare_as_def readJob_def job_read_def Let_def
      del: EncodePayload.simps split: option.split)

lemma serve_write:
  assumes "message_ok 262144 (WriteMsg m)" "handles_get (se_handles s) (wr_Handle m) = Some h" "\<not> of_dir h"
    and "\<not> sv_ro srv" "of_write h" "uint (wr_Offset m) \<le> MaxInt64"
  shows "run_state (serve_packet E srv slot (Message_Type (WriteMsg m)) (payload_of (WriteMsg m))) s =
    run_state (job_write srv h (wr_ID m) (wr_Offset m) (wr_Data m)) s"
  using decoded_write [OF assms(1)] assms(2-6)
  by (simp add: serve_packet_def prepare_def prepare_as_def writeJob_def job_write_def FxpWrite_def FxpRead_def
      del: EncodePayload.simps split: option.split)

subsection \<open>An open file and its contents\<close>

locale open_file =
  fixes srv :: "'w Server" and h :: openFile and contents :: "'w \<Rightarrow> bytes option"
    and room :: "bytes \<Rightarrow> nat \<Rightarrow> nat \<Rightarrow> bool"
  assumes read_ok: "contents (se_world s) = Some c \<Longrightarrow> 0 < n \<Longrightarrow> n < 2 ^ 64 \<Longrightarrow>
      run_state (job_read srv h rid off n slot) s = (r, s') \<Longrightarrow>
      r = Answer (read_reply rid c (unat off) n) \<and> contents (se_world s') = Some c \<and> se_handles s' = se_handles s"
    and write_ok: "contents (se_world s) = Some c \<Longrightarrow> uint off \<le> MaxInt64 \<Longrightarrow> room c (unat off) (length data) \<Longrightarrow>
      run_state (job_write srv h rid off data) s = (r, s') \<Longrightarrow>
      r = Answer (status_msg rid StatusOK '''') \<and> contents (se_world s') = Some (splice_bytes c (unat off) data)
      \<and> se_handles s' = se_handles s"
begin

lemma request_refines:
  assumes "contents (se_world s) = Some c" "handles_get (se_handles s) tok = Some h" "\<not> of_dir h"
    and "\<forall>q. m = WriteMsg q \<longrightarrow> of_write h \<and> \<not> sv_ro srv" "file_request tok m" "roomy room (m # ms) c"
    and "run_state (serve_packet E srv slot (Message_Type m) (payload_of m)) s = (r, s')"
  shows "r = Answer (fst (file_step (readLength srv) m c)) \<and> contents (se_world s') = Some (snd (file_step (readLength srv) m c))
    \<and> se_handles s' = se_handles s \<and> roomy room ms (snd (file_step (readLength srv) m c))"
proof -
  from assms(5) consider (rd) q where "m = ReadMsg q" "rr_Handle q = tok" "message_ok 262144 (ReadMsg q)"
    | (wr) q where "m = WriteMsg q" "wr_Handle q = tok" "message_ok 262144 (WriteMsg q)"
    by (cases m) auto
  then show ?thesis
  proof cases
    case rd
    let ?n = "nat (min (uint (rr_Length q)) (readLength srv))"
    have "0 < uint (rr_Length q)" if "rr_Length q \<noteq> 0"
      using that by (simp add: uint_0_iff order_less_le)
    then have n: "0 < ?n \<and> ?n < 2 ^ 64" if "rr_Length q \<noteq> 0"
      using that readLength_bounds(1,2) [of srv] by (simp add: maxReadLength_def)
    note run = assms(7) [unfolded rd(1) serve_read [OF rd(3) assms(2) [folded rd(2)] assms(3)]]
    have "r = Answer (fst (file_step (readLength srv) m c)) \<and> contents (se_world s') = Some c \<and> se_handles s' = se_handles s"
    proof (cases "rr_Length q = 0")
      case True
      with run rd assms(1) show ?thesis by auto
    next
      case False
      with read_ok [OF assms(1) _ _ run [unfolded if_not_P [OF False]]] n rd(1) show ?thesis by auto
    qed
    then show ?thesis using assms(6) rd by simp
  next
    case wr
    with assms serve_write [of q s h srv E slot] write_ok [OF assms(1)] show ?thesis
      by (auto simp del: EncodePayload.simps Message_Type.simps)
  qed
qed

lemma exchange_refines:
  assumes "contents (se_world s) = Some c" "handles_get (se_handles s) tok = Some h" "\<not> of_dir h" "of_write h"
    and "\<not> sv_ro srv" "list_all (file_request tok) ms" "roomy room ms c"
    and "run_state (exchange E srv slot ms) s = (rs, s')"
  shows "rs = map Answer (fst (file_run (readLength srv) ms c))
    \<and> contents (se_world s') = Some (snd (file_run (readLength srv) ms c))"
  using assms(1,2,6-8)
proof (induction ms arbitrary: s c rs)
  case (Cons m ms)
  obtain r s1 where one: "run_state (serve_packet E srv slot (Message_Type m) (payload_of m)) s = (r, s1)" by fastforce
  obtain rs1 s2 where rest: "run_state (exchange E srv slot ms) s1 = (rs1, s2)" by fastforce
  obtain m' c' where step: "file_step (readLength srv) m c = (m', c')" by fastforce
  have "rs = r # rs1" "s' = s2" using Cons.prems(5) one rest by auto
  moreover have "file_request tok m" using Cons.prems(3) by simp
  note request_refines [OF Cons.prems(1,2) assms(3) _ this Cons.prems(4) one]
  ultimately show ?case
    using Cons.IH [of s1 c' rs1] rest Cons.prems step assms(4,5) by (auto split: prod.split)
qed simp

end

subsection \<open>Drivers that replace whole files\<close>

definition splice_room :: "bytes \<Rightarrow> nat \<Rightarrow> nat \<Rightarrow> bool" where
  "splice_room c off len \<longleftrightarrow> off + len < 2 ^ 64 \<and> (off + len \<le> length c
     \<or> int (off + len) - int (length c) \<le> maxSpliceGrowth \<and> int (off + len) \<le> maxFileSplice)"

lemma unat_add_of_nat:
  fixes off :: u64
  assumes "len < 2 ^ 64"
  shows "unat (off + word_of_nat len) = (if unat off + len < 2 ^ 64 then unat off + len else unat off + len - 2 ^ 64)"
proof -
  have "unat (word_of_nat len :: u64) = len" using assms by (simp add: unsigned_of_nat take_bit_nat_eq_self)
  moreover have "unat off < 2 ^ 64" using unsigned_less [of off, where 'a = nat] by simp
  ultimately show ?thesis using assms by (simp add: unat_word_ariths mod_if)
qed

lemma splice_room_iff:
  fixes off :: u64
  assumes "len < 2 ^ 64"
  shows "off + word_of_nat len < off \<or> (uint (off + word_of_nat len) > int (length c) \<and>
      (uint (off + word_of_nat len) - int (length c) > maxSpliceGrowth \<or> uint (off + word_of_nat len) > maxFileSplice))
    \<longleftrightarrow> \<not> splice_room c (unat off) len"
proof (cases "unat off + len < 2 ^ 64")
  case True
  then have u: "unat (off + word_of_nat len) = unat off + len" using unat_add_of_nat [OF assms] by simp
  then have "uint (off + word_of_nat len) = int (unat off + len)" by (metis uint_nat)
  moreover have "\<not> off + word_of_nat len < off" using u by (simp add: word_less_nat_alt)
  moreover have "int (length c) < int (unat off + len) \<longleftrightarrow> \<not> unat off + len \<le> length c" by linarith
  ultimately show ?thesis using True unfolding splice_room_def by (simp only: linorder_not_le [symmetric]) blast
next
  case False
  then have "off + word_of_nat len < off"
    using unat_add_of_nat [OF assms, of off] assms by (simp add: word_less_nat_alt)
  with False show ?thesis by (simp add: splice_room_def)
qed

lemma writeSplice_run:
  assumes "F_ReadFile (sv_fsys srv) path (se_world s) = ((c, None), w1)" "length data < 2 ^ 64"
  shows "run_state (writeSplice srv rid path off data) s =
    (if splice_room c (unat off) (length data) then
       (let new = splice_bytes c (unat off) data; (err, w2) = F_WriteFile (sv_fsys srv) path new 0x1A4 w1 in
        (Answer (if err = None then status_msg rid StatusOK '''' else status_msg rid (statusFor err StatusFailure) (errText err)),
         s\<lparr>se_world := w2, se_trace := se_trace s @ [EvReadFile path, EvWriteFile path new 0x1A4]\<rparr>))
     else (Answer (status_msg rid StatusFailure ''write beyond what rewriting the whole file can hold''),
           s\<lparr>se_world := w1, se_trace := se_trace s @ [EvReadFile path]\<rparr>))"
proof (cases "splice_room c (unat off) (length data)")
  case False
  then show ?thesis
    unfolding writeSplice_def do_ReadFile_def do_WriteFile_def
    using splice_room_iff [OF assms(2), of off c] assms(1) by (simp add: Let_def)
next
  case True
  then have u: "unat (off + word_of_nat (length data)) = unat off + length data"
    using unat_add_of_nat [OF assms(2), of off] by (simp add: splice_room_def)
  then have ui: "uint (off + word_of_nat (length data)) = int (unat off + length data)" by (metis uint_nat)
  define buf where "buf = (if uint (off + word_of_nat (length data)) > int (length c)
    then overlay c (replicate (unat (off + word_of_nat (length data))) 0) else c)"
  have buf: "buf = (if unat off + length data > length c then overlay c (replicate (unat off + length data) 0) else c)"
    unfolding buf_def u ui of_nat_less_iff ..
  have "unat off \<le> length buf" unfolding buf by simp
  then have sl: "slice (unat off) (length buf) buf = Some (drop (unat off) buf)" by (simp add: slice_def)
  have "run_state (writeSplice srv rid path off data) s =
    (let new = take (unat off) buf @ overlay data (drop (unat off) buf);
         (err, w2) = F_WriteFile (sv_fsys srv) path new 0x1A4 w1 in
        (Answer (if err = None then status_msg rid StatusOK '''' else status_msg rid (statusFor err StatusFailure) (errText err)),
         s\<lparr>se_world := w2, se_trace := se_trace s @ [EvReadFile path, EvWriteFile path new 0x1A4]\<rparr>))"
    unfolding writeSplice_def do_ReadFile_def do_WriteFile_def
    using True splice_room_iff [OF assms(2), of off c] assms(1) sl
    by (simp add: Let_def buf_def [symmetric] split: prod.split) blast
  then show ?thesis using True splice_overlay [OF buf] by simp
qed

lemma readWhole_run:
  assumes "F_ReadFile (sv_fsys srv) path (se_world s) = ((c, None), w')" "n < 2 ^ 64" "int (length c) \<le> MaxInt64"
  shows "run_state (readWhole srv rid path off n) s =
    (Answer (read_reply rid c (unat off) n), s\<lparr>se_world := w', se_trace := se_trace s @ [EvReadFile path]\<rparr>)"
proof (cases "length c \<le> unat off")
  case True
  with assms show ?thesis by (simp add: readWhole_def do_ReadFile_def read_reply_def)
next
  case False
  let ?stop = "min (unat (satAdd off (word_of_nat n))) (length c)"
  have u: "unat (word_of_nat n :: u64) = n" using assms(2) by (simp add: unsigned_of_nat take_bit_nat_eq_self)
  have "unat off \<le> ?stop" "take (?stop - unat off) (drop (unat off) c) = take n (drop (unat off) c)"
    using False unat_u64 [of off] assms(3) by (auto simp: unat_satAdd u min_def MaxInt64_def)
  with False assms(1) show ?thesis
    by (simp add: readWhole_def do_ReadFile_def read_reply_def slice_def Let_def)
qed

locale whole_file_driver =
  fixes srv :: "'w Server" and h :: openFile and contents :: "'w \<Rightarrow> bytes option"
  assumes no_file: "of_file h = None" "of_writable h = None"
    and size_ok: "contents w = Some c \<Longrightarrow> int (length c) \<le> MaxInt64"
    and ReadFile_ok: "contents w = Some c \<Longrightarrow> F_ReadFile (sv_fsys srv) (of_path h) w = (res, w') \<Longrightarrow>
      res = (c, None) \<and> contents w' = Some c"
    and WriteFile_ok: "contents w = Some c \<Longrightarrow> int (length d) \<le> MaxInt64 \<Longrightarrow>
      F_WriteFile (sv_fsys srv) (of_path h) d 0x1A4 w = (err, w') \<Longrightarrow> err = None \<and> contents w' = Some d"

lemma splice_bytes_size:
  "splice_room c off (length data) \<Longrightarrow> int (length c) \<le> MaxInt64 \<Longrightarrow> int (length (splice_bytes c off data)) \<le> MaxInt64"
  by (auto simp: splice_room_def maxFileSplice_def MaxInt64_def)

sublocale whole_file_driver \<subseteq> open_file srv h contents splice_room
proof
  fix s c n rid off slot r s'
  assume c: "contents (se_world s) = Some c" and n: "0 < n" "n < 2 ^ 64"
    and run: "run_state (job_read srv h rid off n slot) s = (r, s')"
  obtain w1 where rd: "F_ReadFile (sv_fsys srv) (of_path h) (se_world s) = ((c, None), w1)" "contents w1 = Some c"
    using ReadFile_ok [OF c] by (metis prod.exhaust)
  from readWhole_run [of srv "of_path h" "s\<lparr>se_trace := se_trace s @ [EvLockPath]\<rparr>" c w1 n, OF _ n(2) size_ok [OF c]] rd run
  show "r = Answer (read_reply rid c (unat off) n) \<and> contents (se_world s') = Some c \<and> se_handles s' = se_handles s"
    by (auto simp: job_read_def no_file with_rlock_def)
next
  fix s c off data rid r s'
  assume c: "contents (se_world s) = Some c" and room: "splice_room c (unat off) (length data)"
    and run: "run_state (job_write srv h rid off data) s = (r, s')"
  obtain w1 where rd: "F_ReadFile (sv_fsys srv) (of_path h) (se_world s) = ((c, None), w1)" "contents w1 = Some c"
    using ReadFile_ok [OF c] by (metis prod.exhaust)
  obtain w2 where wr: "F_WriteFile (sv_fsys srv) (of_path h) (splice_bytes c (unat off) data) 0x1A4 w1 = (None, w2)"
    "contents w2 = Some (splice_bytes c (unat off) data)"
    using WriteFile_ok [OF rd(2) splice_bytes_size [OF room size_ok [OF c]]] by (metis prod.exhaust)
  have "length data < 2 ^ 64" using room by (simp add: splice_room_def)
  from writeSplice_run [of srv "of_path h" "s\<lparr>se_trace := se_trace s @ [EvLock]\<rparr>" c w1 data rid off, OF _ this] rd(1) wr room run
  show "r = Answer (status_msg rid StatusOK '''') \<and> contents (se_world s') = Some (splice_bytes c (unat off) data)
      \<and> se_handles s' = se_handles s"
    by (auto simp: job_write_def no_file with_lock_def)
qed

context whole_file_driver
begin

lemma whole_open_file: "open_file srv h contents splice_room"
  by (rule open_file_axioms)

end

subsection \<open>Drivers with positioned access\<close>

locale positioned_driver =
  fixes srv :: "'w Server" and h :: openFile and f :: File and contents :: "'w \<Rightarrow> bytes option"
    and room :: "bytes \<Rightarrow> nat \<Rightarrow> nat \<Rightarrow> bool"
  assumes the_file: "of_file h = Some f" "of_writable h = Some f"
    and file_size_ok: "contents w = Some c \<Longrightarrow> int (length c) \<le> MaxInt64"
    and ReadAt_ok: "contents w = Some c \<Longrightarrow> 0 \<le> sint off \<Longrightarrow> F_ReadAt (sv_fsys srv) f n off w = ((got, b, err), w') \<Longrightarrow>
      b = take n (drop (nat (sint off)) c) \<and> got = int (length b) \<and> (b = [] \<and> err \<noteq> None \<longrightarrow> errors_Is (the err) io_EOF)
      \<and> contents w' = Some c"
    and WriteAt_ok: "contents w = Some c \<Longrightarrow> 0 \<le> sint off \<Longrightarrow> room c (nat (sint off)) (length d) \<Longrightarrow>
      F_WriteAt (sv_fsys srv) f d off w = ((put, err), w') \<Longrightarrow>
      err = None \<and> contents w' = Some (splice_bytes c (nat (sint off)) d)"

lemma sint_small:
  fixes off :: u64
  assumes "uint off \<le> MaxInt64"
  shows "sint off = uint off"
proof -
  have "- (2 ^ 63) \<le> uint off" by (rule order_trans [OF _ uint_ge_0]) simp
  moreover have "uint off < 2 ^ 63" using assms by (simp add: MaxInt64_def)
  ultimately show ?thesis by (simp add: sint_uint signed_take_bit_int_eq_self)
qed

sublocale positioned_driver \<subseteq> open_file srv h contents room
proof
  fix s c n rid off slot r s'
  assume c: "contents (se_world s) = Some c" and n: "0 < n" "n < 2 ^ 64"
    and run: "run_state (job_read srv h rid off n slot) s = (r, s')"
  show "r = Answer (read_reply rid c (unat off) n) \<and> contents (se_world s') = Some c \<and> se_handles s' = se_handles s"
  proof (cases "uint off \<le> MaxInt64")
    case True
    obtain got b err w1 where rd: "F_ReadAt (sv_fsys srv) f n off (se_world s) = ((got, b, err), w1)" by (metis prod.exhaust)
    have off: "sint off = uint off" "nat (uint off) = unat off" using True by (simp_all add: sint_small)
    have b: "b = take n (drop (unat off) c)" "got = int (length b)" "b = [] \<and> err \<noteq> None \<longrightarrow> errors_Is (the err) io_EOF"
      "contents w1 = Some c"
      using ReadAt_ok [OF c _ rd] off by auto
    have empty: "b = [] \<longleftrightarrow> length c \<le> unat off" using b(1) n(1) by simp
    have "slice 0 (length b) (overlay (take n b) (if length slot < n then replicate n 0 else slot)) = Some b"
    proof -
      have "length b \<le> n" using b(1) by simp
      then show ?thesis by (simp add: slice_def overlay_def)
    qed
    with True rd b(2-4) empty run show ?thesis
      by (auto simp: job_read_def the_file with_IO_def readAt_def do_ReadAt_def read_reply_def Let_def b(1) split: if_splits)
  next
    case False
    have "int (length c) < uint off" using False file_size_ok [OF c] by simp
    then have "length c \<le> unat off" by (metis nat_int nat_mono less_imp_le unat_eq_nat_uint)
    with False run c show ?thesis
      by (auto simp: job_read_def the_file with_IO_def readAt_def read_reply_def)
  qed
next
  fix s c off data rid r s'
  assume c: "contents (se_world s) = Some c" and off: "uint off \<le> MaxInt64" and room: "room c (unat off) (length data)"
    and run: "run_state (job_write srv h rid off data) s = (r, s')"
  obtain put err w1 where wr: "F_WriteAt (sv_fsys srv) f data off (se_world s) = ((put, err), w1)" by (metis prod.exhaust)
  have "err = None \<and> contents w1 = Some (splice_bytes c (unat off) data)"
    using WriteAt_ok [OF c _ _ wr] room off by (simp add: sint_small)
  with wr run show "r = Answer (status_msg rid StatusOK '''') \<and> contents (se_world s') = Some (splice_bytes c (unat off) data)
      \<and> se_handles s' = se_handles s"
    by (auto simp: job_write_def the_file with_IO_def do_WriteAt_def)
qed

context positioned_driver
begin

lemma positioned_open_file: "open_file srv h contents room"
  by (rule open_file_axioms)

end

subsection \<open>The test filesystem keeps both contracts\<close>

definition path_handle :: "string \<Rightarrow> File option \<Rightarrow> openFile" where
  "path_handle path f = \<lparr>of_path = path, of_dir = False, of_entries = [], of_pos = 0, of_file = f,
     of_writable = f, of_write = True\<rparr>"

definition node_contents :: "nat \<Rightarrow> memFS \<Rightarrow> bytes option" where
  "node_contents a m = (if a < length (m_heap m) \<and> int (length (mn_data (m_heap m ! a))) \<le> MaxInt64
     then Some (mn_data (m_heap m ! a)) else None)"

text \<open>The contents of a path, and of an open file, as long as no failure is injected for them.\<close>

definition mem_contents :: "string \<Rightarrow> memFS \<Rightarrow> bytes option" where
  "mem_contents path m =
     (if errFor ''ReadFile'' path m = None \<and> errFor ''WriteFile'' path m = None
      then Option.bind (map_of (m_nodes m) path) (\<lambda>a. node_contents a m) else None)"

definition mem_file_contents :: "File \<Rightarrow> memFS \<Rightarrow> bytes option" where
  "mem_file_contents f m =
     (let path = mf_path (file_of f m) in
      if errFor ''ReadAt'' path m = None \<and> errFor ''WriteAt'' path m = None \<and> map_of (m_fail m) (''ReadAtNil:'' @ path) = None
      then node_contents (mf_node (file_of f m)) m else None)"

lemma errFor_upd [simp]: "errFor meth path (upd_node a g m) = errFor meth path m"
  by (simp add: errFor_def upd_node_def split: option.split)

lemma nodes_upd [simp]: "m_nodes (upd_node a g m) = m_nodes m" "m_fail (upd_node a g m) = m_fail m"
  by (simp_all add: upd_node_def)

lemma file_of_upd [simp]: "file_of f (upd_node a g m) = file_of f m"
  by (simp add: file_of_def upd_node_def)

lemma node_contents_upd:
  "node_contents a m = Some c \<Longrightarrow> int (length (mn_data (g (m_heap m ! a)))) \<le> MaxInt64 \<Longrightarrow>
     node_contents a (upd_node a g m) = Some (mn_data (g (m_heap m ! a)))"
  by (auto simp: node_contents_def upd_node_def split: if_splits)

lemma node_contents_data: "node_contents a m = Some c \<Longrightarrow> mn_data (m_heap m ! a) = c \<and> int (length c) \<le> MaxInt64"
  by (auto simp: node_contents_def split: if_splits)

interpretation mem_whole: whole_file_driver "srv\<lparr>sv_fsys := bareFS\<rparr>" "path_handle path None" "mem_contents path"
  for srv path
proof
  fix w c assume "mem_contents path w = Some c"
  then show "int (length c) \<le> MaxInt64"
    by (auto simp: mem_contents_def bind_eq_Some_conv dest: node_contents_data split: if_splits)
next
  fix w c res w'
  assume "mem_contents path w = Some c"
    and "F_ReadFile (sv_fsys (srv\<lparr>sv_fsys := bareFS\<rparr>)) (of_path (path_handle path None)) w = (res, w')"
  then show "res = (c, None) \<and> mem_contents path w' = Some c"
    by (auto simp: mem_contents_def bind_eq_Some_conv bareFS_def mem_ReadFile_def path_handle_def
        dest: node_contents_data split: if_splits)
next
  fix w c and d :: bytes and err w'
  assume "mem_contents path w = Some c" "int (length d) \<le> MaxInt64"
    and "F_WriteFile (sv_fsys (srv\<lparr>sv_fsys := bareFS\<rparr>)) (of_path (path_handle path None)) d 0x1A4 w = (err, w')"
  then show "err = None \<and> mem_contents path w' = Some d"
    by (auto simp: mem_contents_def bind_eq_Some_conv bareFS_def mem_WriteFile_def path_handle_def
        node_contents_upd dest: node_contents_data split: if_splits)
qed (simp_all add: path_handle_def)

lemma resize_splice:
  assumes "data' = (if off + length p > length data then resize (off + length p) data else data)"
  shows "take off data' @ overlay p (drop off data') = splice_bytes data off p"
proof (rule splice_overlay)
  show "data' = (if off + length p > length data then overlay data (replicate (off + length p) 0) else data)"
    using assms by (auto simp: resize_def overlay_def)
qed

lemma sint_add_of_nat:
  fixes off :: i64
  assumes "0 \<le> sint off" "sint off + int k \<le> MaxInt64"
  shows "sint (off + word_of_nat k) = sint off + int k"
proof -
  define j where "j = sint off + int k"
  have "off + word_of_nat k = word_of_int j" by (simp add: j_def)
  moreover have "0 \<le> j" "j < 2 ^ 64" using assms by (simp_all add: j_def MaxInt64_def)
  then have "uint (word_of_int j :: i64) = j" by (simp add: unsigned_of_int take_bit_int_eq_self)
  moreover note j_def
  ultimately show ?thesis using assms(2) sint_small [of "off + word_of_nat k"] by simp
qed

definition mem_room :: "bytes \<Rightarrow> nat \<Rightarrow> nat \<Rightarrow> bool" where
  "mem_room c off len \<longleftrightarrow> off + len \<le> 2 ^ 26"

interpretation mem_positioned: positioned_driver "srv\<lparr>sv_fsys := writableFS\<rparr>" "path_handle path (Some f)" f
    "mem_file_contents f" mem_room for srv path f
proof
  fix w c assume "mem_file_contents f w = Some c"
  then show "int (length c) \<le> MaxInt64"
    by (auto simp: mem_file_contents_def Let_def dest: node_contents_data split: if_splits)
next
  fix w c and off :: i64 and n got b err w'
  assume c: "mem_file_contents f w = Some c" "0 \<le> sint off"
    and "F_ReadAt (sv_fsys (srv\<lparr>sv_fsys := writableFS\<rparr>)) f n off w = ((got, b, err), w')"
  then have rd: "mem_ReadAt f n off w = ((got, b, err), w')" by (simp add: writableFS_def memFS_fs_def bareFS_def)
  have "mn_data (m_heap w ! mf_node (file_of f w)) = c" "errFor ''ReadAt'' (mf_path (file_of f w)) w = None"
    "map_of (m_fail w) (''ReadAtNil:'' @ mf_path (file_of f w)) = None"
    using c(1) by (auto simp: mem_file_contents_def Let_def dest: node_contents_data split: if_splits)
  with rd c show "b = take n (drop (nat (sint off)) c) \<and> got = int (length b)
      \<and> (b = [] \<and> err \<noteq> None \<longrightarrow> errors_Is (the err) io_EOF) \<and> mem_file_contents f w' = Some c"
    by (auto simp: mem_ReadAt_def Let_def ErrEOF_def errors_Is_def split: if_splits)
next
  fix w c and off :: i64 and d :: bytes and put err w'
  assume c: "mem_file_contents f w = Some c" "0 \<le> sint off" "mem_room c (nat (sint off)) (length d)"
    and "F_WriteAt (sv_fsys (srv\<lparr>sv_fsys := writableFS\<rparr>)) f d off w = ((put, err), w')"
  then have wr: "mem_WriteAt f d off w = ((put, err), w')" by (simp add: writableFS_def memFS_fs_def bareFS_def)
  define o' where "o' = nat (sint off)"
  have room: "o' + length d \<le> 2 ^ 26" using c(3) by (simp add: o'_def mem_room_def)
  have sum: "sint (off + word_of_nat (length d)) = int (o' + length d)" "sint off = int o'"
  proof -
    show off: "sint off = int o'" using c(2) by (simp add: o'_def)
    then show "sint (off + word_of_nat (length d)) = int (o' + length d)"
      using sint_add_of_nat [OF c(2), of "length d"] room by (simp add: MaxInt64_def)
  qed
  have old: "mn_data (m_heap w ! mf_node (file_of f w)) = c" "errFor ''ReadAt'' (mf_path (file_of f w)) w = None"
    "errFor ''WriteAt'' (mf_path (file_of f w)) w = None" "map_of (m_fail w) (''ReadAtNil:'' @ mf_path (file_of f w)) = None"
    "node_contents (mf_node (file_of f w)) w = Some c" "int (length c) \<le> MaxInt64"
    using c(1) by (auto simp: mem_file_contents_def Let_def dest: node_contents_data split: if_splits)
  let ?g = "\<lambda>n. n\<lparr>mn_data := splice_bytes (mn_data n) o' d\<rparr>"
  have "err = None \<and> w' = upd_node (mf_node (file_of f w)) ?g w"
    using wr old(3) room unfolding mem_WriteAt_def Let_def sum nat_int resize_splice [OF refl] by auto
  then show "err = None \<and> mem_file_contents f w' = Some (splice_bytes c (nat (sint off)) d)"
    using old node_contents_upd [OF old(5), of ?g] room
    by (auto simp: mem_file_contents_def Let_def o'_def MaxInt64_def)
qed (simp_all add: path_handle_def)

subsection \<open>Files to evaluate\<close>

definition file_world :: memFS where
  "file_world = addFile ''/f'' [1, 2, 3] 0x81A4 newMemFS\<lparr>m_files := [\<lparr>mf_path = ''/f'', mf_node = 1, mf_closed = False\<rparr>]\<rparr>"

abbreviation the_file :: File where
  "the_file \<equiv> \<lparr>fl_Ref = 0, fl_Writable = True\<rparr>"

definition file_session :: "File option \<Rightarrow> memFS sess" where
  "file_session f = \<lparr>se_world = file_world, se_handles = [(''h'', path_handle ''/f'' f)], se_trace = []\<rparr>"

definition file_requests :: "message list" where
  "file_requests =
    [WriteMsg \<lparr>wr_ID = 1, wr_Handle = ''h'', wr_Offset = 5, wr_Data = [9]\<rparr>,
     ReadMsg \<lparr>rr_ID = 2, rr_Handle = ''h'', rr_Offset = 2, rr_Length = 100\<rparr>,
     ReadMsg \<lparr>rr_ID = 3, rr_Handle = ''h'', rr_Offset = 6, rr_Length = 1\<rparr>]"

lemma file_requests_ok:
  "list_all (file_request ''h'') file_requests"
  "roomy splice_room file_requests [1, 2, 3]" "roomy mem_room file_requests [1, 2, 3]"
  by (simp_all add: file_requests_def blob_ok_def splice_room_def mem_room_def MaxInt64_def maxSpliceGrowth_def
      maxFileSplice_def)

lemma file_world_contents: "mem_contents ''/f'' file_world = Some [1, 2, 3]" "mem_file_contents the_file file_world = Some [1, 2, 3]"
  by code_simp+

lemma file_answers: "map Answer (fst (file_run (readLength (example_server False)) file_requests [1, 2, 3])) =
    [Answer (status_msg 1 StatusOK ''''), Answer (DataMsg \<lparr>dr_ID = 2, dr_Data = [3, 0, 0, 9]\<rparr>),
     Answer (status_msg 3 StatusEOF '''')]"
  by code_simp

lemma file_session_handle:
  "handles_get (se_handles (file_session f)) ''h'' = Some (path_handle ''/f'' f)"
  "\<not> of_dir (path_handle ''/f'' f)" "of_write (path_handle ''/f'' f)" "se_world (file_session f) = file_world"
  by (simp_all add: file_session_def path_handle_def handles_get_def)

lemma example_server_set: "readLength (example_server False\<lparr>sv_fsys := fs\<rparr>) = readLength (example_server False)"
  "\<not> sv_ro (example_server False\<lparr>sv_fsys := fs\<rparr>)"
  by (simp_all add: readLength_def packetLimit_def example_server_def)

subsection \<open>Properties\<close>

text \<open>C9: Without positioned access, a file still behaves like a file. Over a driver that reads and replaces
  whole files, any sequence of \<^verbatim>\<open>READ\<close> and \<^verbatim>\<open>WRITE\<close> packets on a handle open for writing gets the replies of
  the abstract file: each read returns the bytes at its offset, up to the read limit, as left by all writes before
  it, with holes read as zeros and end of file reported exactly at the end, and the driver ends up with the
  abstract contents. The writes have to stay within the growth the rewriting allows.\<close>

theorem whole_file_io_refines:
  assumes "whole_file_driver srv h contents" "contents (se_world s) = Some c"
    and "handles_get (se_handles s) tok = Some h" "\<not> of_dir h" "of_write h" "\<not> sv_ro srv"
    and "list_all (file_request tok) ms" "roomy splice_room ms c"
    and "run_state (exchange E srv slot ms) s = (rs, s')"
  shows "rs = map Answer (fst (file_run (readLength srv) ms c))
    \<and> contents (se_world s') = Some (snd (file_run (readLength srv) ms c))"
  using open_file.exchange_refines [OF whole_file_driver.whole_open_file [OF assms(1)] assms(2-9)] .

theorem whole_file_io_refines_witness:
  "fst (run_state (exchange memEnv (example_server False\<lparr>sv_fsys := bareFS\<rparr>) [] file_requests) (file_session None)) =
    [Answer (status_msg 1 StatusOK ''''), Answer (DataMsg \<lparr>dr_ID = 2, dr_Data = [3, 0, 0, 9]\<rparr>),
     Answer (status_msg 3 StatusEOF '''')]"
proof -
  obtain rs s' where run: "run_state (exchange memEnv (example_server False\<lparr>sv_fsys := bareFS\<rparr>) [] file_requests)
    (file_session None) = (rs, s')" by fastforce
  from whole_file_io_refines [OF mem_whole.whole_file_driver_axioms _ file_session_handle(1-3) example_server_set(2)
      file_requests_ok(1,2) run] file_world_contents(1) run
  show ?thesis by (simp add: file_session_handle(4) example_server_set(1) file_answers del: map_eq_conv)
qed

text \<open>C10: With positioned access, the same. Over a driver whose open files read and write at an offset, any
  sequence of \<^verbatim>\<open>READ\<close> and \<^verbatim>\<open>WRITE\<close> packets on a handle gets the replies of the abstract file and leaves its
  contents, whatever an earlier request left in the read buffer of the slot.\<close>

theorem positioned_file_io_refines:
  assumes "positioned_driver srv h f contents room" "contents (se_world s) = Some c"
    and "handles_get (se_handles s) tok = Some h" "\<not> of_dir h" "of_write h" "\<not> sv_ro srv"
    and "list_all (file_request tok) ms" "roomy room ms c"
    and "run_state (exchange E srv slot ms) s = (rs, s')"
  shows "rs = map Answer (fst (file_run (readLength srv) ms c))
    \<and> contents (se_world s') = Some (snd (file_run (readLength srv) ms c))"
  using open_file.exchange_refines [OF positioned_driver.positioned_open_file [OF assms(1)] assms(2-9)] .

theorem positioned_file_io_refines_witness:
  "fst (run_state (exchange memEnv (example_server False\<lparr>sv_fsys := writableFS\<rparr>) [7, 7, 7] file_requests)
      (file_session (Some the_file))) =
    [Answer (status_msg 1 StatusOK ''''), Answer (DataMsg \<lparr>dr_ID = 2, dr_Data = [3, 0, 0, 9]\<rparr>),
     Answer (status_msg 3 StatusEOF '''')]"
proof -
  obtain rs s' where run: "run_state (exchange memEnv (example_server False\<lparr>sv_fsys := writableFS\<rparr>) [7, 7, 7] file_requests)
    (file_session (Some the_file)) = (rs, s')" by fastforce
  from positioned_file_io_refines [OF mem_positioned.positioned_driver_axioms _ file_session_handle(1-3)
      example_server_set(2) file_requests_ok(1,3) run] file_world_contents(2) run
  show ?thesis by (simp add: file_session_handle(4) example_server_set(1) file_answers del: map_eq_conv)
qed



text \<open>C25: The rewriting of whole files, exactly. A \<^verbatim>\<open>WRITE\<close> on such a driver reads the file once and writes it
  back once with the bytes spliced in at the offset and a hole filled with zeros, or, when the new end wraps
  around, grows the file by more than 8 MiB, or grows it past 1 GiB, refuses without writing anything; so one
  request never makes the server build more than the larger of the file itself and 1 GiB.\<close>

theorem write_splice_exact:
  assumes "F_ReadFile (sv_fsys srv) path (se_world s) = ((c, None), w1)" "length data < 2 ^ 64"
  shows "run_state (writeSplice srv rid path off data) s =
    (if splice_room c (unat off) (length data) then
       (let new = splice_bytes c (unat off) data; (err, w2) = F_WriteFile (sv_fsys srv) path new 0x1A4 w1 in
        (Answer (if err = None then status_msg rid StatusOK '''' else status_msg rid (statusFor err StatusFailure) (errText err)),
         s\<lparr>se_world := w2, se_trace := se_trace s @ [EvReadFile path, EvWriteFile path new 0x1A4]\<rparr>))
     else (Answer (status_msg rid StatusFailure ''write beyond what rewriting the whole file can hold''),
           s\<lparr>se_world := w1, se_trace := se_trace s @ [EvReadFile path]\<rparr>))
    \<and> (splice_room c (unat off) (length data) \<longrightarrow>
         int (length (splice_bytes c (unat off) data)) \<le> max (int (length c)) (2 ^ 30))"
proof -
  have "int (length (splice_bytes c (unat off) data)) \<le> max (int (length c)) (2 ^ 30)"
    if "splice_room c (unat off) (length data)"
    using that unfolding splice_room_def maxFileSplice_def length_splice by linarith
  with writeSplice_run [OF assms] show ?thesis by blast
qed

theorem write_splice_exact_witness:
  "fst (run_state (writeSplice (example_server False\<lparr>sv_fsys := bareFS\<rparr>) 4 ''/f'' 0x8000000000 [1]) (file_session None))
     = Answer (status_msg 4 StatusFailure ''write beyond what rewriting the whole file can hold'')"
proof -
  have "F_ReadFile (sv_fsys (example_server False\<lparr>sv_fsys := bareFS\<rparr>)) ''/f'' (se_world (file_session None))
      = (([1, 2, 3], None), file_world)"
    by code_simp
  moreover have "\<not> splice_room [1, 2, 3] (unat (0x8000000000 :: u64)) (length [1 :: byte])"
    by (simp add: splice_room_def maxSpliceGrowth_def)
  ultimately show ?thesis
    using write_splice_exact [of "example_server False\<lparr>sv_fsys := bareFS\<rparr>" "''/f''" "file_session None" "[1, 2, 3]"
        file_world "[1]" 4 "0x8000000000"] by simp
qed

end
