(* ===== verification/Schedules.thy ===== *)
theory Schedules
  imports File_Contents "HOL-Library.Multiset"
begin

text \<open>
  Requests in flight, \<^verbatim>\<open>session.go\<close> and \<^verbatim>\<open>concurrent.go\<close>: which requests of a session may run beside others,
  and in which orders. The \<^verbatim>\<open>inflight\<close> module starts a job as soon as no earlier one still pending
  conflicts with it, runs a barrier alone, and sends the replies in the order the requests arrived; \<^verbatim>\<open>concurrent.go\<close>
  documents which ranges conflict. A job makes one call of the driver, which is taken to be atomic. The last
  section is the timer that bounds how long a slow packet holds its place.
\<close>

subsection \<open>Framing a reply\<close>

text \<open>
  A request leaves its reply framed in its slot, and the module writes it when its turn comes. The loop of \<open>Session\<close>
  sends it in one go, which comes to the same.
\<close>

definition frame :: "message \<Rightarrow> perr + bytes" where
  "frame m =
     (case Send \<lparr>w_calls = [], w_err = None\<rparr> m 0 of
        ((_, Some err), w) \<Rightarrow> Inl err
      | ((_, None), w) \<Rightarrow> Inr (concat (w_calls w)))"

lemma Send_frame:
  "(case frame m of
      Inl err \<Rightarrow> snd (fst (Send w m cap)) = Some err \<and> snd (Send w m cap) = w
    | Inr reply \<Rightarrow> snd (fst (Send w m cap)) = map_option ErrIO (w_err w) \<and> snd (Send w m cap) = w\<lparr>w_calls := w_calls w @ [reply]\<rparr>)"
  by (auto simp: frame_def Send_def WritePacket_def Let_def)

subsection \<open>Conflicts\<close>

fun span_path :: "span \<Rightarrow> string" where
  "span_path (ReadRange p off n) = p"
| "span_path (WriteRange p off n) = p"
| "span_path (WriteAll p) = p"

fun span_start :: "span \<Rightarrow> nat" where
  "span_start (ReadRange p off n) = unat off"
| "span_start (WriteRange p off n) = unat off"
| "span_start (WriteAll p) = 0"

text \<open>The range ends at the largest offset if its sum wraps; that of a rewrite of the whole file has no end.\<close>

fun span_before :: "span \<Rightarrow> nat \<Rightarrow> bool" where
  "span_before (ReadRange p off n) i \<longleftrightarrow> unat (satAdd off n) \<le> i"
| "span_before (WriteRange p off n) i \<longleftrightarrow> unat (satAdd off n) \<le> i"
| "span_before (WriteAll p) i \<longleftrightarrow> False"

fun span_writes :: "span \<Rightarrow> bool" where
  "span_writes (ReadRange p off n) \<longleftrightarrow> False"
| "span_writes _ \<longleftrightarrow> True"

definition conflict :: "span \<Rightarrow> span \<Rightarrow> bool" where
  "conflict a b \<longleftrightarrow> span_path a = span_path b \<and> (span_writes a \<or> span_writes b)
     \<and> \<not> span_before a (span_start b) \<and> \<not> span_before b (span_start a)"

text \<open>
  The three cases of the loop: a job is started with its span, a reply known at once and a request that is neither
  \<^verbatim>\<open>READ\<close> nor \<^verbatim>\<open>WRITE\<close> are barriers.
\<close>

definition packet_span :: "'w Server \<Rightarrow> handle_table \<Rightarrow> byte \<Rightarrow> bytes \<Rightarrow> span option" where
  "packet_span srv tbl t payload =
     (case prepare srv t payload tbl of Job j \<Rightarrow> Some (j_span j) | Early early \<Rightarrow> None | Barrier \<Rightarrow> None)"

definition ordered :: "'w Server \<Rightarrow> handle_table \<Rightarrow> message \<Rightarrow> message \<Rightarrow> bool" where
  "ordered srv tbl m m' \<longleftrightarrow>
     (case (packet_span srv tbl (Message_Type m) (payload_of m), packet_span srv tbl (Message_Type m') (payload_of m')) of
        (Some a, Some b) \<Rightarrow> conflict a b
      | _ \<Rightarrow> True)"

subsection \<open>Schedules\<close>

text \<open>
  The orders in which requests may take effect: any request whose earlier ones are all done or not ordered before it
  may be next.
\<close>

inductive schedule :: "('m \<Rightarrow> 'm \<Rightarrow> bool) \<Rightarrow> (nat \<times> 'm) list \<Rightarrow> (nat \<times> 'm) list \<Rightarrow> bool" for ord where
  finished: "schedule ord [] []"
| pick: "list_all (\<lambda>x. \<not> ord (snd x) (snd y)) xs \<Longrightarrow> schedule ord (xs @ ys) zs \<Longrightarrow> schedule ord (xs @ y # ys) (y # zs)"

fun steps :: "('m \<Rightarrow> 'c \<Rightarrow> 'r \<times> 'c) \<Rightarrow> (nat \<times> 'm) list \<Rightarrow> 'c \<Rightarrow> (nat \<times> 'r) list \<times> 'c" where
  "steps f [] c = ([], c)"
| "steps f ((i, m) # xs) c = (case f m c of (r, c) \<Rightarrow> (case steps f xs c of (rs, c) \<Rightarrow> ((i, r) # rs, c)))"

text \<open>Replies go out in the order of the requests, \<^verbatim>\<open>inflight.InOrder\<close>.\<close>

definition in_order :: "(nat \<times> 'r) list \<Rightarrow> 'r list" where
  "in_order rs = map snd (sort_key fst rs)"

text \<open>The requests one after the other, without their numbers.\<close>

fun run_all :: "('m \<Rightarrow> 'c \<Rightarrow> 'r \<times> 'c) \<Rightarrow> 'm list \<Rightarrow> 'c \<Rightarrow> 'r list \<times> 'c" where
  "run_all f [] c = ([], c)"
| "run_all f (m # ms) c = (case f m c of (r, c) \<Rightarrow> (case run_all f ms c of (rs, c) \<Rightarrow> (r # rs, c)))"

lemma steps_run_all:
  "steps f xs c = (zip (map fst xs) (fst (run_all f (map snd xs) c)), snd (run_all f (map snd xs) c))"
  by (induction xs arbitrary: c) (auto split: prod.split)

lemma length_run_all: "length (fst (run_all f ms c)) = length ms"
  by (induction ms arbitrary: c) (auto simp: split_beta)

lemma file_run_all: "file_run len = run_all (file_step len)"
proof (intro ext)
  fix ms c show "file_run len ms c = run_all (file_step len) ms c"
    by (induction ms arbitrary: c) (auto split: prod.split)
qed

lemma schedule_mono:
  assumes "schedule ord xs zs" "\<And>x y. x \<in> set xs \<Longrightarrow> y \<in> set xs \<Longrightarrow> \<not> ord (snd x) (snd y) \<Longrightarrow> \<not> ord' (snd x) (snd y)"
  shows "schedule ord' xs zs"
  using assms
proof (induction rule: schedule.induct)
  case (pick y xs ys zs)
  show ?case
  proof (rule schedule.pick)
    show "list_all (\<lambda>x. \<not> ord' (snd x) (snd y)) xs" using pick.hyps(1) pick.prems by (auto simp: list_all_iff)
    show "schedule ord' (xs @ ys) zs" using pick.IH pick.prems by simp
  qed
qed (rule schedule.finished)

lemma schedule_mset: "schedule ord xs zs \<Longrightarrow> mset zs = mset xs"
  by (induction rule: schedule.induct) auto

lemma sort_key_unique:
  assumes "mset xs = mset ys" "sorted (map fst ys)" "distinct (map fst ys)"
  shows "sort_key fst xs = ys"
proof (rule properties_for_sort_key)
  show "mset ys = mset xs" using assms(1) by simp
  show "sorted (map fst ys)" by fact
  fix k assume k: "k \<in> set ys"
  have ys: "filter (\<lambda>x. fst k = fst x) ys = [k]"
    using k assms(3) by (induction ys) (auto simp: filter_empty_conv image_iff split: if_splits)
  have "mset (filter (\<lambda>x. fst k = fst x) xs) = mset (filter (\<lambda>x. fst k = fst x) ys)" using assms(1) by (simp add: mset_filter)
  with ys have "filter (\<lambda>x. fst k = fst x) xs = [k]" by (simp only: mset.simps mset_single_iff)
  with ys show "filter (\<lambda>x. fst k = fst x) ys = filter (\<lambda>x. fst k = fst x) xs" by simp
qed

text \<open>
  Steps that may be reordered: what lies between two states must not depend on which of two unordered requests came
  first, and neither must their replies.
\<close>

locale commuting =
  fixes f :: "'m \<Rightarrow> 'c \<Rightarrow> 'r \<times> 'c" and ord :: "'m \<Rightarrow> 'm \<Rightarrow> bool" and fit :: "'m \<Rightarrow> 'c \<Rightarrow> bool"
  assumes fit_step: "fit m c \<Longrightarrow> fit m' c \<Longrightarrow> fit m (snd (f m' c))"
    and commute: "\<not> ord m m' \<Longrightarrow> fit m c \<Longrightarrow> fit m' c \<Longrightarrow> snd (f m' (snd (f m c))) = snd (f m (snd (f m' c)))"
    and unaffected: "\<not> ord m m' \<Longrightarrow> fit m c \<Longrightarrow> fit m' c \<Longrightarrow>
      fst (f m' (snd (f m c))) = fst (f m' c) \<and> fst (f m (snd (f m' c))) = fst (f m c)"
begin

lemma steps_front:
  assumes "list_all (\<lambda>x. \<not> ord (snd x) (snd y)) xs" "list_all (\<lambda>x. fit (snd x) c) (xs @ y # ys)"
  shows "mset (fst (steps f (xs @ y # ys) c)) = mset (fst (steps f (y # xs @ ys) c))
    \<and> snd (steps f (xs @ y # ys) c) = snd (steps f (y # xs @ ys) c)"
  using assms
proof (induction xs arbitrary: c)
  case (Cons x xs)
  obtain i m j m' where xy: "x = (i, m)" "y = (j, m')" by fastforce
  have free: "\<not> ord m m'" "fit m c" "fit m' c" using Cons.prems xy by auto
  have later: "list_all (\<lambda>x. fit (snd x) (snd (f m c))) (xs @ y # ys)"
    using Cons.prems(2) xy free(2) fit_step by (auto simp: list_all_iff)
  from Cons.IH [OF _ later] Cons.prems(1) have "mset (fst (steps f (xs @ y # ys) (snd (f m c)))) = mset (fst (steps f (y # xs @ ys) (snd (f m c))))"
    "snd (steps f (xs @ y # ys) (snd (f m c))) = snd (steps f (y # xs @ ys) (snd (f m c)))" by auto
  then show ?case
    using commute [OF free] unaffected [OF free] by (simp add: xy split_beta)
qed simp

lemma schedule_steps:
  assumes "schedule ord xs zs" "list_all (\<lambda>x. fit (snd x) c) xs"
  shows "mset (fst (steps f zs c)) = mset (fst (steps f xs c)) \<and> snd (steps f zs c) = snd (steps f xs c)"
  using assms
proof (induction arbitrary: c rule: schedule.induct)
  case (pick y xs ys zs)
  obtain j m where y: "y = (j, m)" by fastforce
  have "list_all (\<lambda>x. fit (snd x) (snd (f m c))) (xs @ ys)"
    using pick.prems y fit_step by (auto simp: list_all_iff)
  from pick.IH [OF this] steps_front [OF pick.hyps(1) pick.prems] show ?case
    by (simp add: y split_beta)
qed simp

end

subsection \<open>Reads and writes of one file\<close>

text \<open>
  The bytes a request touches on the abstract file, and when two requests are apart. \<open>steady\<close> is what the byte
  ranges do not express: where the file ends. Either no write of the batch makes the file longer than \<open>sz\<close>, or no
  read reaches past it.
\<close>

fun reach :: "int \<Rightarrow> message \<Rightarrow> nat \<times> nat" where
  "reach len (ReadMsg m) = (unat (rr_Offset m), unat (rr_Offset m) + nat (min (uint (rr_Length m)) len))"
| "reach len (WriteMsg m) = (unat (wr_Offset m), unat (wr_Offset m) + length (wr_Data m))"
| "reach len m = (0, 0)"

fun is_read :: "message \<Rightarrow> bool" where
  "is_read (ReadMsg m) \<longleftrightarrow> True"
| "is_read m \<longleftrightarrow> False"

definition apart :: "int \<Rightarrow> message \<Rightarrow> message \<Rightarrow> bool" where
  "apart len m m' \<longleftrightarrow> is_read m \<and> is_read m' \<or> snd (reach len m) \<le> fst (reach len m') \<or> snd (reach len m') \<le> fst (reach len m)"

fun steady :: "bool \<Rightarrow> nat \<Rightarrow> int \<Rightarrow> message \<Rightarrow> bool" where
  "steady growing sz len (ReadMsg m) \<longleftrightarrow> (growing \<longrightarrow> snd (reach len (ReadMsg m)) \<le> sz)"
| "steady growing sz len (WriteMsg m) \<longleftrightarrow>
     uint (wr_Offset m) \<le> MaxInt64 \<and> (\<not> growing \<longrightarrow> snd (reach len (WriteMsg m)) \<le> sz)"
| "steady growing sz len m \<longleftrightarrow> False"

lemma splice_commute:
  assumes "off + length d \<le> off' \<or> off' + length d' \<le> off"
  shows "splice_bytes (splice_bytes c off d) off' d' = splice_bytes (splice_bytes c off' d') off d"
  using assms by (intro nth_equalityI) (auto simp: nth_splice)

lemma take_drop_eqI:
  assumes "\<And>i. off \<le> i \<Longrightarrow> i < off + n \<Longrightarrow> i < length c \<Longrightarrow> c ! i = d ! i" "min (off + n) (length c) = min (off + n) (length d)"
  shows "take n (drop off c) = take n (drop off d)"
  using assms by (intro nth_equalityI) (auto simp: min_def split: if_splits)

lemma read_reply_splice:
  assumes "off + n \<le> off' \<or> off' + length d \<le> off" "off + n \<le> length c \<or> off' + length d \<le> length c" "0 < n"
  shows "read_reply rid (splice_bytes c off' d) off n = read_reply rid c off n"
proof -
  have "take n (drop off (splice_bytes c off' d)) = take n (drop off c)"
    using assms(1,2) by (intro take_drop_eqI) (auto simp: nth_splice min_def)
  moreover have "length (splice_bytes c off' d) \<le> off \<longleftrightarrow> length c \<le> off" using assms by auto
  ultimately show ?thesis by (simp add: read_reply_def)
qed

interpretation file_batch: commuting "file_step len" "\<lambda>m m'. \<not> apart len m m'"
    "\<lambda>m c. 0 < len \<and> sz \<le> length c \<and> steady growing sz len m" for len sz growing
proof
  fix m m' and c :: bytes
  assume "0 < len \<and> sz \<le> length c \<and> steady growing sz len m" "0 < len \<and> sz \<le> length c \<and> steady growing sz len m'"
  then show "0 < len \<and> sz \<le> length (snd (file_step len m' c)) \<and> steady growing sz len m"
    by (cases m') (auto simp: split_beta)
next
  fix m m' and c :: bytes
  assume "\<not> \<not> apart len m m'" "0 < len \<and> sz \<le> length c \<and> steady growing sz len m"
    "0 < len \<and> sz \<le> length c \<and> steady growing sz len m'"
  then show "snd (file_step len m' (snd (file_step len m c))) = snd (file_step len m (snd (file_step len m' c)))"
    by (cases m; cases m') (auto simp: apart_def splice_commute)
next
  fix m m' and c :: bytes
  assume a: "\<not> \<not> apart len m m'" "0 < len \<and> sz \<le> length c \<and> steady growing sz len m"
    "0 < len \<and> sz \<le> length c \<and> steady growing sz len m'"
  have pos: "0 < nat (min (uint (rr_Length r)) len)" if "rr_Length r \<noteq> 0" for r
    using that a(2) by (simp add: word_neq_0_conv word_less_def)
  from a pos show "fst (file_step len m' (snd (file_step len m c))) = fst (file_step len m' c)
      \<and> fst (file_step len m (snd (file_step len m' c))) = fst (file_step len m c)"
    by (cases m; cases m') (auto simp: apart_def intro!: read_reply_splice)
qed

subsection \<open>The spans keep apart what must be kept apart\<close>

lemma read_span:
  assumes "message_ok 262144 (ReadMsg m)" "handles_get tbl (rr_Handle m) = Some h" "\<not> of_dir h"
  shows "packet_span srv tbl (Message_Type (ReadMsg m)) (payload_of (ReadMsg m)) =
    (if rr_Length m = 0 then None
     else Some (ReadRange (of_path h) (rr_Offset m) (word_of_nat (nat (min (uint (rr_Length m)) (readLength srv))))))"
  using decoded_read [OF assms(1)] assms(2,3)
  by (simp add: packet_span_def prepare_def prepare_as_def readJob_def Let_def del: EncodePayload.simps)

lemma write_span:
  assumes "message_ok 262144 (WriteMsg m)" "handles_get tbl (wr_Handle m) = Some h" "\<not> of_dir h"
    and "\<not> sv_ro srv" "of_write h" "uint (wr_Offset m) \<le> MaxInt64"
  shows "packet_span srv tbl (Message_Type (WriteMsg m)) (payload_of (WriteMsg m)) =
    Some (if of_writable h = None then WriteAll (of_path h)
          else WriteRange (of_path h) (wr_Offset m) (word_of_nat (length (wr_Data m))))"
  using decoded_write [OF assms(1)] assms(2-6)
  by (auto simp: packet_span_def prepare_def prepare_as_def writeJob_def FxpWrite_def FxpRead_def
      simp del: EncodePayload.simps split: option.split)

lemma satAdd_small:
  fixes off :: u64
  assumes "n < 2 ^ 63" "unat (satAdd off (word_of_nat n)) \<le> k" "k < 2 ^ 64 - 1 \<or> unat off < 2 ^ 63"
  shows "unat off + n \<le> k"
proof -
  have "unat (word_of_nat n :: u64) = n" using assms(1) by (simp add: unsigned_of_nat take_bit_nat_eq_self)
  with assms show ?thesis by (auto simp: unat_satAdd split: if_splits)
qed

text \<open>Spans that do not conflict are spans of requests that are apart, whichever kind of driver is below.\<close>

lemma small_offset:
  fixes off :: u64
  assumes "uint off \<le> MaxInt64"
  shows "unat off < 2 ^ 63"
proof -
  have "uint off < int (2 ^ 63)" using assms by (simp add: MaxInt64_def)
  then show ?thesis unfolding uint_nat of_nat_less_iff .
qed

lemma ordered_sym: "ordered srv tbl m m' \<longleftrightarrow> ordered srv tbl m' m"
  by (auto simp: ordered_def conflict_def split: option.split)

lemma apart_sym: "apart len m m' \<longleftrightarrow> apart len m' m"
  by (auto simp: apart_def)

lemma read_length:
  "nat (min (uint (rr_Length r)) (readLength srv)) < 2 ^ 63"
  "rr_Length r \<noteq> 0 \<Longrightarrow> 0 < nat (min (uint (rr_Length r)) (readLength srv))"
proof -
  have "min (uint (rr_Length r)) (readLength srv) \<le> 261120"
    using readLength_bounds(2) [of srv] by (simp add: maxReadLength_def min_le_iff_disj)
  from nat_mono [OF this] show "nat (min (uint (rr_Length r)) (readLength srv)) < 2 ^ 63" by simp
  show "rr_Length r \<noteq> 0 \<Longrightarrow> 0 < nat (min (uint (rr_Length r)) (readLength srv))"
    using readLength_bounds(1) [of srv] by (simp add: word_neq_0_conv word_less_def)
qed

text \<open>Requests on files, each through a handle, which a write needs to be open for writing.\<close>

fun handle_of :: "message \<Rightarrow> string" where
  "handle_of (ReadMsg m) = rr_Handle m"
| "handle_of (WriteMsg m) = wr_Handle m"
| "handle_of m = []"

definition path_at :: "handle_table \<Rightarrow> message \<Rightarrow> string" where
  "path_at tbl m = (case handles_get tbl (handle_of m) of Some h \<Rightarrow> of_path h | None \<Rightarrow> [])"

definition file_access :: "'w Server \<Rightarrow> (openFile \<Rightarrow> bool) \<Rightarrow> handle_table \<Rightarrow> message \<Rightarrow> bool" where
  "file_access srv P tbl m \<longleftrightarrow> file_request (handle_of m) m \<and> (\<exists>h. handles_get tbl (handle_of m) = Some h
     \<and> \<not> of_dir h \<and> P h \<and> (\<forall>q. m = WriteMsg q \<longrightarrow> of_write h \<and> \<not> sv_ro srv))"

lemma read_access_span:
  assumes "file_access srv P tbl (ReadMsg r)"
  shows "packet_span srv tbl (Message_Type (ReadMsg r)) (payload_of (ReadMsg r)) =
    (if rr_Length r = 0 then None
     else Some (ReadRange (path_at tbl (ReadMsg r)) (rr_Offset r) (word_of_nat (nat (min (uint (rr_Length r)) (readLength srv))))))"
  using assms read_span [of r tbl _ srv] by (auto simp: file_access_def path_at_def simp del: EncodePayload.simps Message_Type.simps)

lemma write_access_span:
  assumes "file_access srv P tbl (WriteMsg w)" "uint (wr_Offset w) \<le> MaxInt64"
  shows "packet_span srv tbl (Message_Type (WriteMsg w)) (payload_of (WriteMsg w))
    \<in> {Some (WriteAll (path_at tbl (WriteMsg w))), Some (WriteRange (path_at tbl (WriteMsg w)) (wr_Offset w) (word_of_nat (length (wr_Data w))))}"
proof -
  obtain h where h: "message_ok 262144 (WriteMsg w)" "handles_get tbl (wr_Handle w) = Some h" "\<not> of_dir h" "\<not> sv_ro srv" "of_write h"
    "of_path h = path_at tbl (WriteMsg w)" using assms(1) by (auto simp: file_access_def path_at_def)
  from write_span [OF h(1-5) assms(2)] h(6) show ?thesis by simp
qed

lemma access_data: "file_access srv P tbl (WriteMsg w) \<Longrightarrow> length (wr_Data w) < 2 ^ 63"
  by (auto simp: file_access_def blob_ok_def)

lemma read_write_apart:
  assumes r: "file_access srv P tbl (ReadMsg r)"
    and w: "file_access srv P tbl (WriteMsg w)" "uint (wr_Offset w) \<le> MaxInt64"
    and free: "path_at tbl (ReadMsg r) = path_at tbl (WriteMsg w)" "\<not> ordered srv tbl (ReadMsg r) (WriteMsg w)"
  shows "apart (readLength srv) (ReadMsg r) (WriteMsg w)"
proof -
  define n where "n = nat (min (uint (rr_Length r)) (readLength srv))"
  note rspan = read_access_span [OF r, folded n_def] and wspan = write_access_span [OF w]
  have len: "rr_Length r \<noteq> 0" using free(2) unfolding ordered_def rspan by (auto split: option.splits)
  then have n: "n < 2 ^ 63" "0 < n" using read_length(1) read_length(2) by (simp_all only: n_def)
  have "\<not> unat (satAdd (rr_Offset r) (word_of_nat n)) \<le> 0"
    using satAdd_small [OF n(1), of "rr_Offset r" 0] n(2) by auto
  with free len wspan have "unat (satAdd (rr_Offset r) (word_of_nat n)) \<le> unat (wr_Offset w)
    \<or> unat (satAdd (wr_Offset w) (word_of_nat (length (wr_Data w)))) \<le> unat (rr_Offset r)"
    unfolding ordered_def rspan by (auto simp: conflict_def)
  then show ?thesis
    using satAdd_small [OF n(1), of "rr_Offset r" "unat (wr_Offset w)"]
      satAdd_small [OF access_data [OF w(1)], of "wr_Offset w" "unat (rr_Offset r)"] small_offset [OF w(2)]
    by (auto simp: apart_def n_def [symmetric])
qed

lemma write_write_apart:
  assumes w: "file_access srv P tbl (WriteMsg w)" "uint (wr_Offset w) \<le> MaxInt64"
    and w': "file_access srv P tbl (WriteMsg w')" "uint (wr_Offset w') \<le> MaxInt64"
    and free: "path_at tbl (WriteMsg w) = path_at tbl (WriteMsg w')" "\<not> ordered srv tbl (WriteMsg w) (WriteMsg w')"
  shows "apart (readLength srv) (WriteMsg w) (WriteMsg w')"
proof -
  have "unat (satAdd (wr_Offset w) (word_of_nat (length (wr_Data w)))) \<le> unat (wr_Offset w')
    \<or> unat (satAdd (wr_Offset w') (word_of_nat (length (wr_Data w')))) \<le> unat (wr_Offset w)"
    using free write_access_span [OF w] write_access_span [OF w'] unfolding ordered_def by (auto simp: conflict_def)
  then show ?thesis
    using satAdd_small [OF access_data [OF w(1)], of "wr_Offset w" "unat (wr_Offset w')"] small_offset [OF w(2)]
      satAdd_small [OF access_data [OF w'(1)], of "wr_Offset w'" "unat (wr_Offset w)"] small_offset [OF w'(2)]
    by (auto simp: apart_def)
qed

lemma unordered_apart:
  assumes m: "file_access srv P tbl m" "steady growing sz (readLength srv) m"
    and m': "file_access srv P tbl m'" "steady growing sz (readLength srv) m'"
    and free: "path_at tbl m = path_at tbl m'" "\<not> ordered srv tbl m m'"
  shows "apart (readLength srv) m m'"
proof -
  have swapped: "\<not> ordered srv tbl m' m" using free(2) ordered_sym by blast
  consider (rr) r r' where "m = ReadMsg r" "m' = ReadMsg r'" | (rw) r w where "m = ReadMsg r" "m' = WriteMsg w"
    | (wr) w r where "m = WriteMsg w" "m' = ReadMsg r" | (ww) w w' where "m = WriteMsg w" "m' = WriteMsg w'"
    using m(2) m'(2) by (cases m; cases m') auto
  then show ?thesis
  proof cases
    case rr
    then show ?thesis by (simp add: apart_def)
  next
    case rw
    with m m' free show ?thesis by (auto intro!: read_write_apart)
  next
    case wr
    with m m' free(1) swapped read_write_apart [of srv P tbl r w] show ?thesis by (auto simp: apart_sym)
  next
    case ww
    with m m' free show ?thesis by (auto intro!: write_write_apart)
  qed
qed

text \<open>
  What the spans do not cover: where the file ends. A \<^verbatim>\<open>WRITE\<close> past the end makes the file longer and turns the
  bytes between into zeros; a \<^verbatim>\<open>READ\<close> of those bytes does not overlap it and may overtake it, and then reports the
  end of the file. The draft that \<^verbatim>\<open>concurrent.go\<close> quotes asks for requests on one file to be processed in the
  order they were sent.
\<close>

lemma gap_read_races:
  fixes w :: WriteRequest and r :: ReadRequest
  defines "w \<equiv> \<lparr>wr_ID = 1, wr_Handle = ''h'', wr_Offset = 10, wr_Data = [9]\<rparr>"
    and "r \<equiv> \<lparr>rr_ID = 2, rr_Handle = ''h'', rr_Offset = 5, rr_Length = 2\<rparr>"
    and "tbl \<equiv> [(''h'', path_handle ''/f'' (Some the_file))]"
  shows "\<not> ordered (example_server False) tbl (WriteMsg w) (ReadMsg r)"
    and "in_order (fst (steps (file_step 100) [(0, WriteMsg w), (1, ReadMsg r)] [1, 2, 3]))
      = [status_msg 1 StatusOK '''', DataMsg \<lparr>dr_ID = 2, dr_Data = [0, 0]\<rparr>]"
    and "in_order (fst (steps (file_step 100) [(1, ReadMsg r), (0, WriteMsg w)] [1, 2, 3]))
      = [status_msg 1 StatusOK '''', status_msg 2 StatusEOF '''']"
  unfolding w_def r_def tbl_def by code_simp+

subsection \<open>The packet timer\<close>

text \<open>
  What can interrupt a read: \<^verbatim>\<open>giveUp\<close> sets a deadline if the stream has one, else closes it if it can be closed.
  \<open>read_ends\<close> is when the reading of a packet that began at 0 is over, given when its last byte arrives.
\<close>

datatype stream = HasReadDeadline | HasClose | HasNeither

datatype give_up = SetReadDeadline | CloseStream | GiveUpNothing

fun giveUp :: "stream \<Rightarrow> give_up" where
  "giveUp HasReadDeadline = SetReadDeadline"
| "giveUp HasClose = CloseStream"
| "giveUp HasNeither = GiveUpNothing"

definition armPacketTimer :: "'w Server \<Rightarrow> int option" where
  "armPacketTimer srv = (if packetTimeout srv \<le> 0 then None else Some (packetTimeout srv))"

definition read_ends :: "'w Server \<Rightarrow> stream \<Rightarrow> int option \<Rightarrow> int option" where
  "read_ends srv st arrives =
     (case armPacketTimer srv of
        None \<Rightarrow> arrives
      | Some d \<Rightarrow> if giveUp st = GiveUpNothing then arrives
                 else (case arrives of Some t \<Rightarrow> Some (min t d) | None \<Rightarrow> Some d))"

text \<open>Unless the timeout is switched off, an interruptible stream holds a slot only so long.\<close>

lemma slot_released:
  assumes "0 \<le> sv_packetWait srv" "st \<noteq> HasNeither"
  shows "\<exists>t. read_ends srv st arrives = Some t \<and> t \<le> packetTimeout srv"
proof -
  have "0 < packetTimeout srv" using assms(1) by (auto simp: packetTimeout_def DefaultPacketTimeout_def)
  moreover have "giveUp st \<noteq> GiveUpNothing" using assms(2) by (cases st) auto
  ultimately show ?thesis by (auto simp: read_ends_def armPacketTimer_def split: option.split)
qed

end
