(* ===== verification/In_Flight.thy ===== *)
theory In_Flight
  imports Schedules
begin

text \<open>
  Why a client cannot tell requests in flight from requests answered one at a time. The abstract state is the contents
  of every file a batch touches, by path; the requests of one file refine the abstract file of \<open>File_Contents\<close>, and
  what a request does to one file leaves the others alone.
\<close>

subsection \<open>Several files\<close>

definition files_step :: "int \<Rightarrow> (message \<Rightarrow> string) \<Rightarrow> message \<Rightarrow> (string \<Rightarrow> bytes) \<Rightarrow> message \<times> (string \<Rightarrow> bytes)" where
  "files_step len pth m cs = (case file_step len m (cs (pth m)) of (r, c) \<Rightarrow> (r, cs(pth m := c)))"

lemma files_step_simps:
  "fst (files_step len pth m cs) = fst (file_step len m (cs (pth m)))"
  "snd (files_step len pth m cs) = cs(pth m := snd (file_step len m (cs (pth m))))"
  by (simp_all add: files_step_def split_beta)

interpretation files_batch: commuting "files_step len pth" "\<lambda>m m'. pth m = pth m' \<and> \<not> apart len m m'"
    "\<lambda>m cs. 0 < len \<and> sz (pth m) \<le> length (cs (pth m)) \<and> steady (growing (pth m)) (sz (pth m)) len m" for len pth sz growing
proof
  fix m m' and cs :: "string \<Rightarrow> bytes"
  assume "0 < len \<and> sz (pth m) \<le> length (cs (pth m)) \<and> steady (growing (pth m)) (sz (pth m)) len m"
    "0 < len \<and> sz (pth m') \<le> length (cs (pth m')) \<and> steady (growing (pth m')) (sz (pth m')) len m'"
  then show "0 < len \<and> sz (pth m) \<le> length (snd (files_step len pth m' cs) (pth m)) \<and> steady (growing (pth m)) (sz (pth m)) len m"
    using file_batch.fit_step [of len "sz (pth m)" "cs (pth m)" "growing (pth m)" m m']
    by (cases "pth m = pth m'") (simp_all add: files_step_simps)
next
  fix m m' and cs :: "string \<Rightarrow> bytes"
  assume "\<not> (pth m = pth m' \<and> \<not> apart len m m')"
    "0 < len \<and> sz (pth m) \<le> length (cs (pth m)) \<and> steady (growing (pth m)) (sz (pth m)) len m"
    "0 < len \<and> sz (pth m') \<le> length (cs (pth m')) \<and> steady (growing (pth m')) (sz (pth m')) len m'"
  then show "snd (files_step len pth m' (snd (files_step len pth m cs))) = snd (files_step len pth m (snd (files_step len pth m' cs)))"
    using file_batch.commute [of len m m' "sz (pth m)" "cs (pth m)" "growing (pth m)"]
    by (cases "pth m = pth m'") (simp_all add: files_step_simps fun_upd_twist)
next
  fix m m' and cs :: "string \<Rightarrow> bytes"
  assume "\<not> (pth m = pth m' \<and> \<not> apart len m m')"
    "0 < len \<and> sz (pth m) \<le> length (cs (pth m)) \<and> steady (growing (pth m)) (sz (pth m)) len m"
    "0 < len \<and> sz (pth m') \<le> length (cs (pth m')) \<and> steady (growing (pth m')) (sz (pth m')) len m'"
  then show "fst (files_step len pth m' (snd (files_step len pth m cs))) = fst (files_step len pth m' cs)
      \<and> fst (files_step len pth m (snd (files_step len pth m' cs))) = fst (files_step len pth m cs)"
    using file_batch.unaffected [of len m m' "sz (pth m)" "cs (pth m)" "growing (pth m)"]
    by (cases "pth m = pth m'") (simp_all add: files_step_simps)
qed

subsection \<open>Files that do not share their contents\<close>

text \<open>
  A handle on one file among several: the contract of \<open>open_file\<close> for the contents at its path, and that its jobs
  leave the contents at every other path alone.
\<close>

locale shared_driver = open_file srv h "contents (of_path h)" room
  for srv :: "'w Server" and h :: openFile and contents :: "string \<Rightarrow> 'w \<Rightarrow> bytes option" and room +
  assumes read_frame: "contents (of_path h) (se_world s) = Some c \<Longrightarrow> q \<noteq> of_path h \<Longrightarrow>
      run_state (job_read srv h rid off n slot) s = (r, s') \<Longrightarrow> contents q (se_world s') = contents q (se_world s)"
    and write_frame: "contents (of_path h) (se_world s) = Some c \<Longrightarrow> q \<noteq> of_path h \<Longrightarrow> room c (unat off) (length data) \<Longrightarrow>
      run_state (job_write srv h rid off data) s = (r, s') \<Longrightarrow> contents q (se_world s') = contents q (se_world s)"
begin

lemma request_frame:
  assumes "contents (of_path h) (se_world s) = Some c" "q \<noteq> of_path h" "handles_get (se_handles s) tok = Some h" "\<not> of_dir h"
    and "\<forall>w. m = WriteMsg w \<longrightarrow> of_write h \<and> \<not> sv_ro srv" "file_request tok m" "roomy room [m] c"
    and "run_state (serve_packet E srv slot (Message_Type m) (payload_of m)) s = (r, s')"
  shows "contents q (se_world s') = contents q (se_world s)"
proof (cases m)
  case (ReadMsg rd)
  with assms(6) have "message_ok 262144 (ReadMsg rd)" "rr_Handle rd = tok" by auto
  from serve_read [OF this(1) assms(3) [folded this(2)] assms(4), of E srv slot] assms(8) [unfolded ReadMsg] show ?thesis
    using read_frame [OF assms(1,2) sym] by (auto simp del: EncodePayload.simps Message_Type.simps split: if_splits)
next
  case (WriteMsg wr)
  with assms(5-7) have wr: "message_ok 262144 (WriteMsg wr)" "wr_Handle wr = tok" "\<not> sv_ro srv" "of_write h"
    "uint (wr_Offset wr) \<le> MaxInt64" "room c (unat (wr_Offset wr)) (length (wr_Data wr))" by auto
  from serve_write [OF wr(1) assms(3) [folded wr(2)] assms(4) wr(3-5), of E slot] assms(8) [unfolded WriteMsg] show ?thesis
    using write_frame [OF assms(1,2) wr(6) sym] by (simp del: EncodePayload.simps Message_Type.simps)
qed (use assms(6) in simp_all)

end

subsection \<open>The test filesystem keeps files apart\<close>

text \<open>
  The contents of a path of the test filesystem, as long as no two names share a node, no failure is injected for the
  path and every open file of \<open>S\<close> still is what its path names.
\<close>

definition tidy :: "(string \<times> File) set \<Rightarrow> memFS \<Rightarrow> bool" where
  "tidy S w \<longleftrightarrow> distinct (map snd (m_nodes w))
     \<and> (\<forall>(p, f) \<in> S. mf_path (file_of f w) = p \<and> map_of (m_nodes w) p = Some (mf_node (file_of f w)))"

definition unfailing :: "string \<Rightarrow> memFS \<Rightarrow> bool" where
  "unfailing p w \<longleftrightarrow> errFor ''ReadFile'' p w = None \<and> errFor ''WriteFile'' p w = None \<and> errFor ''ReadAt'' p w = None
     \<and> errFor ''WriteAt'' p w = None \<and> map_of (m_fail w) (''ReadAtNil:'' @ p) = None"

definition store_contents :: "(string \<times> File) set \<Rightarrow> string \<Rightarrow> memFS \<Rightarrow> bytes option" where
  "store_contents S p w = (if tidy S w \<and> unfailing p w then mem_contents p w else None)"

lemma tidy_upd [simp]: "tidy S (upd_node a g w) = tidy S w"
  by (simp add: tidy_def)

lemma unfailing_upd [simp]: "unfailing p (upd_node a g w) = unfailing p w"
  by (simp add: unfailing_def)

lemma store_file: "store_contents S p w = Some c \<Longrightarrow> (p, f) \<in> S \<Longrightarrow> mem_file_contents f w = Some c"
  by (force simp: store_contents_def tidy_def unfailing_def mem_contents_def mem_file_contents_def Let_def split: if_splits)

lemma file_store: "tidy S w \<Longrightarrow> unfailing p w \<Longrightarrow> (p, f) \<in> S \<Longrightarrow> store_contents S p w = mem_file_contents f w"
  by (force simp: store_contents_def tidy_def unfailing_def mem_contents_def mem_file_contents_def Let_def)

lemma store_tidy: "store_contents S p w = Some c \<Longrightarrow> tidy S w \<and> unfailing p w \<and> mem_contents p w = Some c"
  by (simp add: store_contents_def split: if_splits)

lemma node_contents_other: "b \<noteq> a \<Longrightarrow> node_contents b (upd_node a g w) = node_contents b w"
  by (simp add: node_contents_def upd_node_def)

lemma tidy_nodes:
  assumes "tidy S w" "map_of (m_nodes w) p = Some a" "map_of (m_nodes w) q = Some a"
  shows "q = p"
proof -
  have "distinct (map snd (m_nodes w))" using assms(1) by (simp add: tidy_def)
  then have "inj_on snd (set (m_nodes w))" by (simp add: distinct_map)
  from inj_onD [OF this, of "(q, a)" "(p, a)"] map_of_SomeD [OF assms(2)] map_of_SomeD [OF assms(3)] show ?thesis by simp
qed

lemma store_other:
  assumes "tidy S w" "map_of (m_nodes w) p = Some a" "q \<noteq> p"
  shows "store_contents S q (upd_node a g w) = store_contents S q w"
  using tidy_nodes [OF assms(1,2), of q] assms(3) node_contents_other [of _ a g w]
  by (cases "map_of (m_nodes w) q") (auto simp: store_contents_def mem_contents_def)

lemma upd_node_id: "upd_node a (\<lambda>n. n) w = w"
  by (simp add: upd_node_def)

lemma mem_WriteAt_world: "\<exists>g. snd (mem_WriteAt f d off w) = upd_node (mf_node (file_of f w)) g w"
  unfolding mem_WriteAt_def Let_def by (auto split: option.split intro: upd_node_id [symmetric])

lemma mem_WriteFile_world: "map_of (m_nodes w) p = Some a \<Longrightarrow> \<exists>g. snd (mem_WriteFile p d perm w) = upd_node a g w"
  unfolding mem_WriteFile_def by (auto split: option.split intro: upd_node_id [symmetric])

lemmas mem_file_ops = writableFS_def memFS_fs_def bareFS_def path_handle_def

lemma positioned_read_world:
  assumes "run_state (job_read (srv\<lparr>sv_fsys := writableFS\<rparr>) (path_handle p (Some f)) rid off n slot) s = (r, s')"
  shows "se_world s' = se_world s"
  using assms by (auto simp: job_read_def mem_file_ops with_IO_def readAt_def do_ReadAt_def mem_ReadAt_def Let_def
      split: if_splits option.splits)

lemma positioned_write_world:
  assumes "run_state (job_write (srv\<lparr>sv_fsys := writableFS\<rparr>) (path_handle p (Some f)) rid off d) s = (r, s')"
  shows "\<exists>g. se_world s' = upd_node (mf_node (file_of f (se_world s))) g (se_world s)"
proof -
  have "se_world s' = snd (mem_WriteAt f d off (se_world s))"
    using assms by (auto simp: job_write_def mem_file_ops with_IO_def do_WriteAt_def split_beta split: if_splits)
  then show ?thesis using mem_WriteAt_world by metis
qed

lemma whole_read_world:
  assumes "run_state (job_read (srv\<lparr>sv_fsys := bareFS\<rparr>) (path_handle p None) rid off n slot) s = (r, s')"
  shows "se_world s' = se_world s"
  using assms by (auto simp: job_read_def mem_file_ops with_rlock_def readWhole_def do_ReadFile_def mem_ReadFile_def Let_def
      split: if_splits option.splits)

lemma whole_write_world:
  assumes "run_state (job_write (srv\<lparr>sv_fsys := bareFS\<rparr>) (path_handle p None) rid off d) s = (r, s')"
    and "map_of (m_nodes (se_world s)) p = Some a" "errFor ''ReadFile'' p (se_world s) = None" "splice_room c (unat off) (length d)"
  shows "\<exists>g. se_world s' = upd_node a g (se_world s)"
proof -
  have "length d < 2 ^ 64" using assms(4) by (simp add: splice_room_def)
  moreover have "mem_ReadFile p (se_world s) = ((mn_data (m_heap (se_world s) ! a), None), se_world s)"
    using assms(2,3) by (simp add: mem_ReadFile_def)
  ultimately have "se_world s' = se_world s \<or> (\<exists>new. se_world s' = snd (mem_WriteFile p new 0x1A4 (se_world s)))"
    using writeSplice_run [of "srv\<lparr>sv_fsys := bareFS\<rparr>" p "s\<lparr>se_trace := se_trace s @ [EvLock]\<rparr>" _ "se_world s" d rid off] assms(1)
    by (auto simp: job_write_def mem_file_ops with_lock_def Let_def split_beta split: if_splits)
  then show ?thesis using mem_WriteFile_world [OF assms(2)] upd_node_id by metis
qed

interpretation mem_shared: shared_driver "srv\<lparr>sv_fsys := writableFS\<rparr>" "path_handle p (Some f)" "store_contents (insert (p, f) S)"
    mem_room for srv p f S
proof
  let ?srv = "srv\<lparr>sv_fsys := writableFS\<rparr>" and ?h = "path_handle p (Some f)" and ?S = "insert (p, f) S"
  have p: "of_path ?h = p" by (simp add: path_handle_def)
  fix c rid r and off :: u64 and s s' :: "memFS sess" assume c: "store_contents ?S (of_path ?h) (se_world s) = Some c"
  note at_file = store_file [OF c [unfolded p], of f, simplified] and tidy = store_tidy [OF c [unfolded p]]
  have node: "map_of (m_nodes (se_world s)) p = Some (mf_node (file_of f (se_world s)))" using tidy by (simp add: tidy_def)
  {
    fix n slot assume n: "0 < n" "n < 2 ^ 64" and run: "run_state (job_read ?srv ?h rid off n slot) s = (r, s')"
    show "r = Answer (read_reply rid c (unat off) n) \<and> store_contents ?S (of_path ?h) (se_world s') = Some c
        \<and> se_handles s' = se_handles s"
      using mem_positioned.read_ok [OF at_file n run] c positioned_read_world [OF run] by simp
  next
    fix n slot q assume "run_state (job_read ?srv ?h rid off n slot) s = (r, s')"
    then show "store_contents ?S q (se_world s') = store_contents ?S q (se_world s)"
      by (simp add: positioned_read_world)
  next
    fix d assume room: "uint off \<le> MaxInt64" "mem_room c (unat off) (length d)"
      and run: "run_state (job_write ?srv ?h rid off d) s = (r, s')"
    show "r = Answer (status_msg rid StatusOK '''') \<and> store_contents ?S (of_path ?h) (se_world s') = Some (splice_bytes c (unat off) d)
        \<and> se_handles s' = se_handles s"
      using mem_positioned.write_ok [OF at_file room run] positioned_write_world [OF run] tidy file_store [of ?S "se_world s'" p f] p
      by auto
  next
    fix d q assume "q \<noteq> of_path ?h" "run_state (job_write ?srv ?h rid off d) s = (r, s')"
    then show "store_contents ?S q (se_world s') = store_contents ?S q (se_world s)"
      using positioned_write_world [of srv p f rid off d s r s'] store_other [OF _ node, of ?S q] tidy p by auto
  }
qed

interpretation mem_shared_whole: shared_driver "srv\<lparr>sv_fsys := bareFS\<rparr>" "path_handle p None" "store_contents S" splice_room
  for srv p S
proof
  let ?srv = "srv\<lparr>sv_fsys := bareFS\<rparr>" and ?h = "path_handle p None"
  have p: "of_path ?h = p" by (simp add: path_handle_def)
  fix c rid r and off :: u64 and s s' :: "memFS sess" assume c: "store_contents S (of_path ?h) (se_world s) = Some c"
  note tidy = store_tidy [OF c [unfolded p]]
  obtain a where node: "map_of (m_nodes (se_world s)) p = Some a"
    using tidy by (auto simp: mem_contents_def bind_eq_Some_conv split: if_splits)
  have unfailing: "errFor ''ReadFile'' p (se_world s) = None" using tidy by (simp add: unfailing_def)
  {
    fix n slot assume n: "0 < n" "n < 2 ^ 64" and run: "run_state (job_read ?srv ?h rid off n slot) s = (r, s')"
    show "r = Answer (read_reply rid c (unat off) n) \<and> store_contents S (of_path ?h) (se_world s') = Some c
        \<and> se_handles s' = se_handles s"
      using mem_whole.read_ok [OF _ n run] tidy c whole_read_world [OF run] by simp
  next
    fix n slot q assume "run_state (job_read ?srv ?h rid off n slot) s = (r, s')"
    then show "store_contents S q (se_world s') = store_contents S q (se_world s)"
      by (simp add: whole_read_world)
  next
    fix d assume room: "uint off \<le> MaxInt64" "splice_room c (unat off) (length d)"
      and run: "run_state (job_write ?srv ?h rid off d) s = (r, s')"
    show "r = Answer (status_msg rid StatusOK '''') \<and> store_contents S (of_path ?h) (se_world s') = Some (splice_bytes c (unat off) d)
        \<and> se_handles s' = se_handles s"
      using mem_whole.write_ok [OF _ room run] whole_write_world [OF run node unfailing room(2)] tidy p by (auto simp: store_contents_def)
  next
    fix d q assume q: "q \<noteq> of_path ?h" and room: "splice_room c (unat off) (length d)"
      and run: "run_state (job_write ?srv ?h rid off d) s = (r, s')"
    show "store_contents S q (se_world s') = store_contents S q (se_world s)"
      using whole_write_world [OF run node unfailing room] store_other [OF _ node, of S q] q tidy p by auto
  }
qed

subsection \<open>A batch refines the abstract files\<close>

text \<open>Every write of a batch has room, however long the file has grown by the time it takes effect.\<close>

definition ample :: "(bytes \<Rightarrow> nat \<Rightarrow> nat \<Rightarrow> bool) \<Rightarrow> nat \<Rightarrow> message \<Rightarrow> bool" where
  "ample room sz m \<longleftrightarrow> (\<forall>w c. m = WriteMsg w \<and> sz \<le> length c \<longrightarrow>
     uint (wr_Offset w) \<le> MaxInt64 \<and> room c (unat (wr_Offset w)) (length (wr_Data w)))"

lemma ample_roomy:
  assumes "file_request tok m" "ample room sz m" "sz \<le> length c"
  shows "roomy room [m] c"
  using assms by (cases m) (auto simp: ample_def)

lemma file_step_grows: "length c \<le> length (snd (file_step len m c))"
  by (cases m) auto

lemma files_exchange:
  assumes "\<forall>m \<in> set ms. file_access srv (\<lambda>h. shared_driver srv h contents room) (se_handles s) m"
    and "\<forall>m \<in> set ms. ample room (sz (path_at (se_handles s) m)) m"
    and "\<forall>p \<in> A. sz p \<le> length (cs p) \<and> contents p (se_world s) = Some (cs p)" "path_at (se_handles s) ` set ms \<subseteq> A"
    and "run_state (exchange E srv slot ms) s = (rs, s')"
  shows "rs = map Answer (fst (run_all (files_step (readLength srv) (path_at (se_handles s))) ms cs))
    \<and> (\<forall>p \<in> A. contents p (se_world s') = Some (snd (run_all (files_step (readLength srv) (path_at (se_handles s))) ms cs) p))
    \<and> se_handles s' = se_handles s"
  using assms
proof (induction ms arbitrary: s cs rs)
  case (Cons m ms)
  let ?len = "readLength srv" and ?p = "path_at (se_handles s) m"
  obtain r s1 where one: "run_state (serve_packet E srv slot (Message_Type m) (payload_of m)) s = (r, s1)" by fastforce
  obtain rs1 s2 where "run_state (exchange E srv slot ms) s1 = (rs1, s2)" by fastforce
  then have rs: "rs = r # rs1" and rest: "run_state (exchange E srv slot ms) s1 = (rs1, s')" using Cons.prems(5) one by auto
  obtain h where h: "handles_get (se_handles s) (handle_of m) = Some h" "\<not> of_dir h" "shared_driver srv h contents room"
    "\<forall>q. m = WriteMsg q \<longrightarrow> of_write h \<and> \<not> sv_ro srv" "file_request (handle_of m) m"
    using Cons.prems(1) by (auto simp: file_access_def)
  have p: "of_path h = ?p" using h(1) by (simp add: path_at_def)
  have cp: "contents ?p (se_world s) = Some (cs ?p)" "sz ?p \<le> length (cs ?p)" using Cons.prems(3,4) by auto
  have room: "roomy room [m] (cs (of_path h))" unfolding p using ample_roomy [OF h(5) _ cp(2)] Cons.prems(2) by simp
  let ?c' = "snd (file_step ?len m (cs ?p))"
  have step: "r = Answer (fst (file_step ?len m (cs ?p)))" "contents ?p (se_world s1) = Some ?c'" "se_handles s1 = se_handles s"
    using open_file.request_refines [OF shared_driver.axioms(1) [OF h(3)] cp(1) [folded p] h(1,2,4,5) room one] by (auto simp: p)
  have frame: "contents q (se_world s1) = contents q (se_world s)" if "q \<noteq> ?p" for q
    using shared_driver.request_frame [OF h(3) cp(1) [folded p] _ h(1,2,4,5) room one, of q] that p by simp
  define cs' where "cs' = cs(?p := ?c')"
  have "\<forall>q \<in> A. sz q \<le> length (cs' q) \<and> contents q (se_world s1) = Some (cs' q)"
    using Cons.prems(3) step(2) frame order_trans [OF cp(2) file_step_grows [of _ ?len m]] by (auto simp: cs'_def)
  from Cons.IH [OF _ _ this _ rest] Cons.prems(1,2,4) rs step(1,3) show ?case
    by (simp add: files_step_simps split_beta flip: cs'_def)
qed simp

lemma in_order_exchange:
  assumes "mset (zip (map fst zs) rs) = mset (zip [0..<n] rs0)" "length rs0 = n"
  shows "in_order (zip (map fst zs) (map Answer rs)) = map Answer rs0"
proof -
  have "mset (map (map_prod id Answer) (zip (map fst zs) rs)) = mset (map (map_prod id Answer) (zip [0..<n] rs0))"
    using assms(1) by (simp only: mset_map)
  then have "mset (zip (map fst zs) (map Answer rs)) = mset (zip [0..<n] (map Answer rs0))"
    by (simp add: zip_map2 map_prod_def split_beta del: mset_map)
  then have "sort_key fst (zip (map fst zs) (map Answer rs)) = zip [0..<n] (map Answer rs0)"
    using assms(2) by (intro sort_key_unique) simp_all
  then show ?thesis using assms(2) by (simp add: in_order_def)
qed

text \<open>What a batch may be: requests on files, with room, that do not both extend a file and read past its old end.\<close>

definition batch :: "'w Server \<Rightarrow> (string \<Rightarrow> 'w \<Rightarrow> bytes option) \<Rightarrow> (bytes \<Rightarrow> nat \<Rightarrow> nat \<Rightarrow> bool) \<Rightarrow> (string \<Rightarrow> bool) \<Rightarrow>
    (string \<Rightarrow> bytes) \<Rightarrow> 'w sess \<Rightarrow> message list \<Rightarrow> bool" where
  "batch srv contents room growing cs s ms \<longleftrightarrow> (\<forall>m \<in> set ms. let p = path_at (se_handles s) m in
     file_access srv (\<lambda>h. shared_driver srv h contents room) (se_handles s) m \<and> contents p (se_world s) = Some (cs p)
     \<and> ample room (length (cs p)) m \<and> steady (growing p) (length (cs p)) (readLength srv) m)"

lemma schedule_set: "schedule ord (enumerate 0 ms) zs \<Longrightarrow> set (map snd zs) = set ms"
  by (metis mset_map set_mset_mset schedule_mset map_snd_enumerate)

lemma batch_schedule:
  assumes "batch srv contents room growing cs s ms" "schedule (ordered srv (se_handles s)) (enumerate 0 ms) zs"
    and "run_state (exchange E srv slot (map snd zs)) s = (rs, s')"
  shows "in_order (zip (map fst zs) rs) = map Answer (fst (run_all (files_step (readLength srv) (path_at (se_handles s))) ms cs))
    \<and> (\<forall>p \<in> path_at (se_handles s) ` set ms.
         contents p (se_world s') = Some (snd (run_all (files_step (readLength srv) (path_at (se_handles s))) ms cs) p))
    \<and> se_handles s' = se_handles s"
proof -
  let ?len = "readLength srv" and ?xs = "enumerate 0 ms" and ?tbl = "se_handles s"
  let ?f = "files_step ?len (path_at ?tbl)"
  have same: "set (map snd zs) = set ms" by (rule schedule_set [OF assms(2)])
  note b = assms(1) [unfolded batch_def Let_def]
  have zs: "rs = map Answer (fst (run_all ?f (map snd zs) cs))"
    "\<forall>p \<in> path_at ?tbl ` set ms. contents p (se_world s') = Some (snd (run_all ?f (map snd zs) cs) p)" "se_handles s' = ?tbl"
    using files_exchange [where ms = "map snd zs" and A = "path_at ?tbl ` set ms" and sz = "\<lambda>p. length (cs p)", OF _ _ _ _ assms(3)]
      b unfolding same by (auto simp del: set_map)
  have "schedule (\<lambda>m m'. path_at ?tbl m = path_at ?tbl m' \<and> \<not> apart ?len m m') ?xs zs"
    using assms(2)
  proof (rule schedule_mono)
    fix x y assume "x \<in> set ?xs" "y \<in> set ?xs" and free: "\<not> ordered srv ?tbl (snd x) (snd y)"
    then have "snd x \<in> set ms" "snd y \<in> set ms" unfolding enumerate_eq_zip by (metis set_zip_rightD prod.collapse)+
    with b unordered_apart [OF _ _ _ _ _ free] show "\<not> (path_at ?tbl (snd x) = path_at ?tbl (snd y) \<and> \<not> apart ?len (snd x) (snd y))"
      by metis
  qed
  moreover have "list_all (\<lambda>x. 0 < ?len \<and> length (cs (path_at ?tbl (snd x))) \<le> length (cs (path_at ?tbl (snd x)))
      \<and> steady (growing (path_at ?tbl (snd x))) (length (cs (path_at ?tbl (snd x)))) ?len (snd x)) ?xs"
    using b readLength_bounds(1) [of srv] by (auto simp: list_all_iff enumerate_eq_zip dest: set_zip_rightD)
  ultimately have "mset (fst (steps ?f zs cs)) = mset (fst (steps ?f ?xs cs)) \<and> snd (steps ?f zs cs) = snd (steps ?f ?xs cs)"
    by (rule files_batch.schedule_steps)
  then have "mset (zip (map fst zs) (fst (run_all ?f (map snd zs) cs))) = mset (zip [0..<length ms] (fst (run_all ?f ms cs)))"
    "snd (run_all ?f (map snd zs) cs) = snd (run_all ?f ms cs)"
    by (simp_all add: steps_run_all)
  with zs in_order_exchange [OF this(1) length_run_all] show ?thesis by simp
qed

lemma schedule_arrival: "schedule ord xs xs"
proof (induction xs)
  case (Cons x xs)
  then show ?case using schedule.pick [of ord x "[]" xs xs] by simp
qed (rule schedule.finished)

lemma in_order_arrival: "length rs = n \<Longrightarrow> in_order (zip [0..<n] rs) = rs"
  by (simp add: in_order_def sort_key_unique)

lemma length_exchange: "length (fst (run_state (exchange E srv slot ms) s)) = length ms"
  by (induction ms arbitrary: s) (auto simp: split_beta)


text \<open>
  Two files: a read in the middle of the first, through a second handle, overtakes a write at its start, and a write
  past the end of the second overtakes both.
\<close>

definition batch_requests :: "message list" where
  "batch_requests =
    [WriteMsg \<lparr>wr_ID = 1, wr_Handle = ''h'', wr_Offset = 0, wr_Data = [9]\<rparr>,
     ReadMsg \<lparr>rr_ID = 2, rr_Handle = ''g'', rr_Offset = 1, rr_Length = 2\<rparr>,
     WriteMsg \<lparr>wr_ID = 3, wr_Handle = ''k'', wr_Offset = 5, wr_Data = [7]\<rparr>]"

abbreviation batch_file :: "nat \<Rightarrow> File" where
  "batch_file n \<equiv> \<lparr>fl_Ref = n, fl_Writable = True\<rparr>"

definition batch_session :: "memFS sess" where
  "batch_session = \<lparr>se_world = addFile ''/g'' [4, 5] 0x81A4 file_world\<lparr>m_files := [\<lparr>mf_path = ''/f'', mf_node = 1, mf_closed = False\<rparr>,
       \<lparr>mf_path = ''/f'', mf_node = 1, mf_closed = False\<rparr>, \<lparr>mf_path = ''/g'', mf_node = 2, mf_closed = False\<rparr>]\<rparr>,
     se_handles = [(''h'', path_handle ''/f'' (Some (batch_file 0))), (''g'', path_handle ''/f'' (Some (batch_file 1))),
       (''k'', path_handle ''/g'' (Some (batch_file 2)))], se_trace = []\<rparr>"

definition batch_files :: "(string \<times> File) set" where
  "batch_files = {(''/f'', batch_file 0), (''/f'', batch_file 1), (''/g'', batch_file 2)}"

definition batch_bytes :: "string \<Rightarrow> bytes" where
  "batch_bytes p = (if p = ''/f'' then [1, 2, 3] else [4, 5])"

abbreviation batch_server :: "memFS Server" where
  "batch_server \<equiv> example_server False\<lparr>sv_fsys := writableFS\<rparr>"

lemma batch_driver: "(p, f) \<in> batch_files \<Longrightarrow> shared_driver batch_server (path_handle p (Some f)) (store_contents batch_files) mem_room"
  using mem_shared.shared_driver_axioms [of "example_server False" p f batch_files] by (simp add: insert_absorb)

lemma batch_contents: "store_contents batch_files ''/f'' (se_world batch_session) = Some [1, 2, 3]"
  "store_contents batch_files ''/g'' (se_world batch_session) = Some [4, 5]"
  by code_simp+

lemma batch_example: "batch batch_server (store_contents batch_files) mem_room (\<lambda>_. True) batch_bytes batch_session batch_requests"
proof -
  have h: "handles_get (se_handles batch_session) ''h'' = Some (path_handle ''/f'' (Some (batch_file 0)))"
    "handles_get (se_handles batch_session) ''g'' = Some (path_handle ''/f'' (Some (batch_file 1)))"
    "handles_get (se_handles batch_session) ''k'' = Some (path_handle ''/g'' (Some (batch_file 2)))"
    by (simp_all add: batch_session_def handles_get_def)
  then have p: "path_at (se_handles batch_session) m = (if handle_of m = ''k'' then ''/g'' else ''/f'')" if "m \<in> set batch_requests" for m
    using that by (auto simp: batch_requests_def path_at_def path_handle_def)
  have "file_access batch_server (\<lambda>h. shared_driver batch_server h (store_contents batch_files) mem_room) (se_handles batch_session) m"
    if "m \<in> set batch_requests" for m
    using that h batch_driver [of "''/f''" "batch_file 0"] batch_driver [of "''/f''" "batch_file 1"]
      batch_driver [of "''/g''" "batch_file 2"] example_server_set(2)
    by (auto simp: batch_requests_def batch_files_def file_access_def blob_ok_def path_handle_def)
  moreover have "ample mem_room (length (batch_bytes q)) m" if "m \<in> set batch_requests" for q m
    using that by (auto simp: batch_requests_def ample_def mem_room_def MaxInt64_def)
  moreover have "store_contents batch_files q (se_world batch_session) = Some (batch_bytes q)" if "q \<in> {''/f'', ''/g''}" for q
    using that batch_contents by (auto simp: batch_bytes_def)
  moreover have "steady True (length (batch_bytes (if handle_of m = ''k'' then ''/g'' else ''/f''))) (readLength batch_server) m"
    if "m \<in> set batch_requests" for m
    using that by (auto simp: batch_requests_def batch_bytes_def MaxInt64_def)
  ultimately show ?thesis by (simp add: batch_def Let_def p)
qed


end
