(* ===== verification/Transfers.thy ===== *)
theory Transfers
  imports In_Flight
begin

text \<open>
  What a client does with pipelining: it uploads a file as a window of \<^verbatim>\<open>WRITE\<close> requests at consecutive offsets and
  downloads it as a window of \<^verbatim>\<open>READ\<close> requests, without waiting for a reply in between. The server may take each
  window in any order its spans allow; the file arrives whole.
\<close>

subsection \<open>The client's windows\<close>

fun upload :: "string \<Rightarrow> u32 \<Rightarrow> nat \<Rightarrow> bytes list \<Rightarrow> message list" where
  "upload tok rid off [] = []"
| "upload tok rid off (d # ds) =
     WriteMsg \<lparr>wr_ID = rid, wr_Handle = tok, wr_Offset = word_of_nat off, wr_Data = d\<rparr> # upload tok (rid + 1) (off + length d) ds"

definition download :: "string \<Rightarrow> u32 \<Rightarrow> nat \<Rightarrow> nat \<Rightarrow> message list" where
  "download tok rid n k = map (\<lambda>i. ReadMsg \<lparr>rr_ID = rid + word_of_nat i, rr_Handle = tok, rr_Offset = word_of_nat (i * n),
     rr_Length = word_of_nat n\<rparr>) [0..<k]"

fun reply_data :: "reply \<Rightarrow> bytes" where
  "reply_data (Answer (DataMsg d)) = dr_Data d"
| "reply_data r = []"

definition data_of :: "reply list \<Rightarrow> bytes" where
  "data_of rs = concat (map reply_data rs)"

text \<open>The handle \<open>tok\<close> is open on the file \<open>p\<close>, for writing if \<open>wr\<close>.\<close>

definition open_at :: "'w Server \<Rightarrow> (openFile \<Rightarrow> bool) \<Rightarrow> handle_table \<Rightarrow> string \<Rightarrow> string \<Rightarrow> bool \<Rightarrow> bool" where
  "open_at srv P tbl tok p wr \<longleftrightarrow> blob_ok 262144 tok \<and> (\<exists>h. handles_get tbl tok = Some h \<and> \<not> of_dir h \<and> of_path h = p \<and> P h
     \<and> (wr \<longrightarrow> of_write h \<and> \<not> sv_ro srv))"

subsection \<open>The windows on the abstract file\<close>

lemma splice_end: "splice_bytes c (length c) d = c @ d"
  by (rule nth_equalityI) (auto simp: nth_splice nth_append)

lemma unat_offset: "off < 2 ^ 64 \<Longrightarrow> unat (word_of_nat off :: u64) = off"
  by (simp add: unsigned_of_nat take_bit_nat_eq_self)

lemma path_open: "open_at srv P tbl tok p wr \<Longrightarrow> handle_of m = tok \<Longrightarrow> path_at tbl m = p"
  by (auto simp: open_at_def path_at_def)

lemma run_upload:
  assumes "open_at srv P tbl tok p True" "length (cs p) + length (concat ds) < 2 ^ 64"
  shows "list_all (\<lambda>r. \<exists>i. r = status_msg i StatusOK '''') (fst (run_all (files_step len (path_at tbl)) (upload tok rid (length (cs p)) ds) cs))
    \<and> snd (run_all (files_step len (path_at tbl)) (upload tok rid (length (cs p)) ds) cs) = cs(p := cs p @ concat ds)"
  using assms(2)
proof (induction ds arbitrary: rid cs)
  case (Cons d ds)
  define cs' where "cs' = cs(p := cs p @ d)"
  have "files_step len (path_at tbl) (WriteMsg \<lparr>wr_ID = rid, wr_Handle = tok, wr_Offset = word_of_nat (length (cs p)), wr_Data = d\<rparr>) cs
      = (status_msg rid StatusOK '''', cs')"
    using Cons.prems path_open [OF assms(1)] by (simp add: files_step_def unat_offset splice_end cs'_def)
  moreover have "length (cs p) + length d = length (cs' p)" "cs'(p := cs' p @ concat ds) = cs(p := cs p @ concat (d # ds))"
    by (simp_all add: cs'_def)
  ultimately show ?case using Cons.IH [of cs' "rid + 1"] Cons.prems by (auto simp: split_beta)
qed simp

lemma run_reads:
  assumes "\<And>m. m \<in> set ms \<Longrightarrow> snd (f m c) = c"
  shows "run_all f ms c = (map (\<lambda>m. fst (f m c)) ms, c)"
  using assms by (induction ms) (auto simp: split_beta)

lemma download_step:
  assumes "open_at srv P tbl tok p wr" "0 < n" "int n \<le> len" "n < 2 ^ 32" "i * n < 2 ^ 64"
  shows "files_step len (path_at tbl) (ReadMsg \<lparr>rr_ID = rid, rr_Handle = tok, rr_Offset = word_of_nat (i * n), rr_Length = word_of_nat n\<rparr>) cs
    = (read_reply rid (cs p) (i * n) n, cs)"
proof -
  have "uint (word_of_nat n :: u32) = int n" using assms(4) by (simp add: unsigned_of_nat take_bit_nat_eq_self)
  moreover from this have "(word_of_nat n :: u32) \<noteq> 0" using assms(2) by auto
  ultimately show ?thesis
    using assms path_open [OF assms(1)] unat_offset [OF assms(5)] by (simp add: files_step_def min_absorb1 del: of_nat_mult)
qed

lemma run_download:
  assumes "open_at srv P tbl tok p wr" "0 < n" "int n \<le> len" "n < 2 ^ 32" "k * n < 2 ^ 64"
  shows "run_all (files_step len (path_at tbl)) (download tok rid n k) cs
    = (map (\<lambda>i. read_reply (rid + word_of_nat i) (cs p) (i * n) n) [0..<k], cs)"
proof -
  have "i * n < 2 ^ 64" if "i < k" for i
    using that assms(5) mult_le_mono1 [of i k n] by linarith
  note step = download_step [OF assms(1-4) this]
  show ?thesis unfolding download_def
    by (subst run_reads) (auto simp: step simp del: of_nat_mult)
qed

lemma reply_data_read: "reply_data (Answer (read_reply rid c off n)) = take n (drop off c)"
  by (simp add: read_reply_def status_msg_def)

lemma concat_slices: "concat (map (\<lambda>i. take n (drop (i * n) c)) [0..<k]) = take (k * n) c"
proof (induction k)
  case (Suc k)
  then show ?case using take_add [of "k * n" n c] by (simp add: add.commute)
qed simp

subsection \<open>The windows are batches\<close>

lemma upload_requests:
  "m \<in> set (upload tok rid off ds) \<Longrightarrow> \<exists>i o' d. m = WriteMsg \<lparr>wr_ID = i, wr_Handle = tok, wr_Offset = word_of_nat o', wr_Data = d\<rparr>
     \<and> d \<in> set ds \<and> o' + length d \<le> off + length (concat ds)"
proof (induction ds arbitrary: rid off)
  case (Cons d ds)
  then consider "m = WriteMsg \<lparr>wr_ID = rid, wr_Handle = tok, wr_Offset = word_of_nat off, wr_Data = d\<rparr>"
    | "m \<in> set (upload tok (rid + 1) (off + length d) ds)" by auto
  then show ?case
  proof cases
    case 1
    then show ?thesis by (intro exI [of _ rid] exI [of _ off] exI [of _ d]) simp
  next
    case 2
    from Cons.IH [OF this] show ?thesis by (auto simp: add.assoc)
  qed
qed simp

lemma upload_batch:
  assumes "open_at srv (\<lambda>h. shared_driver srv h contents room) (se_handles s) tok p True" "contents p (se_world s) = Some (cs p)"
    and "\<forall>d \<in> set ds. blob_ok 262144 d" "int (length (cs p) + length (concat ds)) \<le> MaxInt64"
    and "\<forall>c o' n. length (cs p) \<le> length c \<and> o' + n \<le> length (cs p) + length (concat ds) \<longrightarrow> room c o' n"
  shows "batch srv contents room (\<lambda>_. True) cs s (upload tok rid (length (cs p)) ds)"
  unfolding batch_def Let_def
proof
  fix m assume "m \<in> set (upload tok rid (length (cs p)) ds)"
  then obtain i o' d where m: "m = WriteMsg \<lparr>wr_ID = i, wr_Handle = tok, wr_Offset = word_of_nat o', wr_Data = d\<rparr>"
    "d \<in> set ds" "o' + length d \<le> length (cs p) + length (concat ds)" using upload_requests by metis
  have p: "path_at (se_handles s) m = p" using path_open [OF assms(1)] m(1) by simp
  have o': "unat (word_of_nat o' :: u64) = o'" "uint (word_of_nat o' :: u64) \<le> MaxInt64"
    using m(3) assms(4) by (simp_all add: unat_offset uint_nat MaxInt64_def)
  have "blob_ok 262144 tok" "blob_ok 262144 d" using assms(1,3) m(2) by (auto simp: open_at_def)
  with assms(1) m(1) have "file_access srv (\<lambda>h. shared_driver srv h contents room) (se_handles s) m"
    by (auto simp: open_at_def file_access_def)
  then show "file_access srv (\<lambda>h. shared_driver srv h contents room) (se_handles s) m
      \<and> contents (path_at (se_handles s) m) (se_world s) = Some (cs (path_at (se_handles s) m))
      \<and> ample room (length (cs (path_at (se_handles s) m))) m \<and> steady True (length (cs (path_at (se_handles s) m))) (readLength srv) m"
    unfolding p using assms(2,5) m o' by (simp add: ample_def)
qed

lemma download_batch:
  assumes "open_at srv (\<lambda>h. shared_driver srv h contents room) (se_handles s) tok p wr" "contents p (se_world s) = Some (cs p)"
  shows "batch srv contents room (\<lambda>_. False) cs s (download tok rid n k)"
  unfolding batch_def Let_def
proof
  fix m assume "m \<in> set (download tok rid n k)"
  then obtain r where m: "m = ReadMsg r" "rr_Handle r = tok" by (auto simp: download_def)
  have p: "path_at (se_handles s) m = p" using path_open [OF assms(1)] m by simp
  have "blob_ok 262144 tok" using assms(1) by (auto simp: open_at_def)
  with assms(1) m have "file_access srv (\<lambda>h. shared_driver srv h contents room) (se_handles s) m"
    by (auto simp: open_at_def file_access_def)
  then show "file_access srv (\<lambda>h. shared_driver srv h contents room) (se_handles s) m
      \<and> contents (path_at (se_handles s) m) (se_world s) = Some (cs (path_at (se_handles s) m))
      \<and> ample room (length (cs (path_at (se_handles s) m))) m \<and> steady False (length (cs (path_at (se_handles s) m))) (readLength srv) m"
    unfolding p using assms(2) m by (simp add: ample_def)
qed

subsection \<open>The file arrives whole\<close>

text \<open>C7: A file sent and fetched with requests in flight arrives whole. A client appends chunks to a file with a window
  of \<^verbatim>\<open>WRITE\<close> requests at consecutive offsets, and then fetches the file with a window of equally long \<^verbatim>\<open>READ\<close>
  requests, through the same handle or another one on that path. Whatever order the server takes each window in, as
  long as it keeps conflicting requests and barriers in order, every \<^verbatim>\<open>WRITE\<close> is answered \<^verbatim>\<open>OK\<close>, the data of the replies,
  in the order of the requests, is the old file followed by the chunks, and exactly the \<^verbatim>\<open>READ\<close> requests at or past its
  end are answered \<^verbatim>\<open>EOF\<close>.\<close>

theorem pipelined_transfer:
  assumes "open_at srv (\<lambda>h. shared_driver srv h contents room) (se_handles s) tok p True" "contents p (se_world s) = Some c"
    and "open_at srv (\<lambda>h. shared_driver srv h contents room) (se_handles s) tok' p wr"
    and "\<forall>d \<in> set chunks. blob_ok 262144 d" "int (length (c @ concat chunks)) \<le> MaxInt64"
    and "\<forall>c' off n. length c \<le> length c' \<and> off + n \<le> length (c @ concat chunks) \<longrightarrow> room c' off n"
    and "0 < n" "int n \<le> readLength srv" "length (c @ concat chunks) \<le> k * n" "k * n < 2 ^ 64"
    and "schedule (ordered srv (se_handles s)) (enumerate 0 (upload tok rid (length c) chunks)) up"
    and "run_state (exchange E srv slot (map snd up)) s = (rs, s1)"
    and "schedule (ordered srv (se_handles s1)) (enumerate 0 (download tok' rid' n k)) down"
    and "run_state (exchange E' srv slot' (map snd down)) s1 = (rs', s2)"
  shows "list_all (\<lambda>r. \<exists>i. r = Answer (status_msg i StatusOK '''')) (in_order (zip (map fst up) rs))
    \<and> data_of (in_order (zip (map fst down) rs')) = c @ concat chunks
    \<and> (\<forall>i < k. in_order (zip (map fst down) rs') ! i = Answer (status_msg (rid' + word_of_nat i) StatusEOF '''')
         \<longleftrightarrow> length (c @ concat chunks) \<le> i * n)"
proof -
  let ?f = "files_step (readLength srv) (path_at (se_handles s))" and ?new = "c @ concat chunks"
  define cs where "cs = (\<lambda>_ :: string. c)"
  have c: "contents p (se_world s) = Some (cs p)" "c = cs p" using assms(2) by (simp_all add: cs_def)
  have "batch srv contents room (\<lambda>_. True) cs s (upload tok rid (length (cs p)) chunks)"
    using upload_batch [where cs = cs, OF assms(1) c(1) assms(4)] assms(5,6) c(2) by simp
  note up = batch_schedule [OF this assms(11) [unfolded c(2)] assms(12)]
  have fit: "length (cs p) + length (concat chunks) < 2 ^ 64" using assms(5) c(2) by (simp add: MaxInt64_def)
  note ran = run_upload [where cs = cs, OF assms(1) fit, of "readLength srv" rid]
  have oks: "list_all (\<lambda>r. \<exists>i. r = Answer (status_msg i StatusOK '''')) (in_order (zip (map fst up) rs))"
    using up ran by (fastforce simp: list_all_iff)
  have s1: "se_handles s1 = se_handles s" using up by simp
  have "contents p (se_world s1) = Some ?new"
  proof (cases chunks)
    case Nil
    then show ?thesis using assms(2,11,12) schedule_mset [OF assms(11)] by simp
  next
    case (Cons d ds)
    have "p \<in> path_at (se_handles s) ` set (upload tok rid (length (cs p)) chunks)"
      using path_open [OF assms(1)] Cons by simp
    from bspec [OF conjunct1 [OF conjunct2 [OF up]] this] ran c(2) show ?thesis by simp
  qed
  then have new: "contents p (se_world s1) = Some ((\<lambda>_. ?new) p)" .
  note down = batch_schedule [OF download_batch [where cs = "\<lambda>_. ?new", OF assms(3) [folded s1] new] assms(13,14)]
  have "n < 2 ^ 32" using assms(8) readLength_bounds(2) [of srv] by (simp add: maxReadLength_def)
  note fetched = run_download [OF assms(3,7,8) this assms(10), of rid' "\<lambda>_. ?new"]
  have replies: "in_order (zip (map fst down) rs') = map (\<lambda>i. Answer (read_reply (rid' + word_of_nat i) ?new (i * n) n)) [0..<k]"
    using down unfolding s1 fetched by (simp add: comp_def)
  have "data_of (in_order (zip (map fst down) rs')) = take (k * n) ?new"
    unfolding replies data_of_def map_map comp_def reply_data_read concat_slices ..
  then show ?thesis using oks assms(9) unfolding replies by (auto simp: read_reply_def status_msg_def)
qed

lemma transfer_open:
  "open_at batch_server (\<lambda>h. shared_driver batch_server h (store_contents batch_files) mem_room) (se_handles batch_session) ''k'' ''/g'' True"
  using batch_driver [of "''/g''" "batch_file 2"] example_server_set(2)
  by (auto simp: open_at_def batch_session_def batch_files_def handles_get_def path_handle_def blob_ok_def)

text \<open>Two bytes are there; the second chunk is written before the first, and the last read finds the end.\<close>

theorem pipelined_transfer_witness:
  "\<exists>rs s1. run_state (exchange memEnv batch_server [] (rev (upload ''k'' 1 2 [[6], [7, 8]]))) batch_session = (rs, s1)
    \<and> data_of (in_order (zip [0, 1, 2] (fst (run_state (exchange memEnv batch_server [] (download ''k'' 3 3 3)) s1)))) = [4, 5, 6, 7, 8]"
proof -
  let ?ms = "upload ''k'' 1 2 [[6], [7, 8]]" and ?ord = "ordered batch_server (se_handles batch_session)"
  define a b where ab: "a = ?ms ! 0" "b = ?ms ! 1"
  have ms: "?ms = [a, b]" by (simp add: ab)
  obtain rs s1 where run: "run_state (exchange memEnv batch_server [] (rev ?ms)) batch_session = (rs, s1)" by fastforce
  obtain rs' s2 where run': "run_state (exchange memEnv batch_server [] (download ''k'' 3 3 3)) s1 = (rs', s2)" by fastforce
  have "\<not> ?ord a b" unfolding ab batch_session_def sess.simps by code_simp
  then have zs: "schedule ?ord (enumerate 0 (upload ''k'' 1 (length [4, 5 :: byte]) [[6], [7, 8]])) [(1, b), (0 :: nat, a)]"
    using schedule.pick [of ?ord "(1, b)" "[(0, a)]" "[]" "[(0, a)]"] schedule_arrival [of ?ord "[(0, a)]"] ms by (simp add: numeral_2_eq_2)
  have "run_state (exchange memEnv batch_server [] (map snd [(1, b), (0 :: nat, a)])) batch_session = (rs, s1)"
    using run unfolding ms by simp
  moreover have "run_state (exchange memEnv batch_server [] (map snd (enumerate 0 (download ''k'' 3 3 3)))) s1 = (rs', s2)"
    using run' by simp
  moreover have "\<forall>d \<in> set [[6 :: byte], [7, 8]]. blob_ok 262144 d" by (simp add: blob_ok_def)
  moreover have "int 3 \<le> readLength batch_server" by code_simp
  ultimately have "data_of (in_order (zip (map fst (enumerate 0 (download ''k'' 3 3 3))) rs')) = [4, 5] @ concat [[6], [7, 8]]"
    using pipelined_transfer [OF transfer_open batch_contents(2) transfer_open, of "[[6], [7, 8]]" 3 3 1 "[(1, b), (0, a)]" memEnv "[]" rs s1 3
        "enumerate 0 (download ''k'' 3 3 3)" memEnv "[]" rs' s2] zs
      schedule_arrival [of "ordered batch_server (se_handles s1)" "enumerate 0 (download ''k'' 3 3 3)"]
    by (simp add: MaxInt64_def mem_room_def)
  moreover have "length (download ''k'' 3 3 3) = 3" by (simp add: download_def)
  ultimately show ?thesis using run run' by (auto simp: upt_rec numeral_2_eq_2)
qed

end
