(* ===== verification/Directories.thy ===== *)
theory Directories
  imports Sessions
begin

text \<open>
  Listing a directory. \<^verbatim>\<open>OPENDIR\<close> takes a snapshot of the names and \<^verbatim>\<open>READDIR\<close> pages it out, looking up each
  entry as it goes. Over a driver whose \<^verbatim>\<open>Stat\<close> changes nothing, a client that asks until it is told the end
  gets every entry that can be looked up, once and in the order of the driver's listing.
\<close>

subsection \<open>The listing a client should see\<close>

definition entry_item :: "'w Server \<Rightarrow> (string \<Rightarrow> Stat option \<times> error) \<Rightarrow> string \<Rightarrow> DirEntry \<Rightarrow> NameItem option" where
  "entry_item srv st dir e =
     (case join dir (de_Name e) of
        None \<Rightarrow> None
      | Some full \<Rightarrow>
          (case st full of
             (Some fi, None) \<Rightarrow>
               (let a = attrsFromStat srv fi in
                Some \<lparr>ni_Filename = de_Name e, ni_Longname = longName (de_Name e) a, ni_Attrs = a\<rparr>)
           | _ \<Rightarrow> None))"

definition listing :: "'w Server \<Rightarrow> (string \<Rightarrow> Stat option \<times> error) \<Rightarrow> string \<Rightarrow> DirEntry list \<Rightarrow> NameItem list" where
  "listing srv st dir es = List.map_filter (entry_item srv st dir) es"

lemma listing_simps [simp]:
  "listing srv st dir [] = []"
  "listing srv st dir (e # es) =
     (case entry_item srv st dir e of None \<Rightarrow> listing srv st dir es | Some i \<Rightarrow> i # listing srv st dir es)"
  "listing srv st dir (es @ es') = listing srv st dir es @ listing srv st dir es'"
  by (simp_all add: listing_def map_filter_def split: option.split)

lemma length_listing: "length (listing srv st dir es) \<le> length es"
  by (induction es) (auto split: option.split)

definition found :: "(string \<Rightarrow> Stat option \<times> error) \<Rightarrow> string \<Rightarrow> DirEntry \<Rightarrow> bool" where
  "found st dir e =
     (case join dir (de_Name e) of
        None \<Rightarrow> False
      | Some full \<Rightarrow> fst (st full) \<noteq> None \<and> snd (st full) = None)"

lemma listing_names: "map ni_Filename (listing srv st dir es) = map de_Name (filter (found st dir) es)"
proof (induction es)
  case (Cons e es)
  have "map_option ni_Filename (entry_item srv st dir e) = (if found st dir e then Some (de_Name e) else None)"
    by (auto simp: entry_item_def found_def Let_def split: option.split prod.split)
  with Cons show ?case by (auto split: option.split if_splits)
qed simp

text \<open>A client that sends \<^verbatim>\<open>READDIR\<close> until it is told the end, at most \<open>k\<close> times.\<close>

fun read_all :: "nat \<Rightarrow> 'w Server \<Rightarrow> HandleRequest \<Rightarrow> ('w, NameItem list list option) act" where
  "read_all 0 srv m = ret None"
| "read_all (Suc k) srv m = do {
     r \<leftarrow> opReaddir srv m;
     case r of
       Answer (NameMsg n) \<Rightarrow> do {
         rest \<leftarrow> read_all k srv m;
         ret (map_option (\<lambda>pages. nr_Items n # pages) rest)
       }
     | Answer (StatusMsg st) \<Rightarrow> ret (if st_Code st = StatusEOF then Some [] else None)
     | _ \<Rightarrow> ret None
   }"

subsection \<open>One batch, one reply, all replies\<close>

definition stat_pure :: "'w Server \<Rightarrow> (string \<Rightarrow> Stat option \<times> error) \<Rightarrow> 'w \<Rightarrow> bool" where
  "stat_pure srv st w \<longleftrightarrow> (\<forall>p. F_Stat (sv_fsys srv) p w = (st p, w))"

lemma readdirBatch_run:
  assumes "stat_pure srv st (se_world s)" "run_state (readdirBatch srv h es) s = (items, s')"
  shows "items = listing srv st (of_path h) es \<and> se_world s' = se_world s \<and> se_handles s' = se_handles s"
  using assms
proof (induction es arbitrary: s items s')
  case (Cons e es)
  show ?case
  proof (cases "join (of_path h) (de_Name e)")
    case None
    with Cons.IH [OF Cons.prems(1), of items s'] Cons.prems(2) show ?thesis by (simp add: entry_item_def)
  next
    case (Some full)
    let ?s = "s\<lparr>se_trace := se_trace s @ [EvStat full]\<rparr>"
    obtain fi err where st: "st full = (fi, err)" by fastforce
    have stat: "F_Stat (sv_fsys srv) full (se_world s) = ((fi, err), se_world s)"
      using Cons.prems(1) st by (simp add: stat_pure_def)
    obtain rest s1 where rest: "run_state (readdirBatch srv h es) ?s = (rest, s1)" by fastforce
    have "rest = listing srv st (of_path h) es" "se_world s1 = se_world s" "se_handles s1 = se_handles s"
      using Cons.IH [OF _ rest] Cons.prems(1) by simp_all
    moreover have "s' = s1 \<and> items = (case entry_item srv st (of_path h) e of None \<Rightarrow> rest | Some i \<Rightarrow> i # rest)"
      using Cons.prems(2) Some st stat rest by (cases err; cases fi) (simp_all add: do_Stat_def entry_item_def Let_def)
    ultimately show ?thesis by (simp split: option.split)
  qed
qed simp

lemma get_put: "handles_get (handles_put tok h t) tok = Some h"
  by (simp add: handles_get_def handles_put_def update_conv)

lemma readdir_loop_run:
  assumes "stat_pure srv st (se_world s)" "of_pos h \<le> length (of_entries h)"
    and "run_state (readdir_loop srv rid tok h) s = (r, s')"
  shows "se_world s' = se_world s \<and>
    ((\<exists>items p. r = Answer (NameMsg \<lparr>nr_ID = rid, nr_Items = items\<rparr>) \<and> items \<noteq> [] \<and> length items \<le> readdirBatchSize
        \<and> handles_get (se_handles s') tok = Some (h\<lparr>of_pos := p\<rparr>) \<and> of_pos h < p \<and> p \<le> length (of_entries h)
        \<and> listing srv st (of_path h) (drop (of_pos h) (of_entries h))
            = items @ listing srv st (of_path h) (drop p (of_entries h)))
     \<or> r = Answer (status_msg rid StatusEOF '''') \<and> listing srv st (of_path h) (drop (of_pos h) (of_entries h)) = [])"
  using assms
proof (induction srv rid tok h arbitrary: s r s' rule: readdir_loop.induct)
  case (1 srv rid tok h)
  note run = 1(4)
  let ?page = "\<lambda>items p. r = Answer (NameMsg \<lparr>nr_ID = rid, nr_Items = items\<rparr>) \<and> items \<noteq> [] \<and> length items \<le> readdirBatchSize
        \<and> handles_get (se_handles s') tok = Some (h\<lparr>of_pos := p\<rparr>) \<and> of_pos h < p \<and> p \<le> length (of_entries h)
        \<and> listing srv st (of_path h) (drop (of_pos h) (of_entries h))
            = items @ listing srv st (of_path h) (drop p (of_entries h))"
  show ?case
  proof (cases "of_pos h < length (of_entries h)")
    case False
    with run 1(3) show ?thesis by (simp add: readdir_loop.simps [of srv])
  next
    case lt: True
    define stop where "stop = min (of_pos h + readdirBatchSize) (length (of_entries h))"
    define batch where "batch = take (stop - of_pos h) (drop (of_pos h) (of_entries h))"
    let ?page' = "\<lambda>items p. r = Answer (NameMsg \<lparr>nr_ID = rid, nr_Items = items\<rparr>) \<and> items \<noteq> [] \<and> length items \<le> readdirBatchSize
        \<and> handles_get (se_handles s') tok = Some (h\<lparr>of_pos := p\<rparr>) \<and> stop < p \<and> p \<le> length (of_entries h)
        \<and> listing srv st (of_path h) (drop stop (of_entries h))
            = items @ listing srv st (of_path h) (drop p (of_entries h))"
      and ?eof' = "r = Answer (status_msg rid StatusEOF []) \<and> listing srv st (of_path h) (drop stop (of_entries h)) = []"
    let ?h = "h\<lparr>of_pos := stop\<rparr>" and ?t = "handles_put tok (h\<lparr>of_pos := stop\<rparr>) (se_handles s)"
    have stop: "of_pos h < stop" "stop \<le> length (of_entries h)" "stop - of_pos h \<le> readdirBatchSize"
      using lt by (auto simp: stop_def readdirBatchSize_def)
    have sl: "slice (of_pos h) stop (of_entries h) = Some batch"
      using stop by (simp add: slice_def batch_def)
    have split: "drop (of_pos h) (of_entries h) = batch @ drop stop (of_entries h)"
    proof -
      have "drop stop (of_entries h) = drop (stop - of_pos h) (drop (of_pos h) (of_entries h))" using stop by simp
      then show ?thesis unfolding batch_def by (simp only: append_take_drop_id)
    qed
    obtain items s1 where items: "run_state (readdirBatch srv ?h batch) (s\<lparr>se_handles := ?t\<rparr>) = (items, s1)" by fastforce
    have s1: "items = listing srv st (of_path h) batch" "se_world s1 = se_world s" "se_handles s1 = ?t"
      using readdirBatch_run [OF _ items, of st] 1(2) by simp_all
    have step: "run_state (readdir_loop srv rid tok h) s =
        (if items \<noteq> [] then (Answer (NameMsg \<lparr>nr_ID = rid, nr_Items = items\<rparr>), s1) else run_state (readdir_loop srv rid tok ?h) s1)"
      using lt sl items by (simp add: readdir_loop.simps [of srv rid tok h] Let_def stop_def [symmetric])
    show ?thesis
    proof (cases "items = []")
      case False
      have "length items \<le> readdirBatchSize"
        using s1(1) length_listing [of srv st "of_path h" batch] stop(3) by (simp add: batch_def)
      moreover have "r = Answer (NameMsg \<lparr>nr_ID = rid, nr_Items = items\<rparr>)" "s' = s1" using step run False by simp_all
      ultimately have "?page items stop" using False s1(3) stop s1(1) unfolding split by (simp add: get_put)
      then show ?thesis using \<open>s' = s1\<close> s1(2) by blast
    next
      case True
      with step run have rec: "run_state (readdir_loop srv rid tok ?h) s1 = (r, s')" by simp
      have "stat_pure srv st (se_world s1)" using 1(2) s1(2) by simp
      have empty: "listing srv st (of_path h) batch = []" using True s1(1) by simp
      have "stat_pure srv st (se_world s1)" "of_pos ?h \<le> length (of_entries ?h)" using 1(2) s1(2) stop by simp_all
      have IH: "se_world s' = se_world s1 \<and> ((\<exists>items p. ?page' items p) \<or> ?eof')"
        using 1(1) [OF lt stop_def sl _ \<open>stat_pure srv st (se_world s1)\<close> \<open>of_pos ?h \<le> length (of_entries ?h)\<close> rec, of "[]"] by simp
      then consider items p where "?page' items p" | "?eof'" by blast
      then show ?thesis
      proof cases
        case (1 items p)
        then have "?page items p" unfolding split using empty stop(1) by simp
        then show ?thesis using IH s1(2) by auto
      next
        case 2
        then show ?thesis unfolding split using empty IH s1(2) by simp
      qed
    qed
  qed
qed

lemma opReaddir_run:
  assumes "stat_pure srv st (se_world s)" "handles_get (se_handles s) (hr_Handle m) = Some h" "of_dir h"
    and "of_pos h \<le> length (of_entries h)" "run_state (opReaddir srv m) s = (r, s')"
  obtains (page) items p where "se_world s' = se_world s" "r = Answer (NameMsg \<lparr>nr_ID = hr_ID m, nr_Items = items\<rparr>)"
      "items \<noteq> []" "length items \<le> readdirBatchSize"
      "handles_get (se_handles s') (hr_Handle m) = Some (h\<lparr>of_pos := p\<rparr>)" "of_pos h < p" "p \<le> length (of_entries h)"
      "listing srv st (of_path h) (drop (of_pos h) (of_entries h))
         = items @ listing srv st (of_path h) (drop p (of_entries h))"
  | (eof) "se_world s' = se_world s" "r = Answer (status_msg (hr_ID m) StatusEOF '''')"
      "listing srv st (of_path h) (drop (of_pos h) (of_entries h)) = []"
proof -
  obtain r1 s1 where loop: "run_state (readdir_loop srv (hr_ID m) (hr_Handle m) h)
      (s\<lparr>se_trace := se_trace s @ [EvLockPath]\<rparr>) = (r1, s1)" by fastforce
  have "r = r1" "s' = s1\<lparr>se_trace := se_trace s1 @ [EvUnlockPath]\<rparr>"
    using assms(2,3,5) loop by (simp_all add: opReaddir_def with_rlock_def)
  with readdir_loop_run [OF _ assms(4) loop, of st] assms(1) that show ?thesis by (simp; blast)
qed

lemma read_all_run:
  assumes "stat_pure srv st (se_world s)" "handles_get (se_handles s) (hr_Handle m) = Some h" "of_dir h"
    and "of_pos h \<le> length (of_entries h)" "length (of_entries h) - of_pos h < k"
  shows "\<exists>pages. fst (run_state (read_all k srv m) s) = Some pages
    \<and> concat pages = listing srv st (of_path h) (drop (of_pos h) (of_entries h))
    \<and> list_all (\<lambda>page. page \<noteq> [] \<and> length page \<le> readdirBatchSize) pages"
  using assms
proof (induction k arbitrary: s h)
  case (Suc k)
  obtain r s1 where one: "run_state (opReaddir srv m) s = (r, s1)" by fastforce
  show ?case
  proof (rule opReaddir_run [OF Suc.prems(1-4) one], goal_cases page eof)
    case (page items p)
    let ?h = "h\<lparr>of_pos := p\<rparr>"
    have "\<exists>pages. fst (run_state (read_all k srv m) s1) = Some pages
      \<and> concat pages = listing srv st (of_path ?h) (drop (of_pos ?h) (of_entries ?h))
      \<and> list_all (\<lambda>page. page \<noteq> [] \<and> length page \<le> readdirBatchSize) pages"
      using page Suc.prems by (intro Suc.IH) simp_all
    then obtain pages where "fst (run_state (read_all k srv m) s1) = Some pages"
      "concat pages = listing srv st (of_path h) (drop p (of_entries h))"
      "list_all (\<lambda>page. page \<noteq> [] \<and> length page \<le> readdirBatchSize) pages"
      by auto
    with page one show ?thesis by (intro exI [of _ "items # pages"]) (auto split: prod.split)
  next
    case eof
    with one show ?thesis by (simp add: status_msg_def)
  qed
qed simp

text \<open>C24: Listing a directory ends and is complete. A client that repeats \<^verbatim>\<open>READDIR\<close> on a directory handle gets
  at least one and at most 64 items per reply and is told the end after finitely many of them, no more than one
  more than there are entries; put together the replies are the entries of the snapshot that can be named and looked
  up, each once, in the order of the driver's listing, none skipped and none repeated.\<close>

theorem readdir_enumerates:
  assumes "stat_pure srv st (se_world s)" "handles_get (se_handles s) (hr_Handle m) = Some h" "of_dir h"
    and "of_pos h \<le> length (of_entries h)" "length (of_entries h) - of_pos h < k"
  shows "\<exists>pages. fst (run_state (read_all k srv m) s) = Some pages
    \<and> concat pages = listing srv st (of_path h) (drop (of_pos h) (of_entries h))
    \<and> list_all (\<lambda>page. page \<noteq> [] \<and> length page \<le> readdirBatchSize) pages"
  using read_all_run [OF assms] .

definition listing_world :: memFS where
  "listing_world = addDir ''/d'' (addFile ''/d/b'' [1] 0x81A4 (addFile ''/d/a'' [] 0x81A4 newMemFS))"

definition listing_session :: "memFS sess" where
  "listing_session = \<lparr>se_world = listing_world, se_handles = [(''h'', \<lparr>of_path = ''/d'', of_dir = True,
     of_entries = [\<lparr>de_Name = ''a''\<rparr>, \<lparr>de_Name = ''gone''\<rparr>, \<lparr>de_Name = ''b''\<rparr>], of_pos = 0, of_file = None,
     of_writable = None, of_write = False\<rparr>)], se_trace = []\<rparr>"

theorem readdir_enumerates_witness:
  "\<exists>pages. fst (run_state (read_all 4 (example_server True) \<lparr>hr_PacketType = FxpReaddir, hr_ID = 1, hr_Handle = ''h''\<rparr>)
     listing_session) = Some pages \<and> map ni_Filename (concat pages) = [''a'', ''b'']"
proof -
  let ?st = "\<lambda>p. fst (mem_Stat p listing_world)" and ?h = "snd (hd (se_handles listing_session))"
  have "stat_pure (example_server True) ?st (se_world listing_session)"
    by (simp add: stat_pure_def example_server_def writableFS_def memFS_fs_def bareFS_def mem_Stat_def listing_session_def)
  moreover have "handles_get (se_handles listing_session) ''h'' = Some ?h" "of_dir ?h" "of_pos ?h = 0" "length (of_entries ?h) = 3"
    by (simp_all add: listing_session_def handles_get_def)
  moreover have "map ni_Filename (listing (example_server True) ?st (of_path ?h) (of_entries ?h)) = [''a'', ''b'']"
    unfolding listing_names by code_simp
  ultimately show ?thesis
    using readdir_enumerates [of "example_server True" ?st listing_session "\<lparr>hr_PacketType = FxpReaddir, hr_ID = 1, hr_Handle = ''h''\<rparr>" ?h 4]
    by fastforce
qed

end
