(* ===== verification/Divergences.thy ===== *)
theory Divergences
  imports Sessions
begin

text \<open>
  Where the code does something other than its comments, its documentation or its own rules say. Each lemma
  is about the handler as it is modelled, for every driver and state that reach the branch.
\<close>

subsection \<open>SETSTAT does not resolve its path\<close>

abbreviation seen :: "event \<Rightarrow> 'w sess \<Rightarrow> bool" where
  "seen e s \<equiv> e \<in> set (se_trace s)"

lemma keeps_seen [keeps_intros]: "keeps (seen e) (call f ev)" "keeps (seen e) (emit ev')"
  by (auto intro!: keepsI split: prod.splits)

declare keeps_bind [keeps_intros]

lemma setstat_meta_seen: "keeps (seen e) (setstat_meta srv rid path a)"
  unfolding setstat_meta_def setstat_owner_def setstat_times_def by (intro keeps_intros)

lemma opSetstat_truncates:
  assumes "\<not> sv_ro srv" "F_Truncater (sv_fsys srv) = Some trunc" "has (a_Flags a) AttrSize" "uint (a_Size a) \<le> MaxInt64"
  shows "seen (EvTruncate path (a_Size a)) (snd (run_state (opSetstat srv rid path a) s))"
proof -
  let ?e = "EvTruncate path (a_Size a)"
  obtain err w where t: "trunc path (a_Size a) (se_world s) = (err, w)" by fastforce
  let ?s = "s\<lparr>se_world := w, se_trace := se_trace s @ [EvLock, ?e]\<rparr>"
  have "seen ?e (snd (run_state (setstat_meta srv rid path a) ?s))"
    by (rule keepsD [OF setstat_meta_seen]) simp
  with assms t show ?thesis
    by (auto simp: opSetstat_def with_lock_def MaxInt64_def split: prod.splits)
qed



subsection \<open>Leftover files are closed without the lock\<close>

text \<open>
  \<^verbatim>\<open>opClose\<close> closes a driver's file under the filesystem lock; \<^verbatim>\<open>closeAll\<close>, at the end of a session, does
  not take it. The specification of the driver conversation accepts the trace of every session up to that
  point and rejects it as soon as one file is left to close.
\<close>

lemma closeAll_unlocked:
  assumes "settled_session ro s" "set order = fst ` set (se_handles s)" "held (se_handles s) \<noteq> {#}"
    and "run_state (closeAll srv order) s = (e, s')"
  shows "monitor_run ro Free (se_trace s') = None"
proof -
  from closeAll_spec [OF settled_only_held [OF assms(1)] assms(2,4)] obtain fs where
    tr: "se_trace s' = se_trace s @ map EvClose fs" and "mset fs = held (se_handles s)" by blast
  with assms(3) obtain f fs' where "fs = f # fs'" by (cases fs) auto
  with tr settled_trace [OF assms(1)] show ?thesis by (simp add: monitor_run_append)
qed

subsection \<open>OPEN and a driver that reports nothing\<close>

text \<open>
  \<^verbatim>\<open>opStat\<close> answers \<^verbatim>\<open>FAILURE\<close> when the driver returns neither a \<^verbatim>\<open>Stat\<close> nor an error. \<^verbatim>\<open>opOpen\<close> for reading
  maps the missing error to a status, and the status of no error is \<^verbatim>\<open>OK\<close>: the client gets \<^verbatim>\<open>STATUS OK\<close> where
  the protocol has a \<^verbatim>\<open>HANDLE\<close> or a failure.
\<close>

lemma open_nil_stat_answers_ok:
  assumes "clean (or_Path m) = Some path" "\<not> wantsWrite (or_PFlags m)" "\<not> handles_full (se_handles s)"
    and "F_Stat (sv_fsys srv) path (se_world s) = ((None, None), w)"
  shows "fst (run_state (opOpen E srv m) s) = Answer (status_msg (or_ID m) StatusOK '''')"
  using assms by (simp add: opOpen_def resolve_def with_lock_def do_Stat_def statusFor_def errText_def)

text \<open>
  Any error of \<^verbatim>\<open>Stat\<close>, not only that the file does not exist, counts as absence: with \<^verbatim>\<open>CREAT\<close> and \<^verbatim>\<open>EXCL\<close>, which
  ask for a file that was not there before, the server replaces the file by an empty one when its \<^verbatim>\<open>Stat\<close>
  failed for another reason.
\<close>

lemma keeps_seen_add [keeps_intros]: "keeps (seen e) (handles_add E h)"
  unfolding handles_add_def by (auto intro!: keepsI simp: Let_def split: prod.splits option.splits)

lemma finishOpen_seen: "keeps (seen e) (finishOpen E srv rid path write)"
  unfolding finishOpen_def register_handle_def do_Close_def by (intro keeps_intros)

lemma exclusive_create_replaces:
  assumes "clean (or_Path m) = Some path" "\<not> sv_ro srv" "\<not> handles_full (se_handles s)"
    and "has (or_PFlags m) FxfCreat" "has (or_PFlags m) FxfExcl" "wantsWrite (or_PFlags m)"
    and "F_Stat (sv_fsys srv) path (se_world s) = ((st, Some err), w)"
    and "perm = (if has (a_Flags (or_Attrs m)) AttrPermissions then a_Permissions (or_Attrs m) AND ModePerm else 0x1A4)"
  shows "seen (EvWriteFile path [] perm) (snd (run_state (opOpen E srv m) s))"
proof -
  let ?e = "EvWriteFile path [] perm"
  obtain werr w' where wr: "F_WriteFile (sv_fsys srv) path [] perm w = (werr, w')" by fastforce
  let ?s = "s\<lparr>se_world := w', se_trace := se_trace s @ [EvLock, EvStat path, ?e]\<rparr>"
  have "seen ?e (snd (run_state (finishOpen E srv (or_ID m) path True) ?s))"
    by (rule keepsD [OF finishOpen_seen]) simp
  with assms wr show ?thesis
    by (auto simp: opOpen_def resolve_def with_lock_def do_Stat_def do_WriteFile_def Let_def split: prod.splits)
qed

subsection \<open>copy-data at its largest\<close>

text \<open>
  \<^verbatim>\<open>copyData\<close> admits offsets and lengths up to and including \<open>2\<^sup>6\<^sup>2\<close>, and the sum of two such is \<open>2\<^sup>6\<^sup>3\<close>, which is
  negative as an \<^verbatim>\<open>int64\<close>: the length is not cut to what the source has, the destination is not extended, and
  the copy is asked for \<open>2\<^sup>6\<^sup>2\<close> bytes from beyond the end.
\<close>

lemma copy_range_wraps:
  assumes "F_Size (sv_fsys srv) src (se_world s) = (sz, w)" "0 \<le> sint sz" "F_Size (sv_fsys srv) dst w = (dsz, w')" "0 \<le> sint dsz"
  shows "seen (EvRange dst src (2 ^ 62) (2 ^ 62) (2 ^ 62)) (snd (run_state (copy_range E srv rid src dst (2 ^ 62) (2 ^ 62) (2 ^ 62)) s))"
proof -
  define x :: i64 where "x = 2 ^ 62"
  have "sint (x + x) = - (2 ^ 63)" "x \<noteq> 0" unfolding x_def by code_simp+
  then have "\<not> sint (x + x) > sint sz" "\<not> sint (x + x) > sint dsz" "x \<noteq> 0" using assms(2,4) by simp_all
  with assms(1,3) show ?thesis
    unfolding x_def [symmetric] copy_range_def do_Size_def by (simp add: Let_def split: prod.split)
qed

subsection \<open>A packet limit too small for any write\<close>

text \<open>\<^verbatim>\<open>writeLength\<close> promises a length that still fits the packet limit, and is never less than one byte.\<close>

lemma writeLength_too_large:
  "packetLimit srv \<le> writeOverhead \<Longrightarrow> writeLength srv = 1 \<and> writeLength srv + writeOverhead > packetLimit srv"
  by (simp add: writeLength_def)

end
