(* ===== verification/Sshd_Auth.thy ===== *)
theory Sshd_Auth
  imports Driver_Errors "HOL-Library.AList"
begin

text \<open>
  The policy of the SSH front-end, \<^verbatim>\<open>sshd.go\<close>: which configurations \<^verbatim>\<open>New\<close> accepts, which authentication
  methods it offers, and whom the callbacks it installs let in. The SSH protocol itself is code of the
  library \<^verbatim>\<open>x/crypto/ssh\<close>: \<^verbatim>\<open>CertChecker\<close> is a parameter, and of a key and of a certificate the model has what
  the source reads. The callbacks of a configuration are functions; an error carries what its text shows.
\<close>

subsection \<open>Keys, certificates, permissions\<close>

record Permissions =
  pm_CriticalOptions :: "(string \<times> string) list"
  pm_Extensions :: "(string \<times> string) list"

record Certificate =
  ce_CertType :: u32
  ce_SignatureKey :: bytes
  ce_Permissions :: Permissions

text \<open>\<open>pk_Marshal\<close> is the wire form, \<open>pk_Certificate\<close> the outcome of the type assertion to \<^verbatim>\<open>*ssh.Certificate\<close>.\<close>

record PublicKey =
  pk_Marshal :: bytes
  pk_Certificate :: "Certificate option"

definition noPermissions :: Permissions where
  "noPermissions = \<lparr>pm_CriticalOptions = [], pm_Extensions = []\<rparr>"

definition UserCert :: u32 where
  "UserCert = 1"

datatype autherr =
    KeyNotAuthorized | PasswordNotAccepted | HostCertificate
  | SourceAddressConflict string string
  | Reported goerr

type_synonym login = "autherr + Permissions"

record SshLib =
  L_CheckCert :: "string list \<Rightarrow> string \<Rightarrow> Certificate \<Rightarrow> error"
  L_Authenticate :: "(bytes \<Rightarrow> bool) \<Rightarrow> (string \<Rightarrow> PublicKey \<Rightarrow> login) option \<Rightarrow> string \<Rightarrow> PublicKey \<Rightarrow> login"

text \<open>
  What the documentation of \<^verbatim>\<open>CertChecker.Authenticate\<close> promises: a plain key goes to the fallback, and only
  there; a certificate is accepted with its own permissions, and only if it is a user certificate, signed by a
  user authority, and passes \<^verbatim>\<open>CheckCert\<close> for the user.
\<close>

definition cert_library :: "SshLib \<Rightarrow> bool" where
  "cert_library L \<longleftrightarrow> (\<forall>auth fallback user key perms. L_Authenticate L auth fallback user key = Inr perms \<longrightarrow>
     (case pk_Certificate key of
        None \<Rightarrow> \<exists>f. fallback = Some f \<and> f user key = Inr perms
      | Some cert \<Rightarrow> ce_CertType cert = UserCert \<and> auth (ce_SignatureKey cert) \<and> L_CheckCert L [] user cert = None
          \<and> perms = ce_Permissions cert))"

subsection \<open>Certificates no authority signed\<close>

definition sourceAddress :: string where
  "sourceAddress = ''source-address''"

definition withSourceAddress :: "Certificate \<Rightarrow> Permissions \<Rightarrow> login" where
  "withSourceAddress cert perms =
     (case map_of (pm_CriticalOptions (ce_Permissions cert)) sourceAddress of
        None \<Rightarrow> Inr perms
      | Some want \<Rightarrow>
          let out = perms\<lparr>pm_CriticalOptions := AList.update sourceAddress want (pm_CriticalOptions perms)\<rparr> in
          (case map_of (pm_CriticalOptions perms) sourceAddress of
             Some got \<Rightarrow> if got \<noteq> want then Inl (SourceAddressConflict got want) else Inr out
           | None \<Rightarrow> Inr out))"

type_synonym decide = "string \<Rightarrow> Certificate \<Rightarrow> Permissions option \<times> error"

definition selfSigned :: "SshLib \<Rightarrow> string \<Rightarrow> Certificate \<Rightarrow> decide \<Rightarrow> login" where
  "selfSigned L user cert decide =
     (if ce_CertType cert \<noteq> UserCert then Inl HostCertificate
      else (case L_CheckCert L [sourceAddress] user cert of
        Some err \<Rightarrow> Inl (Reported err)
      | None \<Rightarrow>
          (case decide user cert of
             (_, Some err) \<Rightarrow> Inl (Reported err)
           | (perms, None) \<Rightarrow> withSourceAddress cert (case perms of None \<Rightarrow> noPermissions | Some p \<Rightarrow> p))))"

subsection \<open>Configurations\<close>

text \<open>\<^typ>\<open>'s\<close> is the type of the SFTP servers a connection may be given.\<close>

record 's Config =
  cf_HostKeys :: "bytes list"
  cf_AuthorizedKeys :: "PublicKey list"
  cf_PublicKeyFor :: "(string \<Rightarrow> PublicKey \<Rightarrow> bool) option"
  cf_TrustedUserCAs :: "PublicKey list"
  cf_CertificateFor :: "decide option"
  cf_Password :: "(string \<Rightarrow> string \<Rightarrow> bool) option"
  cf_ServerFor :: "(string \<Rightarrow> 's option \<times> error) option"
  cf_ServerForLogin :: "(string \<Rightarrow> Permissions \<Rightarrow> 's option \<times> error) option"
  cf_Banner :: string

record ServerConfig =
  sc_PublicKeyCallback :: "(string \<Rightarrow> PublicKey \<Rightarrow> login) option"
  sc_PasswordCallback :: "(string \<Rightarrow> string \<Rightarrow> login) option"
  sc_Banner :: "string option"
  sc_HostKeys :: "bytes list"

record 's Sshd =
  sd_sftp :: "'s option"
  sd_serverFor :: "(string \<Rightarrow> 's option \<times> error) option"
  sd_serverForLogin :: "(string \<Rightarrow> Permissions \<Rightarrow> 's option \<times> error) option"
  sd_cfg :: ServerConfig
  sd_closed :: bool
  sd_ln :: "nat option"
  sd_conns :: "nat list"

datatype sshd_newerr = ErrNilServer | ErrNoHostKey | ErrNoAuthorizedKeys

definition marshals :: "PublicKey list \<Rightarrow> bytes \<Rightarrow> bool" where
  "marshals keys b \<longleftrightarrow> b \<in> set (map pk_Marshal keys)"

definition byKey :: "'s Config \<Rightarrow> string \<Rightarrow> PublicKey \<Rightarrow> login" where
  "byKey cfg user key =
     (if (case cf_PublicKeyFor cfg of Some f \<Rightarrow> f user key | None \<Rightarrow> False) then Inr noPermissions
      else if marshals (cf_AuthorizedKeys cfg) (pk_Marshal key) then Inr noPermissions
      else Inl KeyNotAuthorized)"

definition acceptsKeys :: "'s Config \<Rightarrow> bool" where
  "acceptsKeys cfg \<longleftrightarrow> cf_AuthorizedKeys cfg \<noteq> [] \<or> cf_PublicKeyFor cfg \<noteq> None"

text \<open>The end of the callback, for a plain key or a certificate of a trusted authority.\<close>

definition checkKey :: "SshLib \<Rightarrow> 's Config \<Rightarrow> string \<Rightarrow> PublicKey \<Rightarrow> login" where
  "checkKey L cfg user key =
     (if cf_TrustedUserCAs cfg \<noteq> []
      then L_Authenticate L (marshals (cf_TrustedUserCAs cfg)) (if acceptsKeys cfg then Some (byKey cfg) else None) user key
      else if acceptsKeys cfg then byKey cfg user key
      else Inl KeyNotAuthorized)"

definition publicKeyCallback :: "SshLib \<Rightarrow> 's Config \<Rightarrow> string \<Rightarrow> PublicKey \<Rightarrow> login" where
  "publicKeyCallback L cfg user key =
     (case (pk_Certificate key, cf_CertificateFor cfg) of
        (Some cert, Some decide) \<Rightarrow>
          if \<not> marshals (cf_TrustedUserCAs cfg) (ce_SignatureKey cert) then selfSigned L user cert decide
          else checkKey L cfg user key
      | _ \<Rightarrow> checkKey L cfg user key)"

definition passwordCallback :: "(string \<Rightarrow> string \<Rightarrow> bool) \<Rightarrow> string \<Rightarrow> string \<Rightarrow> login" where
  "passwordCallback verify user password =
     (if \<not> verify user password then Inl PasswordNotAccepted else Inr noPermissions)"

definition serverConfig :: "SshLib \<Rightarrow> 's Config \<Rightarrow> ServerConfig" where
  "serverConfig L cfg =
     \<lparr>sc_PublicKeyCallback =
        (if cf_TrustedUserCAs cfg \<noteq> [] \<or> acceptsKeys cfg \<or> cf_CertificateFor cfg \<noteq> None
         then Some (publicKeyCallback L cfg) else None),
      sc_PasswordCallback = map_option passwordCallback (cf_Password cfg),
      sc_Banner = (if cf_Banner cfg \<noteq> [] then Some (cf_Banner cfg) else None),
      sc_HostKeys = cf_HostKeys cfg\<rparr>"

definition sshd_New :: "SshLib \<Rightarrow> 's option \<Rightarrow> 's Config \<Rightarrow> sshd_newerr + 's Sshd" where
  "sshd_New L srv cfg =
     (if srv = None \<and> cf_ServerFor cfg = None \<and> cf_ServerForLogin cfg = None then Inl ErrNilServer
      else if cf_HostKeys cfg = [] then Inl ErrNoHostKey
      else if cf_AuthorizedKeys cfg = [] \<and> cf_Password cfg = None \<and> cf_PublicKeyFor cfg = None
        \<and> cf_TrustedUserCAs cfg = [] \<and> cf_CertificateFor cfg = None then Inl ErrNoAuthorizedKeys
      else Inr \<lparr>sd_sftp = srv, sd_serverFor = cf_ServerFor cfg, sd_serverForLogin = cf_ServerForLogin cfg,
                sd_cfg = serverConfig L cfg, sd_closed = False, sd_ln = None, sd_conns = []\<rparr>)"

subsection \<open>What a connection sees\<close>

datatype connerr = NoFilesystem string | ConnReported goerr | ConnPanicked string

text \<open>The part of \<^verbatim>\<open>HandleConn\<close> that chooses the server, once the handshake has given a user and permissions.\<close>

definition chooseServer :: "'s Sshd \<Rightarrow> string \<Rightarrow> Permissions \<Rightarrow> connerr + 's option" where
  "chooseServer d user perms =
     (if sd_serverFor d \<noteq> None \<or> sd_serverForLogin d \<noteq> None then
        (case (case sd_serverForLogin d of Some f \<Rightarrow> f user perms | None \<Rightarrow> the (sd_serverFor d) user) of
           (_, Some err) \<Rightarrow> Inl (ConnReported err)
         | (None, None) \<Rightarrow> Inl (NoFilesystem user)
         | (srv, None) \<Rightarrow> Inr srv)
      else Inr (sd_sftp d))"

subsection \<open>Properties\<close>

lemma sshd_New_Inr:
  "sshd_New L srv cfg = Inr d \<Longrightarrow> sd_cfg d = serverConfig L cfg \<and> sd_sftp d = srv \<and> sd_serverFor d = cf_ServerFor cfg
     \<and> sd_serverForLogin d = cf_ServerForLogin cfg"
  by (auto simp: sshd_New_def split: if_splits)

lemma sshd_New_cases:
  "(\<exists>d. sshd_New L srv cfg = Inr d) \<longleftrightarrow>
     (srv \<noteq> None \<or> cf_ServerFor cfg \<noteq> None \<or> cf_ServerForLogin cfg \<noteq> None) \<and> cf_HostKeys cfg \<noteq> []
     \<and> (acceptsKeys cfg \<or> cf_Password cfg \<noteq> None \<or> cf_TrustedUserCAs cfg \<noteq> [] \<or> cf_CertificateFor cfg \<noteq> None)"
  by (auto simp: sshd_New_def Let_def acceptsKeys_def)

lemma byKey_Inr:
  "byKey cfg user key = Inr perms \<longleftrightarrow> perms = noPermissions \<and>
     ((\<exists>f. cf_PublicKeyFor cfg = Some f \<and> f user key) \<or> marshals (cf_AuthorizedKeys cfg) (pk_Marshal key))"
  by (auto simp: byKey_def split: option.splits)

lemma withSourceAddress_Inr:
  assumes "withSourceAddress cert perms = Inr out"
  shows "(\<forall>a. map_of (pm_CriticalOptions (ce_Permissions cert)) sourceAddress = Some a \<longrightarrow>
        map_of (pm_CriticalOptions out) sourceAddress = Some a)
    \<and> (\<forall>k v. map_of (pm_CriticalOptions perms) k = Some v \<longrightarrow> map_of (pm_CriticalOptions out) k = Some v)
    \<and> pm_Extensions out = pm_Extensions perms"
  using assms by (auto simp: withSourceAddress_def Let_def update_conv split: option.splits if_splits)

lemma selfSigned_Inr:
  assumes "selfSigned L user cert decide = Inr out"
  shows "ce_CertType cert = UserCert \<and> L_CheckCert L [sourceAddress] user cert = None
    \<and> (\<exists>p. decide user cert = (p, None) \<and> withSourceAddress cert (case p of None \<Rightarrow> noPermissions | Some p \<Rightarrow> p) = Inr out)"
  using assms by (auto simp: selfSigned_def split: if_splits option.splits prod.splits)

lemma checkKey_Inr:
  assumes "cert_library L" "checkKey L cfg user key = Inr perms"
  shows "byKey cfg user key = Inr perms \<and> (pk_Certificate key = None \<or> cf_TrustedUserCAs cfg = [])
    \<or> (\<exists>cert. pk_Certificate key = Some cert \<and> ce_CertType cert = UserCert
         \<and> marshals (cf_TrustedUserCAs cfg) (ce_SignatureKey cert) \<and> L_CheckCert L [] user cert = None
         \<and> perms = ce_Permissions cert)"
proof (cases "cf_TrustedUserCAs cfg = []")
  case True
  with assms(2) show ?thesis by (auto simp: checkKey_def split: if_splits)
next
  case False
  with assms have "case pk_Certificate key of
        None \<Rightarrow> \<exists>f. (if acceptsKeys cfg then Some (byKey cfg) else None) = Some f \<and> f user key = Inr perms
      | Some cert \<Rightarrow> ce_CertType cert = UserCert \<and> marshals (cf_TrustedUserCAs cfg) (ce_SignatureKey cert)
          \<and> L_CheckCert L [] user cert = None \<and> perms = ce_Permissions cert"
    unfolding cert_library_def checkKey_def by auto
  then show ?thesis by (auto split: option.splits if_splits)
qed

lemma publicKeyCallback_Inr:
  assumes "cert_library L" "publicKeyCallback L cfg user key = Inr perms"
  shows "checkKey L cfg user key = Inr perms \<and>
      (\<forall>cert. pk_Certificate key = Some cert \<and> cf_CertificateFor cfg \<noteq> None \<longrightarrow>
         marshals (cf_TrustedUserCAs cfg) (ce_SignatureKey cert))
    \<or> (\<exists>cert decide. pk_Certificate key = Some cert \<and> cf_CertificateFor cfg = Some decide
         \<and> \<not> marshals (cf_TrustedUserCAs cfg) (ce_SignatureKey cert) \<and> selfSigned L user cert decide = Inr perms)"
  using assms(2) by (auto simp: publicKeyCallback_def split: option.splits if_splits)

text \<open>
  A library to evaluate at: a certificate passes if it has no critical option but \<^verbatim>\<open>source-address\<close> and the
  supported ones.
\<close>

definition exampleLib :: SshLib where
  "exampleLib = \<lparr>
     L_CheckCert = (\<lambda>supported user cert.
       if list_all (\<lambda>(k, v). k = sourceAddress \<or> k \<in> set supported) (pm_CriticalOptions (ce_Permissions cert))
       then None else Some (new_error ''unsupported critical option'')),
     L_Authenticate = (\<lambda>auth fallback user key.
       case pk_Certificate key of
         None \<Rightarrow> (case fallback of None \<Rightarrow> Inl KeyNotAuthorized | Some f \<Rightarrow> f user key)
       | Some cert \<Rightarrow>
           if ce_CertType cert = UserCert \<and> auth (ce_SignatureKey cert)
              \<and> list_all (\<lambda>(k, v). k = sourceAddress) (pm_CriticalOptions (ce_Permissions cert))
           then Inr (ce_Permissions cert) else Inl KeyNotAuthorized)\<rparr>"

lemma exampleLib_ok: "cert_library exampleLib"
  by (auto simp: cert_library_def exampleLib_def list_all_iff split: option.split if_splits)

definition exampleConfig :: "nat Config" where
  "exampleConfig = \<lparr>cf_HostKeys = [[1]], cf_AuthorizedKeys = [\<lparr>pk_Marshal = [2], pk_Certificate = None\<rparr>],
     cf_PublicKeyFor = None, cf_TrustedUserCAs = [],
     cf_CertificateFor = Some (\<lambda>user cert. (Some \<lparr>pm_CriticalOptions = [], pm_Extensions = [(''groups'', user)]\<rparr>, None)),
     cf_Password = None, cf_ServerFor = None, cf_ServerForLogin = None, cf_Banner = []\<rparr>"

definition exampleCert :: PublicKey where
  "exampleCert = \<lparr>pk_Marshal = [3], pk_Certificate = Some \<lparr>ce_CertType = UserCert, ce_SignatureKey = [9],
     ce_Permissions = \<lparr>pm_CriticalOptions = [(sourceAddress, ''10.0.0.1'')], pm_Extensions = []\<rparr>\<rparr>\<rparr>"

lemma example_login: "\<not> isl (publicKeyCallback exampleLib exampleConfig ''alice'' exampleCert)"
  by code_simp

text \<open>C11: Nobody logs in with a key unless the configuration says so. Whoever the public key callback of a
  front-end that \<^verbatim>\<open>New\<close> built lets in offered a key the caller's own function accepts for that user, or one of the
  authorised keys, or a user certificate: of a trusted authority and valid for the user, or of none, valid apart from
  its signer, and then accepted by the caller's function.\<close>

theorem authentication_sound:
  assumes "cert_library L" "sshd_New L srv cfg = Inr d" "sc_PublicKeyCallback (sd_cfg d) = Some callback"
    and "callback user key = Inr perms"
  shows "(\<exists>f. cf_PublicKeyFor cfg = Some f \<and> f user key)
    \<or> pk_Marshal key \<in> set (map pk_Marshal (cf_AuthorizedKeys cfg))
    \<or> (\<exists>cert. pk_Certificate key = Some cert \<and> ce_CertType cert = UserCert \<and>
         (if ce_SignatureKey cert \<in> set (map pk_Marshal (cf_TrustedUserCAs cfg)) then L_CheckCert L [] user cert = None
          else \<exists>decide p. cf_CertificateFor cfg = Some decide \<and> L_CheckCert L [sourceAddress] user cert = None
            \<and> decide user cert = (p, None)))"
proof -
  have "publicKeyCallback L cfg user key = Inr perms"
    using assms(3,4) sshd_New_Inr [OF assms(2)] by (simp add: serverConfig_def split: if_splits)
  from publicKeyCallback_Inr [OF assms(1) this] show ?thesis
  proof (elim disjE conjE exE)
    assume "checkKey L cfg user key = Inr perms"
    from checkKey_Inr [OF assms(1) this] show ?thesis by (auto simp: byKey_Inr marshals_def)
  next
    fix cert decide
    assume "selfSigned L user cert decide = Inr perms"
    from selfSigned_Inr [OF this] show ?thesis
      if "pk_Certificate key = Some cert" "cf_CertificateFor cfg = Some decide"
        "\<not> marshals (cf_TrustedUserCAs cfg) (ce_SignatureKey cert)"
      using that by (auto simp: marshals_def)
  qed
qed

theorem authentication_sound_witness:
  "\<exists>perms. publicKeyCallback exampleLib exampleConfig ''alice'' exampleCert = Inr perms
     \<and> (\<exists>cert. pk_Certificate exampleCert = Some cert \<and> ce_CertType cert = UserCert)"
proof -
  obtain d where d: "sshd_New exampleLib (Some 0) exampleConfig = Inr d"
    using sshd_New_cases [of exampleLib "Some 0" exampleConfig] by (auto simp: exampleConfig_def acceptsKeys_def)
  have cb: "sc_PublicKeyCallback (sd_cfg d) = Some (publicKeyCallback exampleLib exampleConfig)"
    using sshd_New_Inr [OF d] by (simp add: serverConfig_def acceptsKeys_def exampleConfig_def)
  obtain perms where perms: "publicKeyCallback exampleLib exampleConfig ''alice'' exampleCert = Inr perms"
    using example_login by (cases "publicKeyCallback exampleLib exampleConfig ''alice'' exampleCert") auto
  have "pk_Marshal exampleCert \<notin> set (map pk_Marshal (cf_AuthorizedKeys exampleConfig))" "cf_PublicKeyFor exampleConfig = None"
    by (simp_all add: exampleCert_def exampleConfig_def)
  with authentication_sound [OF exampleLib_ok d cb perms] perms show ?thesis by auto
qed





end
