(* ===== verification/Sshd_Server.thy ===== *)
theory Sshd_Server
  imports Sshd_Auth Session
begin

text \<open>
  The front-end at work, \<^verbatim>\<open>sshd.go\<close>: reading an \<^verbatim>\<open>authorized_keys\<close> file, the requests of one session channel,
  and the channels of one connection. What the SSH library hands over (a parsed key, a channel, a request, the
  outcome of a handshake) is input.
\<close>

subsection \<open>Host keys\<close>

text \<open>\<open>generate\<close> is \<^verbatim>\<open>ed25519.GenerateKey\<close> on the random source, \<open>signer\<close> and \<open>parse\<close> are of the SSH library.\<close>

definition GenerateHostKey :: "goerr + bytes \<Rightarrow> (bytes \<Rightarrow> goerr + bytes) \<Rightarrow> goerr + bytes" where
  "GenerateHostKey generate signer = (case generate of Inl err \<Rightarrow> Inl err | Inr priv \<Rightarrow> signer priv)"

definition ParseHostKey :: "(bytes \<Rightarrow> goerr + bytes) \<Rightarrow> bytes \<Rightarrow> goerr + bytes" where
  "ParseHostKey parse pem = parse pem"

subsection \<open>Authorised keys\<close>

definition allSpace :: "bytes \<Rightarrow> bool" where
  "allSpace b \<longleftrightarrow> list_all (\<lambda>c. c = 32 \<or> c = 9 \<or> c = 13 \<or> c = 10) b"

type_synonym key_parser = "bytes \<Rightarrow> goerr + PublicKey \<times> bytes"

partial_function (option) parse_keys :: "key_parser \<Rightarrow> bytes \<Rightarrow> PublicKey list \<Rightarrow> (goerr + PublicKey list) option" where
  "parse_keys P rest keys =
     (if rest = [] then Some (Inr keys)
      else (case P rest of
        Inl err \<Rightarrow> Some (if allSpace rest then Inr keys else Inl err)
      | Inr (k, nxt) \<Rightarrow> parse_keys P nxt (keys @ [k])))"

definition ParseAuthorizedKeys :: "key_parser \<Rightarrow> bytes \<Rightarrow> (goerr + PublicKey list) option" where
  "ParseAuthorizedKeys P data = parse_keys P data []"

text \<open>How a file is made of lines: what the parser takes off it, one key after the other, up to a blank end.\<close>

inductive key_lines :: "key_parser \<Rightarrow> bytes \<Rightarrow> PublicKey list \<Rightarrow> bytes \<Rightarrow> bool" for P where
  none: "key_lines P rest [] rest"
| key: "rest \<noteq> [] \<Longrightarrow> P rest = Inr (k, nxt) \<Longrightarrow> key_lines P nxt ks final \<Longrightarrow> key_lines P rest (k # ks) final"

definition consuming :: "key_parser \<Rightarrow> bool" where
  "consuming P \<longleftrightarrow> (\<forall>b k nxt. P b = Inr (k, nxt) \<longrightarrow> length nxt < length b)"

lemma parse_keys_run:
  assumes "consuming P"
  shows "\<exists>ks final. key_lines P rest ks final \<and>
    (final = [] \<and> parse_keys P rest keys = Some (Inr (keys @ ks))
     \<or> (\<exists>err. final \<noteq> [] \<and> P final = Inl err
          \<and> parse_keys P rest keys = Some (if allSpace final then Inr (keys @ ks) else Inl err)))"
proof (induction "length rest" arbitrary: rest keys rule: less_induct)
  case less
  show ?case
  proof (cases "rest = [] \<or> isl (P rest)")
    case True
    then show ?thesis
      by (intro exI [of _ "[]"] exI [of _ rest]) (auto simp: parse_keys.simps [of P rest] key_lines.none split: sum.splits)
  next
    case False
    then obtain k nxt where k: "P rest = Inr (k, nxt)" by (cases "P rest") auto
    with assms have "length nxt < length rest" by (auto simp: consuming_def)
    from less [OF this, of "keys @ [k]"] obtain ks final where "key_lines P nxt ks final"
      "final = [] \<and> parse_keys P nxt (keys @ [k]) = Some (Inr (keys @ k # ks))
       \<or> (\<exists>err. final \<noteq> [] \<and> P final = Inl err
            \<and> parse_keys P nxt (keys @ [k]) = Some (if allSpace final then Inr (keys @ k # ks) else Inl err))"
      by auto
    with False k show ?thesis
      by (intro exI [of _ "k # ks"] exI [of _ final]) (auto simp: parse_keys.simps [of P rest] intro: key_lines.key)
  qed
qed


text \<open>A parser to evaluate at: a line is a key of one byte and a newline.\<close>

fun lineParser :: key_parser where
  "lineParser (b # c # rest) =
     (if c = 10 \<and> b \<noteq> 35 then Inr (\<lparr>pk_Marshal = [b], pk_Certificate = None\<rparr>, rest) else Inl (new_error ''no key found''))"
| "lineParser _ = Inl (new_error ''no key found'')"

lemma lineParser_consuming: "consuming lineParser"
  by (auto simp: consuming_def elim: lineParser.elims split: if_splits)


text \<open>
  The comment on \<^verbatim>\<open>ParseAuthorizedKeys\<close> says that comments are skipped. The parser skips one only on the way to
  a key: a comment after the last key leaves it with no key to find, which is an error, and what is left is not
  blank, so the whole file is refused.
\<close>

lemma trailing_comment_refused:
  assumes "data \<noteq> []" "P data = Inr (k, comment)" "comment \<noteq> []" "P comment = Inl err" "\<not> allSpace comment"
  shows "ParseAuthorizedKeys P data = Some (Inl err)"
  using assms by (simp add: ParseAuthorizedKeys_def parse_keys.simps [of P data] parse_keys.simps [of P comment])

subsection \<open>One session channel\<close>

record request =
  rq_Type :: string
  rq_WantReply :: bool
  rq_Payload :: bytes

datatype chan_event = Reply bool | RunServe | ExitStatus u32 | CloseChannel

definition replyNo :: "request \<Rightarrow> chan_event list" where
  "replyNo req = (if rq_WantReply req then [Reply False] else [])"

definition replyYes :: "request \<Rightarrow> chan_event list" where
  "replyYes req = (if rq_WantReply req then [Reply True] else [])"

definition sendExitStatus :: "u32 \<Rightarrow> chan_event list" where
  "sendExitStatus code = [ExitStatus code]"

text \<open>
  \<open>unmarshal\<close> is \<^verbatim>\<open>ssh.Unmarshal\<close> into \<^verbatim>\<open>subsystemRequest\<close>, the name of the subsystem if it succeeds; \<open>served\<close> is
  what \<^verbatim>\<open>srv.Serve(ch)\<close> comes to. A panic in it is recovered, and the exit status is then not sent.
\<close>

fun session_requests :: "(bytes \<Rightarrow> string option) \<Rightarrow> outcome \<Rightarrow> request list \<Rightarrow> chan_event list" where
  "session_requests unmarshal served [] = []"
| "session_requests unmarshal served (req # reqs) =
     (if rq_Type req \<noteq> ''subsystem'' then replyNo req @ session_requests unmarshal served reqs
      else if unmarshal (rq_Payload req) \<noteq> Some ''sftp'' then replyNo req @ session_requests unmarshal served reqs
      else replyYes req @ RunServe # (if served = Crashed then [] else sendExitStatus 0))"

definition handleSession :: "(bytes \<Rightarrow> string option) \<Rightarrow> outcome \<Rightarrow> request list \<Rightarrow> chan_event list" where
  "handleSession unmarshal served reqs = session_requests unmarshal served reqs @ [CloseChannel]"

definition sftp_request :: "(bytes \<Rightarrow> string option) \<Rightarrow> request \<Rightarrow> bool" where
  "sftp_request unmarshal req \<longleftrightarrow> rq_Type req = ''subsystem'' \<and> unmarshal (rq_Payload req) = Some ''sftp''"

lemma session_requests_refused:
  "list_all (\<lambda>req. \<not> sftp_request unmarshal req) reqs \<Longrightarrow>
     session_requests unmarshal served (reqs @ rest) = concat (map replyNo reqs) @ session_requests unmarshal served rest"
  by (induction reqs) (auto simp: sftp_request_def)

text \<open>C29: One channel, one file transfer. On a session channel every request before the \<^verbatim>\<open>sftp\<close> subsystem, a shell
  or a command among them, is refused if it wants a reply; the first \<^verbatim>\<open>sftp\<close> request is accepted, the SFTP server
  runs once, its exit status follows, and nothing after it is looked at; without one nothing ever runs. The channel
  is closed at the end in every case.\<close>

theorem session_channel_serves_once:
  assumes "list_all (\<lambda>req. \<not> sftp_request unmarshal req) pre"
  shows "handleSession unmarshal served pre = concat (map replyNo pre) @ [CloseChannel]
    \<and> (sftp_request unmarshal req \<longrightarrow>
        handleSession unmarshal served (pre @ req # post) =
          concat (map replyNo pre) @ replyYes req @ RunServe # (if served = Crashed then [] else [ExitStatus 0]) @ [CloseChannel])"
  using session_requests_refused [OF assms, of served "[]"] session_requests_refused [OF assms, of served "req # post"]
  by (auto simp: handleSession_def sftp_request_def sendExitStatus_def)

theorem session_channel_serves_once_witness:
  "handleSession (\<lambda>b. if b = [1] then Some ''sftp'' else None) (Ended None)
     [\<lparr>rq_Type = ''shell'', rq_WantReply = True, rq_Payload = []\<rparr>, \<lparr>rq_Type = ''subsystem'', rq_WantReply = True, rq_Payload = [1]\<rparr>]
   = [Reply False, Reply True, RunServe, ExitStatus 0, CloseChannel]"
  using session_channel_serves_once [of "\<lambda>b. if b = [1] then Some ''sftp'' else None"
      "[\<lparr>rq_Type = ''shell'', rq_WantReply = True, rq_Payload = []\<rparr>]" "Ended None"
      "\<lparr>rq_Type = ''subsystem'', rq_WantReply = True, rq_Payload = [1]\<rparr>" "[]"]
  by (simp add: sftp_request_def replyNo_def replyYes_def)

subsection \<open>One connection\<close>

record newchannel =
  nc_ChannelType :: string
  nc_Accept :: error

datatype 's conn_event = Reject string | StartSession 's | CloseConn

fun serve_channels :: "'s \<Rightarrow> newchannel list \<Rightarrow> 's conn_event list \<times> error" where
  "serve_channels srv [] = ([], None)"
| "serve_channels srv (nc # chans) =
     (if nc_ChannelType nc \<noteq> ''session''
      then (case serve_channels srv chans of (evs, err) \<Rightarrow> (Reject ''only session channels are served'' # evs, err))
      else (case nc_Accept nc of
        Some err \<Rightarrow> ([], Some err)
      | None \<Rightarrow> (case serve_channels srv chans of (evs, err) \<Rightarrow> (StartSession srv # evs, err))))"

text \<open>
  The handshake \<^verbatim>\<open>ssh.NewServerConn\<close> gives an error, or panics (in a callback of the caller, say), which
  \<^verbatim>\<open>HandleConn\<close> recovers and reports, or gives the user, the permissions and the channels to come.
\<close>

datatype handshake = Failed goerr | Panics string | Established string Permissions "newchannel list"

fun HandleConn :: "'s Sshd \<Rightarrow> handshake \<Rightarrow> 's option conn_event list \<times> connerr option" where
  "HandleConn d (Failed err) = ([], Some (ConnReported err))"
| "HandleConn d (Panics what) = ([], Some (ConnPanicked what))"
| "HandleConn d (Established user perms chans) =
     (case chooseServer d user perms of
        Inl err \<Rightarrow> ([CloseConn], Some err)
      | Inr srv \<Rightarrow>
          (case serve_channels srv chans of (evs, err) \<Rightarrow> (evs @ [CloseConn], map_option ConnReported err)))"

lemma serve_channels_sessions:
  "serve_channels srv chans = (evs, err) \<Longrightarrow> e \<in> set evs \<Longrightarrow> e = StartSession srv \<or> e = Reject ''only session channels are served''"
  by (induction chans arbitrary: evs) (auto split: prod.splits option.splits if_splits)



end
