(* ===== verification/Sshd_Life.thy ===== *)
theory Sshd_Life
  imports Sshd_Server
begin

text \<open>
  The life of the front-end's listener, \<^verbatim>\<open>sshd.go\<close>: \<^verbatim>\<open>ListenAndServe\<close>, \<^verbatim>\<open>Serve\<close>, \<^verbatim>\<open>track\<close> and \<^verbatim>\<open>Close\<close>. The accepting loop, the
  handlers it starts and \<^verbatim>\<open>Close\<close> run at the same time; each stretch of code under the mutex is a function on the
  server's state, and their interleavings are the runs of a step relation.
\<close>

subsection \<open>What runs under the mutex\<close>

text \<open>
  \<open>track c add\<close> gives the new state and whether it closed the connection. \<open>serve_begin\<close> and \<open>serve_failed\<close> are
  the two decisions of \<^verbatim>\<open>Serve\<close>, the second after \<^verbatim>\<open>Accept\<close> failed. \<open>sshd_Close\<close> gives what \<^verbatim>\<open>Close\<close> does under
  the mutex and what it goes on to close without it, in order.
\<close>

datatype serve_error = ErrServerClosed | AcceptFailed goerr

definition track :: "nat \<Rightarrow> bool \<Rightarrow> 's Sshd \<Rightarrow> 's Sshd \<times> bool" where
  "track c add d =
     (if add then (if sd_closed d then (d, True) else (d\<lparr>sd_conns := List.insert c (sd_conns d)\<rparr>, False))
      else (d\<lparr>sd_conns := removeAll c (sd_conns d)\<rparr>, True))"

definition serve_begin :: "nat \<Rightarrow> 's Sshd \<Rightarrow> 's Sshd \<times> serve_error option" where
  "serve_begin ln d = (if sd_closed d then (d, Some ErrServerClosed) else (d\<lparr>sd_ln := Some ln\<rparr>, None))"

definition serve_failed :: "goerr \<Rightarrow> 's Sshd \<Rightarrow> serve_error" where
  "serve_failed err d = (if sd_closed d then ErrServerClosed else AcceptFailed err)"

datatype closing = CloseListener nat | CloseConnection nat

definition sshd_Close :: "'s Sshd \<Rightarrow> 's Sshd \<times> closing list" where
  "sshd_Close d =
     (if sd_closed d then (d, [])
      else (d\<lparr>sd_closed := True\<rparr>,
            (case sd_ln d of Some ln \<Rightarrow> [CloseListener ln] | None \<Rightarrow> []) @ map CloseConnection (sd_conns d)))"

subsection \<open>The accepting loop\<close>

text \<open>
  \<^verbatim>\<open>Serve\<close> itself, over what \<^verbatim>\<open>Accept\<close> gives it. A round comes with what the other threads did to the server's state by
  the time \<^verbatim>\<open>Accept\<close> returned; \<open>accept_loop\<close> gives the error \<^verbatim>\<open>Serve\<close> returns, none while it waits for another round, and
  the connections a handler was started for. \<open>sshd_Serve\<close> also gives what \<^verbatim>\<open>Serve\<close> closes. \<open>ListenAndServe\<close> takes the
  operating system's \<^verbatim>\<open>net.Listen\<close>.
\<close>

type_synonym 's accepting = "('s Sshd \<Rightarrow> 's Sshd) \<times> (goerr + nat)"

fun accept_loop :: "'s accepting list \<Rightarrow> 's Sshd \<Rightarrow> (serve_error option \<times> nat list) \<times> 's Sshd" where
  "accept_loop [] d = ((None, []), d)"
| "accept_loop ((others, Inl err) # rs) d = ((Some (serve_failed err (others d)), []), others d)"
| "accept_loop ((others, Inr c) # rs) d =
     (case accept_loop rs (fst (track c True (others d))) of ((e, cs), d) \<Rightarrow> ((e, c # cs), d))"

definition sshd_Serve :: "nat \<Rightarrow> 's accepting list \<Rightarrow> 's Sshd \<Rightarrow> (serve_error option \<times> nat list \<times> closing list) \<times> 's Sshd" where
  "sshd_Serve ln rs d =
     (case serve_begin ln d of
        (d, Some e) \<Rightarrow> ((Some e, [], [CloseListener ln]), d)
      | (d, None) \<Rightarrow> (case accept_loop rs d of ((e, cs), d) \<Rightarrow> ((e, cs, []), d)))"

definition ListenAndServe :: "(string \<Rightarrow> goerr + nat) \<Rightarrow> string \<Rightarrow> 's accepting list \<Rightarrow> 's Sshd \<Rightarrow>
    (goerr + (serve_error option \<times> nat list \<times> closing list)) \<times> 's Sshd" where
  "ListenAndServe listen addr rs d =
     (case listen addr of
        Inl err \<Rightarrow> (Inl err, d)
      | Inr ln \<Rightarrow> (case sshd_Serve ln rs d of (r, d) \<Rightarrow> (Inr r, d)))"

text \<open>Only a failing \<^verbatim>\<open>Accept\<close> ends the loop; until then every connection gets its handler.\<close>

lemma accept_loop_runs:
  "fst (accept_loop rs d) =
     (case dropWhile (\<lambda>r. \<not> isl (snd r)) rs of
        [] \<Rightarrow> (None, map (\<lambda>r. projr (snd r)) rs)
      | r # _ \<Rightarrow> (Some (serve_failed (projl (snd r)) (snd (accept_loop rs d))), map (\<lambda>r. projr (snd r)) (takeWhile (\<lambda>r. \<not> isl (snd r)) rs)))"
  by (induction rs d rule: accept_loop.induct) (auto simp: split_beta simp del: dropWhile_eq_Nil_conv split: list.split)

text \<open>What \<^verbatim>\<open>Serve\<close> returns is \<^verbatim>\<open>ErrServerClosed\<close> exactly when the server has been closed.\<close>

lemma sshd_Serve_error:
  assumes "sshd_Serve ln rs d = ((Some e, cs, shut), d')"
  shows "e = ErrServerClosed \<longleftrightarrow> sd_closed d'"
proof (cases "sd_closed d")
  case True
  then show ?thesis using assms by (auto simp: sshd_Serve_def serve_begin_def)
next
  case False
  then have "fst (fst (accept_loop rs (d\<lparr>sd_ln := Some ln\<rparr>))) = Some e" "d' = snd (accept_loop rs (d\<lparr>sd_ln := Some ln\<rparr>))"
    using assms by (auto simp: sshd_Serve_def serve_begin_def split: prod.splits)
  then show ?thesis
    by (auto simp: accept_loop_runs serve_failed_def split: list.splits if_splits)
qed

text \<open>\<^verbatim>\<open>Serve\<close> is said to close the listener before it returns; it does only when it refuses to start.\<close>

lemma serve_leaves_listener: "snd (snd (fst (sshd_Serve ln rs d))) = [CloseListener ln] \<longleftrightarrow> sd_closed d"
  by (auto simp: sshd_Serve_def serve_begin_def split: prod.split)

text \<open>A closed server takes no connection, whatever address it is asked to listen on.\<close>

lemma ListenAndServe_closed:
  "sd_closed d \<Longrightarrow> listen addr = Inr ln \<Longrightarrow>
     ListenAndServe listen addr rs d = (Inr (Some ErrServerClosed, [], [CloseListener ln]), d)"
  by (simp add: ListenAndServe_def sshd_Serve_def serve_begin_def)

subsection \<open>Interleavings\<close>

text \<open>
  The whole: the server, whether its listener is open, the connections that are open, those \<^verbatim>\<open>Accept\<close> returned
  but \<^verbatim>\<open>track\<close> has not seen yet, those whose handler runs, and what \<^verbatim>\<open>Close\<close> still has to close. \<^verbatim>\<open>Serve\<close> runs once, on one listener.
\<close>

record 's life =
  lf_server :: "'s Sshd"
  lf_listening :: bool
  lf_open :: "nat set"
  lf_accepted :: "nat set"
  lf_handled :: "nat set"
  lf_closing :: "closing list"

inductive life_step :: "'s life \<Rightarrow> 's life \<Rightarrow> bool" where
  serve: "sd_ln (lf_server l) = None \<Longrightarrow> serve_begin ln (lf_server l) = (d, None) \<Longrightarrow>
    life_step l (l\<lparr>lf_server := d, lf_listening := True\<rparr>)"
| accept: "lf_listening l \<Longrightarrow> c \<notin> lf_open l \<Longrightarrow> c \<notin> lf_accepted l \<Longrightarrow> c \<notin> lf_handled l \<Longrightarrow>
    life_step l (l\<lparr>lf_open := insert c (lf_open l), lf_accepted := insert c (lf_accepted l)\<rparr>)"
| begin_handler: "c \<in> lf_accepted l \<Longrightarrow> track c True (lf_server l) = (d, shut) \<Longrightarrow>
    life_step l (l\<lparr>lf_server := d, lf_accepted := lf_accepted l - {c}, lf_handled := insert c (lf_handled l),
      lf_open := (if shut then lf_open l - {c} else lf_open l)\<rparr>)"
| peer_gone: "life_step l (l\<lparr>lf_open := lf_open l - {c}\<rparr>)"
| end_handler: "c \<in> lf_handled l \<Longrightarrow> track c False (lf_server l) = (d, shut) \<Longrightarrow>
    life_step l (l\<lparr>lf_server := d, lf_handled := lf_handled l - {c},
      lf_open := (if shut then lf_open l - {c} else lf_open l)\<rparr>)"
| close: "\<not> sd_closed (lf_server l) \<Longrightarrow> sshd_Close (lf_server l) = (d, todo) \<Longrightarrow>
    life_step l (l\<lparr>lf_server := d, lf_closing := todo\<rparr>)"
| shut_listener: "lf_closing l = CloseListener ln # todo \<Longrightarrow>
    life_step l (l\<lparr>lf_closing := todo, lf_listening := False\<rparr>)"
| shut_connection: "lf_closing l = CloseConnection c # todo \<Longrightarrow>
    life_step l (l\<lparr>lf_closing := todo, lf_open := lf_open l - {c}\<rparr>)"

text \<open>A round of the accepting loop is two of these steps.\<close>

lemma accept_round:
  assumes "lf_listening l" "c \<notin> lf_open l \<union> lf_accepted l \<union> lf_handled l" "accept_loop [(\<lambda>d. d, Inr c)] (lf_server l) = ((None, [c]), d)"
  shows "life_step\<^sup>*\<^sup>* l (l\<lparr>lf_server := d, lf_handled := insert c (lf_handled l),
    lf_open := (if sd_closed d then lf_open l else insert c (lf_open l))\<rparr>)"
proof -
  let ?a = "l\<lparr>lf_open := insert c (lf_open l), lf_accepted := insert c (lf_accepted l)\<rparr>"
  have "track c True (lf_server ?a) = (d, sd_closed d)" using assms(3) by (auto simp: track_def split: if_splits)
  from life_step.begin_handler [OF _ this] life_step.accept [of l c] assms(1,2) show ?thesis
    by (intro converse_rtranclp_into_rtranclp [of _ l ?a] r_into_rtranclp) (auto cong: if_cong)
qed

definition life_start :: "'s Sshd \<Rightarrow> 's life" where
  "life_start d = \<lparr>lf_server = d, lf_listening = False, lf_open = {}, lf_accepted = {}, lf_handled = {},
     lf_closing = []\<rparr>"

definition life_ok :: "'s life \<Rightarrow> bool" where
  "life_ok l \<longleftrightarrow> lf_open l \<subseteq> lf_accepted l \<union> lf_handled l
     \<and> (\<forall>c \<in> lf_open l - lf_accepted l.
          if sd_closed (lf_server l) then CloseConnection c \<in> set (lf_closing l) else c \<in> set (sd_conns (lf_server l)))
     \<and> (lf_listening l \<longrightarrow>
          (if sd_closed (lf_server l) then \<exists>ln. CloseListener ln \<in> set (lf_closing l) else sd_ln (lf_server l) \<noteq> None))"

lemma life_step_ok: "life_step l l' \<Longrightarrow> life_ok l \<Longrightarrow> life_ok l'"
proof (induction rule: life_step.induct)
  case (serve l ln d)
  then show ?case by (auto simp: life_ok_def serve_begin_def split: if_splits)
next
  case (accept l c)
  then show ?case by (auto simp: life_ok_def)
next
  case (begin_handler c l d shut)
  then show ?case by (auto simp: life_ok_def track_def split: if_splits)
next
  case (peer_gone l c)
  then show ?case by (auto simp: life_ok_def)
next
  case (end_handler c l d shut)
  then show ?case by (auto simp: life_ok_def track_def split: if_splits)
next
  case (close l d todo)
  then show ?case by (auto simp: life_ok_def sshd_Close_def)
next
  case (shut_listener l ln todo)
  then show ?case by (auto simp: life_ok_def)
next
  case (shut_connection l c todo)
  then show ?case by (auto simp: life_ok_def)
qed

lemma life_start_ok: "life_ok (life_start d)"
  by (simp add: life_ok_def life_start_def)



text \<open>
  Why once: a second \<^verbatim>\<open>Serve\<close> replaces the listener \<^verbatim>\<open>Close\<close> knows of, which then leaves the first one open,
  though \<^verbatim>\<open>Close\<close> is said to stop accepting.
\<close>

lemma second_listener_forgotten:
  assumes "\<not> sd_closed d"
  shows "CloseListener ln \<in> set (snd (sshd_Close (fst (serve_begin ln' (fst (serve_begin ln d)))))) \<longleftrightarrow> ln = ln'"
  using assms by (auto simp: serve_begin_def sshd_Close_def)

text \<open>What \<^verbatim>\<open>Serve\<close> returns once \<^verbatim>\<open>Accept\<close> fails says whether it was asked to stop.\<close>

lemma serve_failed_closed: "serve_failed err (fst (sshd_Close d)) = ErrServerClosed"
  by (simp add: serve_failed_def sshd_Close_def)

end
