(* ===== verification/Demo.thy ===== *)
theory Demo
  imports Sshd_Life Attr "HOL-Library.Sublist"
begin

text \<open>
  The command that serves a FAT32 image, \<^verbatim>\<open>fat32demo/demo/demo.go\<close>: its command line, with what the \<^verbatim>\<open>flag\<close> and
  \<^verbatim>\<open>strconv\<close> packages do for the six flags it declares, the assembly of the server with every error path, and
  the exit code. The driver, the file system of the host and the SSH library are parameters; what the command prints
  is left out.
\<close>

subsection \<open>Values of flags\<close>

definition ParseBool :: "string \<Rightarrow> bool option" where
  "ParseBool s =
     (if s \<in> {''1'', ''t'', ''T'', ''true'', ''TRUE'', ''True''} then Some True
      else if s \<in> {''0'', ''f'', ''F'', ''false'', ''FALSE'', ''False''} then Some False
      else None)"

definition digit_value :: "char \<Rightarrow> nat option" where
  "digit_value c =
     (let n = of_char c :: nat; l = of_char (lower_char c) :: nat in
      if 48 \<le> n \<and> n \<le> 57 then Some (n - 48)
      else if 97 \<le> l \<and> l \<le> 122 then Some (l - 97 + 10)
      else None)"

text \<open>The digits of a number in a base; underscores are passed over and checked for their places afterwards.\<close>

fun number :: "nat \<Rightarrow> string \<Rightarrow> nat \<Rightarrow> nat option" where
  "number b [] n = Some n"
| "number b (c # s) n =
     (if c = CHR ''_'' then number b s n
      else (case digit_value c of
        None \<Rightarrow> None
      | Some d \<Rightarrow> if b \<le> d then None else number b s (n * b + d)))"

datatype seen_class = AtStart | Digit | Underscore | Other

fun underscores :: "bool \<Rightarrow> seen_class \<Rightarrow> string \<Rightarrow> bool" where
  "underscores hexa saw [] \<longleftrightarrow> saw \<noteq> Underscore"
| "underscores hexa saw (c # s) \<longleftrightarrow>
     (if (case digit_value c of None \<Rightarrow> False | Some d \<Rightarrow> d < (if hexa then 16 else 10)) then underscores hexa Digit s
      else if c = CHR ''_'' then saw = Digit \<and> underscores hexa Underscore s
      else saw \<noteq> Underscore \<and> underscores hexa Other s)"

definition prefix_of :: "string \<Rightarrow> char \<Rightarrow> bool" where
  "prefix_of s p \<longleftrightarrow> 2 \<le> length s \<and> s ! 0 = CHR ''0'' \<and> lower_char (s ! 1) = p"

definition underscoreOK :: "string \<Rightarrow> bool" where
  "underscoreOK s =
     (if prefix_of s (CHR ''b'') \<or> prefix_of s (CHR ''o'') \<or> prefix_of s (CHR ''x'')
      then underscores (prefix_of s (CHR ''x'')) Digit (drop 2 s)
      else underscores False AtStart s)"

text \<open>\<^verbatim>\<open>strconv.ParseUint(s, 0, 64)\<close>, without its bound, which the bound of the signed result implies.\<close>

definition ParseUint :: "string \<Rightarrow> nat option" where
  "ParseUint s =
     (if s = [] then None
      else
        let (b, ds) =
              (if s ! 0 \<noteq> CHR ''0'' then (10, s)
               else if 3 \<le> length s \<and> lower_char (s ! 1) = CHR ''b'' then (2, drop 2 s)
               else if 3 \<le> length s \<and> lower_char (s ! 1) = CHR ''o'' then (8, drop 2 s)
               else if 3 \<le> length s \<and> lower_char (s ! 1) = CHR ''x'' then (16, drop 2 s)
               else (8, drop 1 s))
        in (case number b ds 0 of
              None \<Rightarrow> None
            | Some n \<Rightarrow> if CHR ''_'' \<in> set ds \<and> \<not> underscoreOK s then None else Some n))"

definition ParseInt :: "string \<Rightarrow> int option" where
  "ParseInt s =
     (if s = [] then None
      else
        let neg = (s ! 0 = CHR ''-'');
            s = (if s ! 0 = CHR ''-'' \<or> s ! 0 = CHR ''+'' then drop 1 s else s)
        in (case ParseUint s of
              None \<Rightarrow> None
            | Some n \<Rightarrow>
                if \<not> neg \<and> 2 ^ 63 \<le> int n \<or> neg \<and> 2 ^ 63 < int n then None
                else Some (if neg then - int n else int n)))"

subsection \<open>The command line\<close>

record Options =
  op_Image :: string
  op_Addr :: string
  op_HostKey :: string
  op_AuthorizedKeys :: string
  op_ReadWrite :: bool
  op_Partition :: int

definition defaultOptions :: Options where
  "defaultOptions = \<lparr>op_Image = '''', op_Addr = ''127.0.0.1:2222'', op_HostKey = '''', op_AuthorizedKeys = '''',
     op_ReadWrite = False, op_Partition = -1\<rparr>"

datatype flagerr = BadSyntax string | Undefined string | NeedsArgument string | InvalidValue string string | ErrHelp

definition declared :: "string \<Rightarrow> bool" where
  "declared name \<longleftrightarrow> name \<in> {''image'', ''addr'', ''host-key'', ''authorized-keys'', ''rw'', ''partition''}"

definition set_flag :: "string \<Rightarrow> string \<Rightarrow> Options \<Rightarrow> Options option" where
  "set_flag name v opts =
     (if name = ''image'' then Some (opts\<lparr>op_Image := v\<rparr>)
      else if name = ''addr'' then Some (opts\<lparr>op_Addr := v\<rparr>)
      else if name = ''host-key'' then Some (opts\<lparr>op_HostKey := v\<rparr>)
      else if name = ''authorized-keys'' then Some (opts\<lparr>op_AuthorizedKeys := v\<rparr>)
      else if name = ''rw'' then map_option (\<lambda>b. opts\<lparr>op_ReadWrite := b\<rparr>) (ParseBool v)
      else map_option (\<lambda>n. opts\<lparr>op_Partition := n\<rparr>) (ParseInt v))"

text \<open>Name and value of \<^verbatim>\<open>name=value\<close>; the first character is never taken for the separator.\<close>

definition split_flag :: "string \<Rightarrow> string \<times> string option" where
  "split_flag s =
     (case dropWhile (\<lambda>c. c \<noteq> CHR ''='') (drop 1 s) of
        [] \<Rightarrow> (s, None)
      | _ # v \<Rightarrow> (take 1 s @ takeWhile (\<lambda>c. c \<noteq> CHR ''='') (drop 1 s), Some v))"

text \<open>\<^verbatim>\<open>FlagSet.Parse\<close>: one flag after the other, up to the first argument that is not a flag.\<close>

fun parse_flags :: "string list \<Rightarrow> Options \<Rightarrow> flagerr + Options" where
  "parse_flags [] opts = Inr opts"
| "parse_flags (s # args) opts =
     (if length s < 2 \<or> s ! 0 \<noteq> CHR ''-'' \<or> s = ''--'' then Inr opts
      else
        let name = drop (if s ! 1 = CHR ''-'' then 2 else 1) s in
        if name = [] \<or> name ! 0 = CHR ''-'' \<or> name ! 0 = CHR ''='' then Inl (BadSyntax s)
        else (case split_flag name of (name, v) \<Rightarrow>
          if \<not> declared name then Inl (if name = ''help'' \<or> name = ''h'' then ErrHelp else Undefined name)
          else if name = ''rw'' then
            (case set_flag name (case v of Some v \<Rightarrow> v | None \<Rightarrow> ''true'') opts of
               None \<Rightarrow> Inl (InvalidValue name (case v of Some v \<Rightarrow> v | None \<Rightarrow> ''true''))
             | Some opts \<Rightarrow> parse_flags args opts)
          else
            (case v of
               Some v \<Rightarrow>
                 (case set_flag name v opts of None \<Rightarrow> Inl (InvalidValue name v) | Some opts \<Rightarrow> parse_flags args opts)
             | None \<Rightarrow>
                 (case args of
                    [] \<Rightarrow> Inl (NeedsArgument name)
                  | v # args \<Rightarrow>
                      (case set_flag name v opts of None \<Rightarrow> Inl (InvalidValue name v) | Some opts \<Rightarrow> parse_flags args opts)))))"

datatype argerr = FlagError flagerr | NoImage | NoAuthorizedKeysFile

definition ParseArgs :: "string list \<Rightarrow> argerr + Options" where
  "ParseArgs args =
     (case parse_flags args defaultOptions of
        Inl err \<Rightarrow> Inl (FlagError err)
      | Inr opts \<Rightarrow>
          if op_Image opts = '''' then Inl NoImage
          else if op_AuthorizedKeys opts = '''' then Inl NoAuthorizedKeysFile
          else Inr opts)"

subsection \<open>Assembling the server\<close>

text \<open>
  What the command reaches outside itself: \<^verbatim>\<open>fat32.Open\<close>, \<^verbatim>\<open>os.ReadFile\<close>, and of the SSH library the parser of
  key lines, \<^verbatim>\<open>ParsePrivateKey\<close> and \<^verbatim>\<open>NewSignerFromKey\<close>, and the making of a key.
\<close>

record 'w Host =
  ho_openImage :: "string \<Rightarrow> int \<Rightarrow> goerr + 'w Filesystem option"
  ho_ReadFile :: "string \<Rightarrow> goerr + bytes"
  ho_ParseAuthorizedKey :: key_parser
  ho_ParsePrivateKey :: "bytes \<Rightarrow> goerr + bytes"
  ho_GenerateKey :: "goerr + bytes"
  ho_NewSignerFromKey :: "bytes \<Rightarrow> goerr + bytes"
  ho_ssh :: SshLib

datatype builderr = OpenImage goerr | FromSftp newerr | FromHost goerr | FromSshd sshd_newerr

definition hostKeys :: "'w Host \<Rightarrow> Options \<Rightarrow> goerr + bytes list" where
  "hostKeys ho opts =
     (if op_HostKey opts = '''' then map_sum id (\<lambda>k. [k]) (GenerateHostKey (ho_GenerateKey ho) (ho_NewSignerFromKey ho))
      else (case ho_ReadFile ho (op_HostKey opts) of
        Inl err \<Rightarrow> Inl err
      | Inr pem \<Rightarrow> map_sum id (\<lambda>k. [k]) (ParseHostKey (ho_ParsePrivateKey ho) pem)))"

definition demoConfig :: "bytes list \<Rightarrow> PublicKey list \<Rightarrow> 's Config" where
  "demoConfig hk keys = \<lparr>cf_HostKeys = hk, cf_AuthorizedKeys = keys, cf_PublicKeyFor = None, cf_TrustedUserCAs = [],
     cf_CertificateFor = None, cf_Password = None, cf_ServerFor = None, cf_ServerForLogin = None, cf_Banner = ''''\<rparr>"

text \<open>
  The result of \<^verbatim>\<open>Build\<close> and how often it closed the image. It is \<^const>\<open>None\<close> only if the reading of the keys
  does not end.
\<close>

definition Build :: "'w Host \<Rightarrow> i64 \<Rightarrow> Options \<Rightarrow> ((builderr + 'w Server Sshd) \<times> nat) option" where
  "Build ho now opts =
     (case ho_openImage ho (op_Image opts) (op_Partition opts) of
        Inl err \<Rightarrow> Some (Inl (OpenImage err), 0)
      | Inr fsys \<Rightarrow>
          (case New now fsys (if op_ReadWrite opts then [ReadWrite] else []) of
             Inl err \<Rightarrow> Some (Inl (FromSftp err), 0)
           | Inr srv \<Rightarrow>
               (case ho_ReadFile ho (op_AuthorizedKeys opts) of
                  Inl err \<Rightarrow> Some (Inl (FromHost err), 1)
                | Inr ak \<Rightarrow>
                    (case ParseAuthorizedKeys (ho_ParseAuthorizedKey ho) ak of
                       None \<Rightarrow> None
                     | Some (Inl err) \<Rightarrow> Some (Inl (FromHost err), 1)
                     | Some (Inr keys) \<Rightarrow>
                         (case hostKeys ho opts of
                            Inl err \<Rightarrow> Some (Inl (FromHost err), 1)
                          | Inr hk \<Rightarrow>
                              (case sshd_New (ho_ssh ho) (Some srv) (demoConfig hk keys) of
                                 Inl err \<Rightarrow> Some (Inl (FromSshd err), 1)
                               | Inr d \<Rightarrow> Some (Inr d, 0)))))))"

subsection \<open>Running\<close>

datatype runerr = BuildFailed builderr | ListenFailed goerr | ServeFailed serve_error

text \<open>
  What happens around the server: what \<^verbatim>\<open>net.Listen\<close> returns, what \<^verbatim>\<open>d.Serve\<close> returns if it does, whether the
  context is cancelled by then, and whether the goroutine that waits for the cancellation and closes the server ever
  ends.
\<close>

record surroundings =
  su_listen :: error
  su_serve :: "serve_error option"
  su_cancelled :: bool
  su_stopped :: bool

text \<open>What \<^verbatim>\<open>Run\<close> returns, if it does, and how often the image was closed, by \<^verbatim>\<open>Build\<close> or by the deferred call.\<close>

definition Run :: "'w Host \<Rightarrow> i64 \<Rightarrow> surroundings \<Rightarrow> Options \<Rightarrow> (runerr option \<times> nat) option" where
  "Run ho now su opts =
     (case Build ho now opts of
        None \<Rightarrow> None
      | Some (Inl err, closes) \<Rightarrow> Some (Some (BuildFailed err), closes)
      | Some (Inr d, closes) \<Rightarrow>
          (case su_listen su of
             Some err \<Rightarrow> Some (Some (ListenFailed err), closes + 1)
           | None \<Rightarrow>
               (case su_serve su of
                  None \<Rightarrow> None
                | Some err \<Rightarrow>
                    if su_stopped su
                    then Some (if err = ErrServerClosed \<and> su_cancelled su then None else Some (ServeFailed err), closes + 1)
                    else None)))"

definition Main :: "'w Host \<Rightarrow> i64 \<Rightarrow> surroundings \<Rightarrow> string list \<Rightarrow> int option" where
  "Main ho now su args =
     (case ParseArgs args of
        Inl err \<Rightarrow> Some (if err = FlagError ErrHelp then 0 else 2)
      | Inr opts \<Rightarrow>
          (case Run ho now su opts of
             None \<Rightarrow> None
           | Some (err, _) \<Rightarrow> Some (if err \<noteq> None \<and> err \<noteq> Some (ServeFailed ErrServerClosed) then 1 else 0)))"

subsection \<open>Numbers\<close>

lemma number_append: "number b (s @ t) n = Option.bind (number b s n) (number b t)"
  by (induction s arbitrary: n) (auto split: option.split)

lemma digit_code: "d < 10 \<Longrightarrow> of_char (digit d) = 48 + d"
  by (simp add: digit_def of_char_of)

lemma digit_value_digit: "d < 10 \<Longrightarrow> digit_value (digit d) = Some d"
  by (simp add: digit_value_def Let_def digit_code)

lemma digit_neq: "d < 10 \<Longrightarrow> of_char c < (48 :: nat) \<or> 57 < (of_char c :: nat) \<Longrightarrow> digit d \<noteq> c"
  using digit_code [of d] by auto

lemma number_digit: "d < 10 \<Longrightarrow> number 10 [digit d] n = Some (n * 10 + d)"
  using digit_neq [of d "CHR ''_''"] by (simp add: digit_value_digit)

lemma number_decimal: "number 10 (decimal n) 0 = Some n"
proof (induction n rule: decimal.induct)
  case (1 n)
  show ?case
  proof (cases "n < 10")
    case True
    then show ?thesis using number_digit [of n 0] by (simp add: decimal.simps [of n] del: number.simps)
  next
    case False
    with 1 show ?thesis
      by (simp add: decimal.simps [of n] number_append number_digit del: number.simps)
  qed
qed

lemma decimal_digits: "c \<in> set (decimal n) \<Longrightarrow> \<exists>d < 10. c = digit d"
proof (induction n rule: decimal.induct)
  case (1 n)
  have "\<exists>d < 10. digit (n mod 10) = digit d" by (intro exI [of _ "n mod 10"]) simp
  with 1 show ?case by (cases "n < 10") (auto simp: decimal.simps [of n])
qed

lemma decimal_not_digit: "of_char c < (48 :: nat) \<or> 57 < (of_char c :: nat) \<Longrightarrow> c \<notin> set (decimal n)"
  using decimal_digits digit_neq by metis

lemma decimal_first: "0 < n \<Longrightarrow> decimal n \<noteq> [] \<and> decimal n ! 0 \<noteq> CHR ''0''"
proof (induction n rule: decimal.induct)
  case (1 n)
  show ?case
  proof (cases "n < 10")
    case True
    with 1(2) have "(of_char (digit n) :: nat) \<noteq> of_char (CHR ''0'')" by (simp add: digit_code)
    with True show ?thesis by (auto simp: decimal.simps [of n])
  next
    case False
    with 1(1) show ?thesis by (simp add: decimal.simps [of n] nth_append)
  qed
qed

lemma ParseUint_decimal: "ParseUint (decimal n) = Some n"
proof (cases "n = 0")
  case True
  have "ParseUint (decimal 0) = Some 0" by code_simp
  with True show ?thesis by simp
next
  case False
  have "CHR ''_'' \<notin> set (decimal n)" by (rule decimal_not_digit) simp
  with False decimal_first [of n] number_decimal [of n] show ?thesis by (simp add: ParseUint_def)
qed

definition int_text :: "int \<Rightarrow> string" where
  "int_text n = (if n < 0 then CHR ''-'' # decimal (nat (- n)) else decimal (nat n))"

lemma ParseInt_text:
  assumes "- (2 ^ 63) \<le> n" "n < 2 ^ 63"
  shows "ParseInt (int_text n) = Some n"
proof (cases "n < 0")
  case True
  with assms show ?thesis by (simp add: ParseInt_def int_text_def ParseUint_decimal)
next
  case False
  have "decimal (nat n) \<noteq> []" by (simp add: decimal.simps [of "nat n"])
  then have "decimal (nat n) ! 0 \<in> set (decimal (nat n))" by simp
  then have "decimal (nat n) ! 0 \<noteq> CHR ''-''" "decimal (nat n) ! 0 \<noteq> CHR ''+''"
    using decimal_not_digit [of "CHR ''-''" "nat n"] decimal_not_digit [of "CHR ''+''" "nat n"] by auto
  with False \<open>decimal (nat n) \<noteq> []\<close> assms show ?thesis by (simp add: ParseInt_def int_text_def ParseUint_decimal)
qed

subsection \<open>Properties\<close>

definition args_of :: "Options \<Rightarrow> string list" where
  "args_of opts = [''-image'', op_Image opts, ''-addr'', op_Addr opts, ''-host-key'', op_HostKey opts,
     ''-authorized-keys'', op_AuthorizedKeys opts, (if op_ReadWrite opts then ''-rw'' else ''-rw=false''),
     ''-partition'', int_text (op_Partition opts)]"

text \<open>C32: Every configuration can be written down and read back. For any options with an image and a keys file and
  a partition number of 64 bits, the command line that spells them out parses to exactly these options, whatever
  characters the values have, a leading dash or an equals sign included.\<close>

theorem command_line_roundtrip:
  assumes "op_Image opts \<noteq> ''''" "op_AuthorizedKeys opts \<noteq> ''''"
    and "- (2 ^ 63) \<le> op_Partition opts" "op_Partition opts < 2 ^ 63"
  shows "ParseArgs (args_of opts) = Inr opts"
proof -
  have "parse_flags (args_of opts) defaultOptions = Inr opts"
    using ParseInt_text [OF assms(3,4)]
    by (simp add: args_of_def split_flag_def declared_def set_flag_def ParseBool_def defaultOptions_def)
  with assms(1,2) show ?thesis by (simp add: ParseArgs_def)
qed

theorem command_line_roundtrip_witness:
  "ParseArgs [''-image'', ''-x=1'', ''-addr'', [], ''-host-key'', [], ''-authorized-keys'', ''ak'', ''-rw'', ''-partition'', ''-1'']
     = Inr \<lparr>op_Image = ''-x=1'', op_Addr = [], op_HostKey = [], op_AuthorizedKeys = ''ak'', op_ReadWrite = True, op_Partition = -1\<rparr>"
proof -
  have "int_text (-1) = ''-1''" by code_simp
  with command_line_roundtrip [of "\<lparr>op_Image = ''-x=1'', op_Addr = [], op_HostKey = [], op_AuthorizedKeys = ''ak'',
    op_ReadWrite = True, op_Partition = -1\<rparr>"] show ?thesis by (simp add: args_of_def)
qed

lemma split_flag_rw: "split_flag s = (''rw'', v) \<Longrightarrow> take 2 s = ''rw''"
proof -
  assume split: "split_flag s = (''rw'', v)"
  let ?p = "\<lambda>c. c \<noteq> CHR ''=''"
  have "prefix ''rw'' s"
  proof (cases "dropWhile ?p (drop 1 s)")
    case Nil
    from split [unfolded split_flag_def Nil] show ?thesis by simp
  next
    case (Cons c cs)
    from split [unfolded split_flag_def Cons] have "''rw'' = take 1 s @ takeWhile ?p (drop 1 s)" by simp
    also have "prefix \<dots> (take 1 s @ drop 1 s)" using takeWhile_is_prefix same_prefix_prefix by blast
    finally show ?thesis by simp
  qed
  then show ?thesis by (auto simp: prefix_def)
qed

definition rw_flag :: "string \<Rightarrow> bool" where
  "rw_flag s \<longleftrightarrow> take 3 s = ''-rw'' \<or> take 4 s = ''--rw''"

lemma rw_flag_name:
  assumes "\<not> length s < 2" "s ! 0 = CHR ''-''" "split_flag (drop (if s ! 1 = CHR ''-'' then 2 else 1) s) = (''rw'', v)"
  shows "rw_flag s"
proof (cases s rule: list.exhaust)
  case (Cons a t)
  then obtain b u where "s = a # b # u" using assms(1) by (cases t) auto
  with split_flag_rw [OF assms(3)] assms(2) show ?thesis by (auto simp: rw_flag_def split: if_splits)
qed (use assms(1) in simp)

lemma set_flag_ReadWrite:
  "set_flag name v opts = Some opts' \<Longrightarrow> name \<noteq> ''rw'' \<Longrightarrow> op_ReadWrite opts' = op_ReadWrite opts"
  by (auto simp: set_flag_def split: if_splits)

lemma parse_flags_ReadWrite:
  "parse_flags args opts = Inr opts' \<Longrightarrow> op_ReadWrite opts' \<Longrightarrow> op_ReadWrite opts \<or> (\<exists>s \<in> set args. rw_flag s)"
proof (induction args opts rule: parse_flags.induct)
  case (2 s args opts)
  show ?case
  proof (cases "rw_flag s")
    case False
    let ?name = "drop (if s ! 1 = CHR ''-'' then 2 else 1) s"
    obtain name v where nv: "split_flag ?name = (name, v)" by fastforce
    show ?thesis
    proof (cases "length s < 2 \<or> s ! 0 \<noteq> CHR ''-'' \<or> s = ''--''")
      case True
      with 2 show ?thesis by simp
    next
      case flag: False
      with nv False have "name \<noteq> ''rw''" using rw_flag_name by blast
      with 2 nv flag show ?thesis
        by (auto simp: Let_def dest: set_flag_ReadWrite split: if_splits option.splits list.splits) (metis set_flag_ReadWrite)+
    qed
  qed simp
qed simp

subsection \<open>Properties of the whole command\<close>

lemma New_demo:
  "\<exists>srv. New now (Some fsys) (if rw then [ReadWrite] else []) = Inr srv \<and> sv_fsys srv = fsys \<and> ReadOnly srv = (\<not> rw)"
  by (auto simp: New_def Let_def ReadWrite_def ReadOnly_def)

lemma Build_cases:
  obtains (unopened) err where "Build ho now opts = Some (Inl err, 0)"
      "\<nexists>fsys. ho_openImage ho (op_Image opts) (op_Partition opts) = Inr (Some fsys)"
  | (refused) fsys err where "Build ho now opts = Some (Inl err, 1)"
      "ho_openImage ho (op_Image opts) (op_Partition opts) = Inr (Some fsys)"
  | (built) fsys srv ak keys hk d where "Build ho now opts = Some (Inr d, 0)"
      "ho_openImage ho (op_Image opts) (op_Partition opts) = Inr (Some fsys)"
      "New now (Some fsys) (if op_ReadWrite opts then [ReadWrite] else []) = Inr srv"
      "ho_ReadFile ho (op_AuthorizedKeys opts) = Inr ak" "ParseAuthorizedKeys (ho_ParseAuthorizedKey ho) ak = Some (Inr keys)"
      "sshd_New (ho_ssh ho) (Some srv) (demoConfig hk keys) = Inr d"
  | (endless) ak where "Build ho now opts = None"
      "ho_ReadFile ho (op_AuthorizedKeys opts) = Inr ak" "ParseAuthorizedKeys (ho_ParseAuthorizedKey ho) ak = None"
proof (cases "ho_openImage ho (op_Image opts) (op_Partition opts)")
  case (Inl err)
  then show ?thesis using unopened by (simp add: Build_def)
next
  case (Inr fo)
  show ?thesis
  proof (cases fo)
    case None
    with Inr show ?thesis using unopened by (simp add: Build_def New_def)
  next
    case (Some fsys)
    obtain srv where srv: "New now (Some fsys) (if op_ReadWrite opts then [ReadWrite] else []) = Inr srv"
      using New_demo by blast
    note build = Build_def [of ho now opts, unfolded Inr Some sum.case srv]
    show ?thesis
    proof (cases "\<exists>d. Build ho now opts = Some (Inr d, 0)")
      case True
      then obtain d where d: "Build ho now opts = Some (Inr d, 0)" by blast
      then obtain ak keys hk where "ho_ReadFile ho (op_AuthorizedKeys opts) = Inr ak"
        "ParseAuthorizedKeys (ho_ParseAuthorizedKey ho) ak = Some (Inr keys)"
        "sshd_New (ho_ssh ho) (Some srv) (demoConfig hk keys) = Inr d"
        unfolding build by (auto split: option.splits sum.splits)
      with d show ?thesis using Inr Some srv by (intro built) auto
    next
      case False
      with build have "(\<exists>err. Build ho now opts = Some (Inl err, 1)) \<or> Build ho now opts = None
        \<and> (\<exists>ak. ho_ReadFile ho (op_AuthorizedKeys opts) = Inr ak \<and> ParseAuthorizedKeys (ho_ParseAuthorizedKey ho) ak = None)"
        by (auto split: option.splits sum.splits)
      then show ?thesis using Inr Some refused endless by auto
    qed
  qed
qed

lemma demoConfig_New:
  fixes srv :: 's
  assumes "sshd_New L (Some srv) (demoConfig hk keys) = Inr d"
  shows "keys \<noteq> []" "sd_sftp d = Some srv" "chooseServer d user perms = Inr (Some srv)"
    "sc_PasswordCallback (sd_cfg d) = None" "sc_PublicKeyCallback (sd_cfg d) = Some (publicKeyCallback L (demoConfig hk keys :: 's Config))"
    "(\<exists>p. publicKeyCallback L (demoConfig hk keys :: 's Config) user key = Inr p) \<longleftrightarrow> pk_Marshal key \<in> set (map pk_Marshal keys)"
proof -
  have keys: "acceptsKeys (demoConfig hk keys :: 's Config) \<longleftrightarrow> keys \<noteq> []" by (simp add: acceptsKeys_def demoConfig_def)
  show ne: "keys \<noteq> []" using assms by (auto simp: sshd_New_def demoConfig_def split: if_splits)
  note d = sshd_New_Inr [OF assms]
  show "sd_sftp d = Some srv" "chooseServer d user perms = Inr (Some srv)"
    using d by (simp_all add: chooseServer_def demoConfig_def)
  show "sc_PasswordCallback (sd_cfg d) = None" "sc_PublicKeyCallback (sd_cfg d) = Some (publicKeyCallback L (demoConfig hk keys :: 's Config))"
    using d ne by (simp_all add: serverConfig_def demoConfig_def acceptsKeys_def)
  have "publicKeyCallback L (demoConfig hk keys :: 's Config) user key = byKey (demoConfig hk keys :: 's Config) user key"
    using keys ne by (simp add: publicKeyCallback_def checkKey_def split: option.split) (simp add: demoConfig_def)
  then show "(\<exists>p. publicKeyCallback L (demoConfig hk keys :: 's Config) user key = Inr p) \<longleftrightarrow> pk_Marshal key \<in> set (map pk_Marshal keys)"
    by (simp add: byKey_Inr) (simp add: demoConfig_def marshals_def)
qed

text \<open>C27: The command serves the image it was given, to the keys it was given, and read-only unless told otherwise.
  When a command line parses and the server is assembled, the image is open and has not been closed; every login gets
  a server of that image; the only way in is a public key, and exactly the keys of the file named on the command line
  get in, of which there is at least one; and the server accepts changes only if \<^verbatim>\<open>-rw\<close> stands on the command line.\<close>

theorem demo_serves_as_asked:
  assumes "ParseArgs args = Inr opts" "Build ho now opts = Some (Inr d, closes)"
  shows "closes = 0 \<and> (\<exists>fsys srv ak keys callback.
      ho_openImage ho (op_Image opts) (op_Partition opts) = Inr (Some fsys) \<and> sv_fsys srv = fsys
      \<and> chooseServer d user perms = Inr (Some srv)
      \<and> ho_ReadFile ho (op_AuthorizedKeys opts) = Inr ak \<and> ParseAuthorizedKeys (ho_ParseAuthorizedKey ho) ak = Some (Inr keys)
      \<and> keys \<noteq> [] \<and> sc_PasswordCallback (sd_cfg d) = None \<and> sc_PublicKeyCallback (sd_cfg d) = Some callback
      \<and> ((\<exists>p. callback user key = Inr p) \<longleftrightarrow> pk_Marshal key \<in> set (map pk_Marshal keys))
      \<and> (ReadOnly srv \<longleftrightarrow> \<not> op_ReadWrite opts)
      \<and> (\<not> ReadOnly srv \<longrightarrow> (\<exists>s \<in> set args. rw_flag s)))"
proof (cases rule: Build_cases [of ho now opts, case_names unopened refused built endless])
  case (built fsys srv ak keys hk d')
  with assms(2) have d: "d' = d" "closes = 0" by auto
  have "parse_flags args defaultOptions = Inr opts" using assms(1) by (auto simp: ParseArgs_def split: sum.splits if_splits)
  from parse_flags_ReadWrite [OF this] have "op_ReadWrite opts \<longrightarrow> (\<exists>s \<in> set args. rw_flag s)" by (simp add: defaultOptions_def)
  moreover have "sv_fsys srv = fsys" "ReadOnly srv = (\<not> op_ReadWrite opts)"
    using built(3) New_demo [of now fsys "op_ReadWrite opts"] by auto
  moreover note demoConfig_New [OF built(6) [unfolded d]] built d
  ultimately show ?thesis by blast
qed (use assms(2) in auto)


text \<open>
  The wait for \<^verbatim>\<open>stopped\<close> at the end of \<^verbatim>\<open>Run\<close> is a wait for the cancellation. When \<^verbatim>\<open>Serve\<close> gives up on its own,
  because \<^verbatim>\<open>Accept\<close> failed, nothing cancels the context, and the command neither serves nor ends.
\<close>

lemma run_hangs_after_failure:
  assumes "Build ho now opts = Some (Inr d, n)" "su_listen su = None" "su_serve su = Some (AcceptFailed err)" "\<not> su_stopped su"
  shows "Run ho now su opts = None"
  using assms by (simp add: Run_def)

subsection \<open>A host to evaluate at\<close>

definition exampleHost :: "memFS Host" where
  "exampleHost = \<lparr>
     ho_openImage = (\<lambda>path part. if path = ''disk'' then Inr (Some bareFS) else Inl (new_error ''no such file'')),
     ho_ReadFile = (\<lambda>path. if path = ''ak'' then Inr [65, 10, 66, 10] else Inl (new_error ''no such file'')),
     ho_ParseAuthorizedKey = lineParser,
     ho_ParsePrivateKey = (\<lambda>pem. Inr pem),
     ho_GenerateKey = Inr [1],
     ho_NewSignerFromKey = (\<lambda>priv. Inr priv),
     ho_ssh = exampleLib\<rparr>"

definition exampleOptions :: Options where
  "exampleOptions = defaultOptions\<lparr>op_Image := ''disk'', op_AuthorizedKeys := ''ak''\<rparr>"

lemma example_args: "ParseArgs [''-image'', ''disk'', ''-authorized-keys'', ''ak''] = Inr exampleOptions"
  by (simp add: ParseArgs_def split_flag_def declared_def set_flag_def defaultOptions_def exampleOptions_def)

lemma example_keys: "ParseAuthorizedKeys lineParser [65, 10, 66, 10] =
    Some (Inr [\<lparr>pk_Marshal = [65], pk_Certificate = None\<rparr>, \<lparr>pk_Marshal = [66], pk_Certificate = None\<rparr>])"
  by (simp add: ParseAuthorizedKeys_def parse_keys.simps)

lemma example_Build: "\<exists>d. Build exampleHost now exampleOptions = Some (Inr d, 0)"
proof (cases rule: Build_cases [of exampleHost now exampleOptions, case_names unopened refused built endless])
  case (refused fsys err)
  then show ?thesis
    by (auto simp: Build_def exampleHost_def exampleOptions_def defaultOptions_def example_keys hostKeys_def GenerateHostKey_def sshd_New_def
        demoConfig_def New_def Let_def split: if_splits)
qed (auto simp: exampleHost_def exampleOptions_def example_keys)

theorem demo_serves_as_asked_witness:
  "\<exists>d srv. Build exampleHost 0 exampleOptions = Some (Inr d, 0)
     \<and> chooseServer d ''bob'' noPermissions = Inr (Some srv) \<and> ReadOnly srv"
proof -
  obtain d where d: "Build exampleHost 0 exampleOptions = Some (Inr d, 0)" using example_Build by blast
  have "\<not> op_ReadWrite exampleOptions" by (simp add: exampleOptions_def defaultOptions_def)
  with demo_serves_as_asked [OF example_args d, of "''bob''" noPermissions] d show ?thesis by blast
qed


end
