(* ===== verification/Spec2Isabelle.thy ===== *)
theory Spec2Isabelle
  imports Transfers Directories Divergences Demo
begin

text \<open>
  A verification development for \<^verbatim>\<open>go-filesystems/sftp\<close>: an SFTP version 3 server over a pluggable filesystem
  driver, its SSH front-end, and the command that serves a FAT32 image with both. Paths below are under \<^verbatim>\<open>src/\<close>.

  \<^bold>\<open>The program.\<close> \<^verbatim>\<open>wire/\<close> is the encoding: primitive values, the ATTRS structure, the message types and the framing
  of packets. The root package is the server: \<^verbatim>\<open>New\<close> builds a \<^verbatim>\<open>Server\<close> for one filesystem, \<^verbatim>\<open>Serve\<close> runs one session
  over a stream, reading packets, dispatching each to its handler, and writing one reply for each; handlers resolve the
  client's paths, call the driver under a lock, keep open files and directories in a table of handles, and turn errors
  into status codes. \<^verbatim>\<open>sshd/\<close> authenticates users, gives each connection a server and runs sessions on its channels.
  \<^verbatim>\<open>fat32demo/\<close> parses a command line and assembles all of it.

  \<^bold>\<open>Conventions.\<close> A Go struct is a record whose fields carry a short prefix; a machine integer is a word of its width,
  or an integer where the source cannot overflow and says so; an error is a value of a sum or option type, and a panic
  (an index or slice out of range) is a value too, so that its absence is a theorem. Stateful code is an action of the
  state monad over a session record: the driver's world, the table of handles, and the trace of calls the driver has
  received. Code outside the repository is a parameter: the driver (a record of operations, \<open>Filesystem\<close>), the random
  source and \<^verbatim>\<open>hostcopy\<close> (\<open>Env\<close>), the order in which Go ranges over a map, the SSH library, the operating system.

  \<^bold>\<open>Theories.\<close>
  \<^item> \<open>Sftp_Prelude\<close>: lists, slices, overlays, words and big-endian values, shared by all others.
  \<^item> \<open>Wire_Const\<close>, \<open>Wire_Codec\<close>, \<open>Wire_Attrs\<close>, \<open>Wire_Messages\<close>, \<open>Wire_Packet\<close>: the files of \<^verbatim>\<open>wire/\<close> of the same
    names. The locales \<open>codec\<close> and \<open>message_codec\<close> say what an encoder and its decoder owe each other and are
    interpreted on every pair of them. Shown: decoders accept exactly what encoders write, never panic, and stay within
    their limits; packets survive the stream.
  \<^item> \<open>Paths\<close> (\<^verbatim>\<open>path.go\<close>), \<open>Driver_Errors\<close> (\<^verbatim>\<open>errors.go\<close>), \<open>Attr\<close> (\<^verbatim>\<open>attr.go\<close>), \<open>Server\<close> (\<^verbatim>\<open>server.go\<close>, \<^verbatim>\<open>limits.go\<close>,
    \<^verbatim>\<open>file.go\<close>), \<open>Handles\<close> (\<^verbatim>\<open>handle.go\<close>): the parts the handlers use. Shown: resolved paths stay below the root, errors
    never become success, attributes announce what they carry, advertised limits are the enforced ones.
  \<^item> \<open>Driver\<close>, \<open>MemFS\<close>: the driver interface and the in-memory driver of the tests, at which properties are evaluated.
  \<^item> \<open>Ops\<close> (\<^verbatim>\<open>ops.go\<close>), \<open>File_IO\<close> (\<open>READ\<close> and \<open>WRITE\<close> of \<^verbatim>\<open>ops.go\<close>, \<^verbatim>\<open>copydata.go\<close>), \<open>Session\<close> (\<^verbatim>\<open>session.go\<close>,
    \<^verbatim>\<open>concurrent.go\<close>, \<^verbatim>\<open>Serve\<close>): every handler, the dispatch, negotiation and the loop.
  \<^item> \<open>Discipline\<close>, \<open>Handlers\<close>, \<open>Serving\<close>, \<open>Session_Safety\<close>: the specification of the conversation between server and
    driver (\<open>monitor\<close>: which call under which lock, with which paths, on which exports), the Hoare-style rules for
    actions, and their proof for every handler over any driver that keeps \<open>driver_contract\<close>.
  \<^item> \<open>Sessions\<close>: reachable states and whole sessions. Shown: every packet is answered once with its id, paths are
    contained, read-only exports are never changed, locks and files are used properly and released.
  \<^item> \<open>File_Contents\<close>: the abstract file, and that both ways of serving \<open>READ\<close> and \<open>WRITE\<close> refine it. \<open>Directories\<close>:
    \<open>READDIR\<close> enumerates a directory.
  \<^item> \<open>Schedules\<close>, \<open>In_Flight\<close>, \<open>Transfers\<close>: requests that run side by side (\<^verbatim>\<open>concurrent.go\<close>, the jobs of \<^verbatim>\<open>session.go\<close>).
    \<open>Schedules\<close> has the spans, the orders they allow, the locale \<open>commuting\<close> of steps that may trade places, and the
    packet timer; \<open>In_Flight\<close> the locale \<open>shared_driver\<close> of a driver whose files do not share their contents, and that a
    batch on any number of files cannot be told from requests answered one at a time; \<open>Transfers\<close> that a file uploaded
    and downloaded with requests in flight arrives whole.
  \<^item> \<open>Divergences\<close>: where the code and what is written about it part, as lemmas.
  \<^item> \<open>Sshd_Auth\<close>, \<open>Sshd_Server\<close>, \<open>Sshd_Life\<close>: \<^verbatim>\<open>sshd/sshd.go\<close>. Shown: who gets in, what a connection can reach, and that
    closing leaves nothing open, over all interleavings of accepting, handling and closing; what ends the accepting loop.
  \<^item> \<open>Demo\<close>: \<^verbatim>\<open>fat32demo/demo/demo.go\<close>. This theory adds the properties that span them.

  \<^bold>\<open>Loops.\<close> No definition uses fuel. The request loop ends because every packet takes bytes off the stream, the
  decoding loops because every entry takes bytes off the payload, \<open>READDIR\<close> because the position grows; reading a keys
  file depends on a parser outside the repository and is a partial function, shown to return when that parser consumes
  input. \<open>run_loop\<close> reads from a stream whose bytes are all given; a client that keeps a stream open without sending is
  one whose bytes have not arrived.

  \<^bold>\<open>Not modelled.\<close> The \<^verbatim>\<open>inflight\<close> module is not part of the repository: \<open>run_loop\<close> is a session with one request in
  flight, and \<open>Schedules\<close> states the module's documented ordering rules, of which \<open>In_Flight\<close> shows what follows for a
  batch of reads and writes on any number of files; its pool of tokens and the blocking of a full pool are left out. A driver call is atomic.
  The SSH protocol and the host's network are the SSH library's and the operating system's and stand as parameters.
  \<^verbatim>\<open>fat32demo/main.go\<close> has no definition: it connects signals to a context and calls \<^verbatim>\<open>Main\<close>. Memory and time are not counted, except that buffers never
  grow past their limits. \<^verbatim>\<open>doc.go\<close> and \<^verbatim>\<open>wire/doc.go\<close> hold comments only.
\<close>

subsection \<open>From the command line to the driver\<close>

lemma demo_server:
  assumes "Build ho now opts = Some (Inr d, closes)" "chooseServer d user perms = Inr (Some srv)"
  shows "\<exists>fsys. ho_openImage ho (op_Image opts) (op_Partition opts) = Inr (Some fsys) \<and> sv_fsys srv = fsys
    \<and> sv_ro srv = (\<not> op_ReadWrite opts)"
proof (cases rule: Build_cases [of ho now opts, case_names unopened refused built endless])
  case (built fsys srv' ak keys hk d')
  with assms have "srv = srv'" using demoConfig_New(3) [OF built(6), of user perms] by simp
  with built New_demo [of now fsys "op_ReadWrite opts"] show ?thesis by (auto simp: ReadOnly_def)
qed (use assms(1) in auto)

lemma demo_has_server:
  assumes "Build ho now opts = Some (Inr d, closes)"
  shows "\<exists>srv. chooseServer d user perms = Inr (Some srv)"
proof (cases rule: Build_cases [of ho now opts, case_names unopened refused built endless])
  case (built fsys srv ak keys hk d')
  with assms demoConfig_New(3) [OF built(6), of user perms] show ?thesis by auto
qed (use assms in auto)

text \<open>
  The command around the listener. Only the goroutine that waits for the cancellation closes the server, so a server
  that is closed was cancelled; then the accepting loop's next failure ends \<^verbatim>\<open>Run\<close> without an error, with the image
  closed, and the exit code is 0.
\<close>

lemma command_stops_cleanly:
  assumes "ParseArgs args = Inr opts" "Build ho now opts = Some (Inr d, closes)" "su_listen su = None"
    and "sshd_Serve ln rs d = ((su_serve su, cs, shut), d')" "su_serve su = Some e" "sd_closed d'"
    and "sd_closed d' \<longrightarrow> su_cancelled su \<and> su_stopped su"
  shows "Run ho now su opts = Some (None, closes + 1) \<and> Main ho now su args = Some 0"
proof -
  have "e = ErrServerClosed" using sshd_Serve_error [OF assms(4) [unfolded assms(5)]] assms(6) by simp
  then show ?thesis using assms by (simp add: Run_def Main_def)
qed

text \<open>C12: A command line without \<^verbatim>\<open>-rw\<close> cannot change the image. Whatever options, keys and users there are, and whatever
  bytes a client that has logged in sends, a session of a server the command assembled from such a command line asks
  the driver for no change of any kind, hands it only paths resolved below the root, and leaves no file open.\<close>

theorem command_without_rw_changes_nothing:
  assumes "ParseArgs args = Inr opts" "\<forall>s \<in> set args. \<not> rw_flag s"
    and "Build ho now opts = Some (Inr d, closes)" "chooseServer d user perms = Inr (Some srv)"
    and "ho_openImage ho (op_Image opts) (op_Partition opts) = Inr (Some fsys)" "driver_contract fsys" "covers order"
    and "Serve E srv slots order r w world = (out, w', s')"
  shows "(\<forall>e \<in> set (se_trace s'). \<not> mutating e \<and> (\<forall>p \<in> set (paths_of e). resolved p)) \<and> se_handles s' = []"
proof -
  have srv: "sv_fsys srv = fsys" "sv_ro srv = (\<not> op_ReadWrite opts)" using demo_server [OF assms(3,4)] assms(5) by auto
  have "parse_flags args defaultOptions = Inr opts" using assms(1) by (auto simp: ParseArgs_def split: sum.splits if_splits)
  from parse_flags_ReadWrite [OF this] assms(2) have "sv_ro srv" using srv(2) by (auto simp: defaultOptions_def)
  with driver_contract.Serve_events [OF assms(6) srv(1) assms(7,8)] driver_contract.Serve_spec [OF assms(6) srv(1) assms(7,8)]
  show ?thesis by blast
qed

theorem command_without_rw_changes_nothing_witness:
  "\<exists>d srv. Build exampleHost 0 exampleOptions = Some (Inr d, 0) \<and> chooseServer d ''bob'' noPermissions = Inr (Some srv)
     \<and> (\<forall>e \<in> set (se_trace (snd (snd (Serve memEnv srv (\<lambda>i. []) (map fst) example_input \<lparr>w_calls = [], w_err = None\<rparr> newMemFS)))).
          \<not> mutating e)"
proof -
  obtain d where d: "Build exampleHost 0 exampleOptions = Some (Inr d, 0)" using example_Build by blast
  obtain srv where srv: "chooseServer d ''bob'' noPermissions = Inr (Some srv)" using demo_has_server [OF d] by blast
  obtain out w' s' where run: "Serve memEnv srv (\<lambda>i. []) (map fst) example_input \<lparr>w_calls = [], w_err = None\<rparr> newMemFS = (out, w', s')"
    by (metis prod.exhaust)
  have rw: "\<forall>s \<in> set [''-image'', ''disk'', ''-authorized-keys'', ''ak'']. \<not> rw_flag s" by (simp add: rw_flag_def)
  have fs: "ho_openImage exampleHost (op_Image exampleOptions) (op_Partition exampleOptions) = Inr (Some bareFS)"
    by (simp add: exampleHost_def exampleOptions_def)
  from command_without_rw_changes_nothing [OF example_args rw d srv fs bare.driver_contract_axioms covers_map_fst run] d srv run
  show ?thesis by auto
qed

end
